theory Spec2Isabelle
  imports Main "HOL-Library.Log_Nat"
begin

section \<open>Python values used by the pipeline\<close>

text \<open>
  A Python \<open>str\<close> is a sequence of Unicode code points; \<open>len\<close> counts code points.
  It is modelled as a list of code-point numbers. \<open>lit\<close> turns an ASCII literal of the
  source into such a list.
\<close>

type_synonym pystr = "nat list"

definition lit :: "string \<Rightarrow> pystr" where
  [simp]: "lit s = map of_char s"

text \<open>
  Exceptions are values. Every class below derives from Python's \<open>Exception\<close>, so an
  \<open>except Exception\<close> clause catches each of them. The second component is \<open>str(e)\<close>.
\<close>

datatype classe_excecao =
  ValueError | OverflowError | FileNotFoundError | FileExistsError
  | RuntimeError | TimeoutExpired | OutraExcecao

datatype excecao = Excecao classe_excecao pystr

fun str_excecao :: "excecao \<Rightarrow> pystr" where
  "str_excecao (Excecao c m) = m"

subsection \<open>Decimal formatting: \<open>str(n)\<close> and the format specs \<open>02d\<close>, \<open>03d\<close>, \<open>06d\<close>\<close>

function str_nat :: "nat \<Rightarrow> pystr" where
  "str_nat n = (if n < 10 then [48 + n] else str_nat (n div 10) @ [48 + n mod 10])"
  by pat_completeness auto
termination
  by (relation "measure id") auto

declare str_nat.simps [simp del]

definition zeros_esquerda :: "nat \<Rightarrow> pystr \<Rightarrow> pystr" where
  "zeros_esquerda w s = replicate (w - length s) 48 @ s"

text \<open>
  \<open>f"{x:0wd}"\<close>: sign-aware zero padding to a minimum width \<open>w\<close>; the sign, when
  there is one, comes first and counts in the width.
\<close>

definition fmt_0d :: "nat \<Rightarrow> int \<Rightarrow> pystr" where
  "fmt_0d w x =
     (if x < 0 then 45 # zeros_esquerda (w - 1) (str_nat (nat (- x)))
      else zeros_esquerda w (str_nat (nat x)))"

subsection \<open>The directory: \<open>os.path.join\<close>, \<open>os.path.exists\<close>, \<open>os.rename\<close>\<close>

text \<open>
  The files of the output directory are a map from path to content (the content type is
  left open: for a frame it is the image). \<open>os.rename\<close> depends on the platform: on
  POSIX an existing destination file is replaced silently, on Windows
  \<open>FileExistsError\<close> is raised.
\<close>

datatype plataforma = Posix | Windows

type_synonym 'a diretorio = "pystr \<rightharpoonup> 'a"

text \<open>
  \<open>os.path.join(a, b)\<close> for a second component that is a plain file name (neither
  absolute nor with a drive), which is what every call of the pipeline passes: the
  separator is inserted unless \<open>a\<close> is empty or already ends with one
  (code point 47 on POSIX; 47, 92 or 58 on Windows).
\<close>

definition os_path_join :: "plataforma \<Rightarrow> pystr \<Rightarrow> pystr \<Rightarrow> pystr" where
  "os_path_join pl a b =
     (case pl of
        Posix \<Rightarrow> (if a = [] \<or> last a = 47 then a @ b else a @ [47] @ b)
      | Windows \<Rightarrow> (if a = [] \<or> last a \<in> {47, 92, 58} then a @ b else a @ [92] @ b))"

definition os_path_exists :: "'a diretorio \<Rightarrow> pystr \<Rightarrow> bool" where
  "os_path_exists fs p = (fs p \<noteq> None)"

definition os_rename :: "plataforma \<Rightarrow> pystr \<Rightarrow> pystr \<Rightarrow> 'a diretorio \<Rightarrow> excecao + 'a diretorio" where
  "os_rename pl src dst fs =
     (case fs src of
        None \<Rightarrow> Inl (Excecao FileNotFoundError src)
      | Some c \<Rightarrow>
          if src = dst then Inr fs
          else if pl = Windows \<and> fs dst \<noteq> None then Inl (Excecao FileExistsError dst)
          else Inr (fs(src := None, dst \<mapsto> c)))"

section \<open>Frame Renamer: \<open>renomear_frames\<close> (pica.video.09.py)\<close>

type_synonym tempo_frame = "int \<times> int \<times> int"

definition nome_original :: "plataforma \<Rightarrow> pystr \<Rightarrow> nat \<Rightarrow> pystr" where
  "nome_original pl pasta_saida i =
     os_path_join pl pasta_saida (lit ''frame_'' @ fmt_0d 6 (int i + 1) @ lit ''.png'')"

definition nome_novo :: "plataforma \<Rightarrow> pystr \<Rightarrow> pystr \<Rightarrow> tempo_frame \<Rightarrow> pystr" where
  "nome_novo pl pasta_saida nome_base t =
     (case t of (minutos, segundos, milissegundos) \<Rightarrow>
        os_path_join pl pasta_saida
          (lit ''frame_'' @ nome_base @ lit ''_'' @ fmt_0d 2 minutos @ lit ''-''
             @ fmt_0d 2 segundos @ lit ''-'' @ fmt_0d 3 milissegundos @ lit ''.png''))"

text \<open>
  The warning logged for a missing frame:
  \<open>f"Arquivo {nome_original} nao encontrado. Pulando..."\<close>, where the
  \<open>a\<close> of \<open>nao\<close> carries a tilde (code point 227).
\<close>

definition aviso_nao_encontrado :: "pystr \<Rightarrow> pystr" where
  "aviso_nao_encontrado nome =
     lit ''Arquivo '' @ nome @ lit '' n'' @ [227] @ lit ''o encontrado. Pulando...''"

text \<open>
  The loop over \<open>enumerate(tempos_frames)\<close>. The state is the directory and the
  warnings logged so far. An exception of \<open>os.rename\<close> leaves the loop; the
  \<open>except\<close> clause of the source logs it and raises it again.
\<close>

fun renomear_laco ::
  "plataforma \<Rightarrow> pystr \<Rightarrow> pystr \<Rightarrow> (nat \<times> tempo_frame) list \<Rightarrow> 'a diretorio \<times> pystr list
     \<Rightarrow> excecao + ('a diretorio \<times> pystr list)" where
  "renomear_laco pl pasta_saida nome_base [] st = Inr st"
| "renomear_laco pl pasta_saida nome_base ((i, t) # resto) (fs, avisos) =
     (if os_path_exists fs (nome_original pl pasta_saida i) then
        (case os_rename pl (nome_original pl pasta_saida i) (nome_novo pl pasta_saida nome_base t) fs of
           Inl e \<Rightarrow> Inl e
         | Inr fs' \<Rightarrow> renomear_laco pl pasta_saida nome_base resto (fs', avisos))
      else
        renomear_laco pl pasta_saida nome_base resto
          (fs, avisos @ [aviso_nao_encontrado (nome_original pl pasta_saida i)]))"

definition renomear_frames ::
  "plataforma \<Rightarrow> tempo_frame list \<Rightarrow> pystr \<Rightarrow> pystr \<Rightarrow> 'a diretorio
     \<Rightarrow> excecao + ('a diretorio \<times> pystr list)" where
  "renomear_frames pl tempos_frames pasta_saida nome_base fs =
     renomear_laco pl pasta_saida nome_base (enumerate 0 tempos_frames) (fs, [])"

text \<open>
  Reading a digit string back as a number (the inverse of the decimal formatting; used to
  show that the formatted names determine the numbers).
\<close>

definition valor_decimal :: "pystr \<Rightarrow> nat" where
  "valor_decimal s = foldl (\<lambda>a c. 10 * a + (c - 48)) 0 s"

section \<open>Python floats\<close>

text \<open>
  A Python \<open>float\<close> is an IEEE 754 binary64 number. Its finite values are rational
  numbers, so a float is modelled as \<open>Fin r\<close> for the rational it denotes, or
  \<open>NaoFinito\<close> for an infinity or a NaN. Every arithmetic operation computes the exact
  rational result and rounds it to the nearest binary64 number, ties to even
  (\<open>binary64\<close>); this is where the model differs from arithmetic on the reals.
  Signed zeros are not distinguished: no function of the pipeline observes the sign of
  a zero.
\<close>

datatype pyfloat = Fin rat | NaoFinito

text \<open>\<open>expoente x\<close> is the integer \<open>e\<close> with \<open>2^e \<le> x < 2^(e+1)\<close>, for \<open>x > 0\<close>.\<close>

definition expoente :: "rat \<Rightarrow> int" where
  "expoente x =
     (let d = bitlen (fst (quotient_of x)) - bitlen (snd (quotient_of x))
      in if 2 powi d \<le> x then d else d - 1)"

definition arredonda_par :: "rat \<Rightarrow> int" where
  "arredonda_par y =
     (let f = \<lfloor>y\<rfloor>; r = y - of_int f
      in if r < 1 / 2 then f else if 1 / 2 < r then f + 1 else if even f then f else f + 1)"

text \<open>
  Rounding to binary64: 53 significant bits, least exponent of the last bit \<open>-1074\<close>
  (subnormal numbers included); a result of magnitude \<open>2^1024\<close> or more is an infinity.
  \<open>ultimo_bit x\<close> is the exponent of the last of the 53 bits for a magnitude \<open>x\<close>.
\<close>

definition ultimo_bit :: "rat \<Rightarrow> int" where
  "ultimo_bit x = max (expoente x - 52) (- 1074)"

definition limite_binary64 :: rat where
  "limite_binary64 = 2 powi 1024"

definition binary64 :: "rat \<Rightarrow> pyfloat" where
  "binary64 x =
     (if x = 0 then Fin 0
      else
        let q = ultimo_bit \<bar>x\<bar>;
            y = of_int (arredonda_par (\<bar>x\<bar> / 2 powi q)) * 2 powi q
        in if limite_binary64 \<le> y then NaoFinito else Fin (sgn x * y))"

text \<open>The rationals that are binary64 numbers are those that rounding leaves unchanged.\<close>

definition representavel :: "rat \<Rightarrow> bool" where
  "representavel x = (binary64 x = Fin x)"

fun float_add :: "pyfloat \<Rightarrow> pyfloat \<Rightarrow> pyfloat" where
  "float_add (Fin a) (Fin b) = binary64 (a + b)"
| "float_add _ _ = NaoFinito"

fun float_sub :: "pyfloat \<Rightarrow> pyfloat \<Rightarrow> pyfloat" where
  "float_sub (Fin a) (Fin b) = binary64 (a - b)"
| "float_sub _ _ = NaoFinito"

fun float_mul :: "pyfloat \<Rightarrow> pyfloat \<Rightarrow> pyfloat" where
  "float_mul (Fin a) (Fin b) = binary64 (a * b)"
| "float_mul _ _ = NaoFinito"

text \<open>Division by a divisor that is not zero (the pipeline divides by 60 and 3600 only).\<close>

fun float_div :: "pyfloat \<Rightarrow> pyfloat \<Rightarrow> pyfloat" where
  "float_div (Fin a) (Fin b) = binary64 (a / b)"
| "float_div _ _ = NaoFinito"

definition truncar :: "rat \<Rightarrow> int" where
  "truncar r = (if 0 \<le> r then \<lfloor>r\<rfloor> else \<lceil>r\<rceil>)"

text \<open>C's \<open>fmod\<close>: exact, with the sign of the dividend.\<close>

definition fmod :: "rat \<Rightarrow> rat \<Rightarrow> rat" where
  "fmod vx wx = vx - wx * of_int (truncar (vx / wx))"

text \<open>
  CPython's \<open>_float_div_mod\<close> (floatobject.c), which computes \<open>vx // wx\<close> and
  \<open>vx % wx\<close> for a divisor \<open>wx\<close> that is not zero: the remainder is \<open>fmod\<close>
  adjusted to the sign of the divisor, the quotient is \<open>(vx - mod) / wx\<close> snapped to the
  nearest integral value.
\<close>

definition float_div_mod :: "rat \<Rightarrow> rat \<Rightarrow> pyfloat \<times> pyfloat" where
  "float_div_mod vx wx =
     (let mod0 = fmod vx wx;
          div0 = float_div (float_sub (Fin vx) (Fin mod0)) (Fin wx);
          ajusta = (mod0 \<noteq> 0 \<and> ((wx < 0) \<noteq> (mod0 < 0)));
          mod1 = (if ajusta then float_add (Fin mod0) (Fin wx) else Fin mod0);
          div1 = (if ajusta then float_sub div0 (Fin 1) else div0);
          floordiv =
            (case div1 of
               NaoFinito \<Rightarrow> NaoFinito
             | Fin d \<Rightarrow>
                 if d \<noteq> 0 then
                   (case float_sub (Fin d) (Fin (of_int \<lfloor>d\<rfloor>)) of
                      NaoFinito \<Rightarrow> NaoFinito
                    | Fin r \<Rightarrow> if 1 / 2 < r then float_add (Fin (of_int \<lfloor>d\<rfloor>)) (Fin 1)
                              else Fin (of_int \<lfloor>d\<rfloor>))
                 else Fin 0)
      in (floordiv, mod1))"

text \<open>
  \<open>x // n\<close> and \<open>x % n\<close> for a float \<open>x\<close> and an \<open>int\<close> literal \<open>n\<close> that is
  not zero and is exactly a float (60, 3600). On an infinity or a NaN both give a NaN.
\<close>

fun float_floordiv :: "pyfloat \<Rightarrow> int \<Rightarrow> pyfloat" where
  "float_floordiv (Fin vx) n = fst (float_div_mod vx (of_int n))"
| "float_floordiv NaoFinito n = NaoFinito"

fun float_mod :: "pyfloat \<Rightarrow> int \<Rightarrow> pyfloat" where
  "float_mod (Fin vx) n = snd (float_div_mod vx (of_int n))"
| "float_mod NaoFinito n = NaoFinito"

text \<open>
  \<open>int(x)\<close> truncates towards zero and raises on a NaN (\<open>ValueError\<close>) or an infinity
  (\<open>OverflowError\<close>). In the pipeline the first \<open>int(...)\<close> of a function is always
  applied to the result of \<open>//\<close>, which is a NaN whenever the operand is not finite, so
  the exception is modelled as \<open>ValueError\<close>.
\<close>

fun py_int :: "pyfloat \<Rightarrow> excecao + int" where
  "py_int (Fin r) = Inr (truncar r)"
| "py_int NaoFinito = Inl (Excecao ValueError (lit ''cannot convert float NaN to integer''))"

text \<open>
  \<open>x - n\<close> for a float \<open>x\<close> and an \<open>int\<close> \<open>n\<close>: the integer is converted to a
  float first, which raises \<open>OverflowError\<close> when it is too large.
\<close>

definition float_de_int :: "int \<Rightarrow> excecao + pyfloat" where
  "float_de_int n =
     (case binary64 (of_int n) of
        NaoFinito \<Rightarrow> Inl (Excecao OverflowError (lit ''int too large to convert to float''))
      | Fin y \<Rightarrow> Inr (Fin y))"

text \<open>\<open>a / b\<close> for two \<open>int\<close>s with \<open>b\<close> not zero: the correctly rounded quotient.\<close>

definition int_truediv :: "int \<Rightarrow> int \<Rightarrow> pyfloat" where
  "int_truediv a b = binary64 (of_int a / of_int b)"

section \<open>Timestamp Reconstructor: \<open>analisar_dados_log\<close> (pica.video.09.py)\<close>

definition digito :: "nat \<Rightarrow> bool" where
  "digito c = (48 \<le> c \<and> c \<le> 57)"

definition digito_ou_ponto :: "nat \<Rightarrow> bool" where
  "digito_ou_ponto c = (digito c \<or> c = 46)"

text \<open>
  \<open>re.search(r'pts_time:([0-9.]+)', linha)\<close>: the leftmost position where the text
  \<open>pts_time:\<close> is followed by at least one digit or dot; the group is the longest run
  of digits and dots there. \<open>None\<close> when there is no such position.
\<close>

fun re_search_pts_time :: "pystr \<Rightarrow> pystr option" where
  "re_search_pts_time [] = None"
| "re_search_pts_time (c # cs) =
     (if take 9 (c # cs) = lit ''pts_time:'' \<and> takeWhile digito_ou_ponto (drop 9 (c # cs)) \<noteq> []
      then Some (takeWhile digito_ou_ponto (drop 9 (c # cs)))
      else re_search_pts_time cs)"

text \<open>
  \<open>float(s)\<close> for a string of digits and dots, which is all the pattern captures:
  digits with at most one dot and at least one digit denote a decimal number, which is
  rounded correctly (a number too large becomes an infinity); any other such string
  raises \<open>ValueError\<close>.
\<close>

definition py_float :: "pystr \<Rightarrow> excecao + pyfloat" where
  "py_float s =
     (let inteira = takeWhile digito s; resto = dropWhile digito s
      in if resto = [] \<and> inteira \<noteq> [] then
           Inr (binary64 (of_nat (valor_decimal inteira)))
         else if resto \<noteq> [] \<and> hd resto = 46 \<and> list_all digito (tl resto)
                 \<and> (inteira \<noteq> [] \<or> tl resto \<noteq> []) then
           Inr (binary64 (of_nat (valor_decimal inteira)
                  + of_nat (valor_decimal (tl resto)) / 10 ^ length (tl resto)))
         else
           Inl (Excecao ValueError (lit ''could not convert string to float: '' @ [39] @ s @ [39])))"

text \<open>
  The three assignments of the loop body:
  \<open>minutos = int(timestamp // 60)\<close>, \<open>segundos = int(timestamp % 60)\<close>,
  \<open>milissegundos = int((timestamp - int(timestamp)) * 1000)\<close>.
\<close>

definition tempo_do_frame :: "pyfloat \<Rightarrow> excecao + tempo_frame" where
  "tempo_do_frame timestamp =
     (case py_int (float_floordiv timestamp 60) of
        Inl e \<Rightarrow> Inl e
      | Inr minutos \<Rightarrow>
     (case py_int (float_mod timestamp 60) of
        Inl e \<Rightarrow> Inl e
      | Inr segundos \<Rightarrow>
     (case py_int timestamp of
        Inl e \<Rightarrow> Inl e
      | Inr parte_inteira \<Rightarrow>
     (case float_de_int parte_inteira of
        Inl e \<Rightarrow> Inl e
      | Inr f \<Rightarrow>
     (case py_int (float_mul (float_sub timestamp f) (Fin 1000)) of
        Inl e \<Rightarrow> Inl e
      | Inr milissegundos \<Rightarrow> Inr (minutos, segundos, milissegundos))))))"

text \<open>
  The loop over the log lines, with the list built so far. An exception leaves the loop;
  the \<open>except\<close> clause of the source logs it and raises it again.
\<close>

fun analisar_laco :: "pystr list \<Rightarrow> tempo_frame list \<Rightarrow> excecao + tempo_frame list" where
  "analisar_laco [] tempos_frames = Inr tempos_frames"
| "analisar_laco (linha # resto) tempos_frames =
     (case re_search_pts_time linha of
        None \<Rightarrow> analisar_laco resto tempos_frames
      | Some grupo \<Rightarrow>
          (case py_float grupo of
             Inl e \<Rightarrow> Inl e
           | Inr timestamp \<Rightarrow>
               (case tempo_do_frame timestamp of
                  Inl e \<Rightarrow> Inl e
                | Inr t \<Rightarrow> analisar_laco resto (tempos_frames @ [t]))))"

definition analisar_dados_log :: "pystr list \<Rightarrow> excecao + tempo_frame list" where
  "analisar_dados_log dados_log = analisar_laco dados_log []"

text \<open>
  The ranges of the fields of a renamed frame's file name: two digits for the seconds,
  three for the milliseconds.
\<close>

definition nos_campos :: "tempo_frame \<Rightarrow> bool" where
  "nos_campos tf = (case tf of (m, s, ms) \<Rightarrow> 0 \<le> m \<and> 0 \<le> s \<and> s \<le> 59 \<and> 0 \<le> ms \<and> ms \<le> 999)"

section \<open>\<open>formatar_timestamp\<close> (pica.video.09.py)\<close>

definition partes_timestamp :: "pyfloat \<Rightarrow> excecao + (int \<times> int \<times> int \<times> int)" where
  "partes_timestamp segundos =
     (case py_int (float_floordiv segundos 3600) of
        Inl e \<Rightarrow> Inl e
      | Inr horas \<Rightarrow>
     (case py_int (float_floordiv (float_mod segundos 3600) 60) of
        Inl e \<Rightarrow> Inl e
      | Inr minutos \<Rightarrow>
     (case py_int (float_mod segundos 60) of
        Inl e \<Rightarrow> Inl e
      | Inr segs \<Rightarrow>
     (case py_int segundos of
        Inl e \<Rightarrow> Inl e
      | Inr parte_inteira \<Rightarrow>
     (case float_de_int parte_inteira of
        Inl e \<Rightarrow> Inl e
      | Inr f \<Rightarrow>
     (case py_int (float_mul (float_sub segundos f) (Fin 1000)) of
        Inl e \<Rightarrow> Inl e
      | Inr milissegundos \<Rightarrow> Inr (horas, minutos, segs, milissegundos)))))))"

text \<open>
  \<open>f"{horas:02d}:{minutos:02d}:{segs:02d},{milissegundos:03d}"\<close>; on any exception
  the function logs it and returns \<open>"00:00:00,000"\<close>.
\<close>

definition formatar_timestamp :: "pyfloat \<Rightarrow> pystr" where
  "formatar_timestamp segundos =
     (case partes_timestamp segundos of
        Inl e \<Rightarrow> lit ''00:00:00,000''
      | Inr (horas, minutos, segs, milissegundos) \<Rightarrow>
          fmt_0d 2 horas @ lit '':'' @ fmt_0d 2 minutos @ lit '':'' @ fmt_0d 2 segs
            @ lit '','' @ fmt_0d 3 milissegundos)"

section \<open>Python string methods\<close>

text \<open>
  The code points for which \<open>str.isspace()\<close> holds; they are what \<open>str.strip()\<close> and
  \<open>str.split()\<close> remove and what the white-space class of a \<open>str\<close> pattern matches.
\<close>

definition py_isspace :: "nat \<Rightarrow> bool" where
  "py_isspace c =
     ((9 \<le> c \<and> c \<le> 13) \<or> (28 \<le> c \<and> c \<le> 32) \<or> c = 133 \<or> c = 160 \<or> c = 5760
      \<or> (8192 \<le> c \<and> c \<le> 8202) \<or> c = 8232 \<or> c = 8233 \<or> c = 8239 \<or> c = 8287
      \<or> c = 12288)"

definition py_strip :: "pystr \<Rightarrow> pystr" where
  "py_strip s = rev (dropWhile py_isspace (rev (dropWhile py_isspace s)))"

text \<open>
  \<open>s.split()\<close>: the maximal runs of characters that are not white space. The first
  argument is the word read so far.
\<close>

fun py_split_aux :: "pystr \<Rightarrow> pystr \<Rightarrow> pystr list" where
  "py_split_aux palavra [] = (if palavra = [] then [] else [palavra])"
| "py_split_aux palavra (c # cs) =
     (if py_isspace c then
        (if palavra = [] then py_split_aux [] cs else palavra # py_split_aux [] cs)
      else py_split_aux (palavra @ [c]) cs)"

definition py_split :: "pystr \<Rightarrow> pystr list" where
  "py_split s = py_split_aux [] s"

text \<open>\<open>s.rsplit(".", 1)[0]\<close>: the text before the last dot, or all of it without a dot.\<close>

definition rsplit_ponto :: "pystr \<Rightarrow> pystr" where
  "rsplit_ponto s =
     (if 46 \<in> set s then rev (tl (dropWhile (\<lambda>c. c \<noteq> 46) (rev s))) else s)"

definition py_endswith :: "pystr \<Rightarrow> pystr \<Rightarrow> bool" where
  "py_endswith s sufixo = (length sufixo \<le> length s \<and> drop (length s - length sufixo) s = sufixo)"

text \<open>\<open>sub in s\<close> for strings.\<close>

fun contem :: "pystr \<Rightarrow> pystr \<Rightarrow> bool" where
  "contem sub [] = (sub = [])"
| "contem sub (c # cs) = (take (length sub) (c # cs) = sub \<or> contem sub cs)"

section \<open>Legibility classifier: \<open>texto_legivel\<close> (_antigos/pica.video.03.py)\<close>

text \<open>
  The character class of the first pattern (ASCII letters and three ranges of accented
  letters), by code point:
  the ASCII letters and the Latin-1 letters 192-214, 216-246 and 248-255.
\<close>

definition letra_alvo :: "nat \<Rightarrow> bool" where
  "letra_alvo c =
     ((65 \<le> c \<and> c \<le> 90) \<or> (97 \<le> c \<and> c \<le> 122) \<or> (192 \<le> c \<and> c \<le> 214)
      \<or> (216 \<le> c \<and> c \<le> 246) \<or> (248 \<le> c \<and> c \<le> 255))"

text \<open>The first \<open>re.sub\<close>: delete every character that is neither a letter of the class nor white space.\<close>

definition remover_nao_alfabeticos :: "pystr \<Rightarrow> pystr" where
  "remover_nao_alfabeticos texto = filter (\<lambda>c. letra_alvo c \<or> py_isspace c) texto"

text \<open>
  The second \<open>re.sub\<close>: every maximal run of white space becomes one space. The
  first argument tells whether the previous character was white space.
\<close>

fun colapsar_espacos_aux :: "bool \<Rightarrow> pystr \<Rightarrow> pystr" where
  "colapsar_espacos_aux anterior [] = []"
| "colapsar_espacos_aux anterior (c # cs) =
     (if py_isspace c then
        (if anterior then colapsar_espacos_aux True cs else 32 # colapsar_espacos_aux True cs)
      else c # colapsar_espacos_aux False cs)"

definition colapsar_espacos :: "pystr \<Rightarrow> pystr" where
  "colapsar_espacos s = colapsar_espacos_aux False s"

definition limpar_texto :: "pystr \<Rightarrow> pystr" where
  "limpar_texto texto = py_strip (colapsar_espacos (remover_nao_alfabeticos texto))"

text \<open>
  \<open>texto_legivel\<close>. The language detector (\<open>langdetect.detect\<close>) is an external
  collaborator: it returns a language code or raises. Any exception makes the function
  return \<open>False\<close>.
\<close>

definition texto_legivel :: "(pystr \<Rightarrow> excecao + pystr) \<Rightarrow> pystr \<Rightarrow> bool" where
  "texto_legivel detect texto =
     (let texto_limpo = limpar_texto texto
      in if texto_limpo = [] then False
         else
           (case detect texto_limpo of
              Inl e \<Rightarrow> False
            | Inr idioma \<Rightarrow>
                if idioma \<noteq> lit ''pt'' then False
                else
                  let palavras = py_split texto_limpo;
                      palavras_longas = filter (\<lambda>palavra. 4 \<le> length palavra) palavras
                  in if 0 < length palavras_longas then True else False))"

section \<open>Progress channels\<close>

text \<open>
  What a worker puts on its \<open>multiprocessing.Queue\<close>: a \<open>float\<close> (a progress
  fraction) or a \<open>str\<close> (a status or an error text). A queue is the list of the
  messages put on it, oldest first.
\<close>

datatype mensagem = Progresso pyfloat | Texto pystr

section \<open>Frame pipeline: \<open>extrair_frames\<close> and \<open>processar_frames\<close> (pica.video.09.py)\<close>

text \<open>
  The external decoder is a collaborator. What the code observes of one run, in the order
  of the source: the \<open>Popen\<close> call raises; or the loop over \<open>processo.stderr\<close> never
  ends, because the decoder never closes its diagnostic stream (the call of \<open>wait\<close>
  with its timeout is then never reached); or the stream ends and \<open>wait(timeout=300)\<close>
  raises \<open>TimeoutExpired\<close> (with the text of that exception), because the process is
  still running five minutes later; or the stream ends and the process ends with a return
  code, having written its diagnostic lines.
\<close>

datatype resultado_ffmpeg =
  FalhaAoIniciar excecao
  | StderrNuncaFecha
  | EsperaExcedida pystr
  | Terminou int "pystr list"

definition erro_ffmpeg :: pystr where
  "erro_ffmpeg =
     lit ''Erro ao processar o v'' @ [237] @ lit ''deo com ffmpeg. C'' @ [243]
       @ lit ''digo de retorno diferente de zero.''"

text \<open>
  \<open>extrair_frames\<close>: keeps the lines that contain \<open>pts_time\<close>; both \<open>except\<close>
  clauses log and raise again. \<open>None\<close> is a call that never returns.
\<close>

definition extrair_frames :: "resultado_ffmpeg \<Rightarrow> (excecao + pystr list) option" where
  "extrair_frames processo =
     (case processo of
        FalhaAoIniciar e \<Rightarrow> Some (Inl e)
      | StderrNuncaFecha \<Rightarrow> None
      | EsperaExcedida msg \<Rightarrow> Some (Inl (Excecao TimeoutExpired msg))
      | Terminou returncode stderr \<Rightarrow>
          if returncode \<noteq> 0 then Some (Inl (Excecao RuntimeError erro_ffmpeg))
          else Some (Inr (filter (contem (lit ''pts_time'')) stderr)))"

text \<open>
  The directory as the loop of \<open>renomear_frames\<close> leaves it, whether the loop ends or
  \<open>os.rename\<close> raises: the renames done before the exception are not undone.
\<close>

fun diretorio_apos_laco ::
  "plataforma \<Rightarrow> pystr \<Rightarrow> pystr \<Rightarrow> (nat \<times> tempo_frame) list \<Rightarrow> 'a diretorio \<Rightarrow> 'a diretorio" where
  "diretorio_apos_laco pl pasta_saida nome_base [] fs = fs"
| "diretorio_apos_laco pl pasta_saida nome_base ((i, t) # resto) fs =
     (if os_path_exists fs (nome_original pl pasta_saida i) then
        (case os_rename pl (nome_original pl pasta_saida i) (nome_novo pl pasta_saida nome_base t) fs of
           Inl e \<Rightarrow> fs
         | Inr fs' \<Rightarrow> diretorio_apos_laco pl pasta_saida nome_base resto fs')
      else diretorio_apos_laco pl pasta_saida nome_base resto fs)"

definition diretorio_apos_renomear ::
  "plataforma \<Rightarrow> tempo_frame list \<Rightarrow> pystr \<Rightarrow> pystr \<Rightarrow> 'a diretorio \<Rightarrow> 'a diretorio" where
  "diretorio_apos_renomear pl tempos_frames pasta_saida nome_base fs =
     diretorio_apos_laco pl pasta_saida nome_base (enumerate 0 tempos_frames) fs"

text \<open>
  The \<open>try\<close> body of \<open>processar_frames\<close>: extraction, parsing, renaming, then one
  progress fraction per timestamp and the final status. It returns the directory and the
  messages put on the queue as the body leaves them, and the exception that ended it, if
  any; \<open>None\<close> when it never returns. The directory given is the file system as the
  decoder left it; \<open>nome_base\<close> is
  \<open>os.path.splitext(os.path.basename(caminho_video))[0]\<close>.
\<close>

definition frames_concluido :: pystr where
  "frames_concluido = lit ''Processamento de frames conclu'' @ [237] @ lit ''do!''"

definition processar_frames_corpo ::
  "plataforma \<Rightarrow> resultado_ffmpeg \<Rightarrow> 'a diretorio \<Rightarrow> pystr \<Rightarrow> pystr
     \<Rightarrow> (('a diretorio \<times> mensagem list) \<times> excecao option) option" where
  "processar_frames_corpo pl processo fs pasta_saida nome_base =
     (case extrair_frames processo of
        None \<Rightarrow> None
      | Some (Inl e) \<Rightarrow> Some ((fs, []), Some e)
      | Some (Inr dados_log) \<Rightarrow>
     (case analisar_dados_log dados_log of
        Inl e \<Rightarrow> Some ((fs, []), Some e)
      | Inr tempos_frames \<Rightarrow>
     (case renomear_frames pl tempos_frames pasta_saida nome_base fs of
        Inl e \<Rightarrow> Some ((diretorio_apos_renomear pl tempos_frames pasta_saida nome_base fs, []), Some e)
      | Inr (fs', avisos) \<Rightarrow>
          Some ((fs', map (\<lambda>i. Progresso (int_truediv (int i + 1) (int (length tempos_frames))))
                        [0..<length tempos_frames]
                      @ [Texto frames_concluido]),
                None))))"

text \<open>
  \<open>processar_frames\<close>: \<open>except Exception as e\<close> puts the error text on the queue.
  The last component is the exception that leaves the worker.
\<close>

definition processar_frames ::
  "plataforma \<Rightarrow> resultado_ffmpeg \<Rightarrow> 'a diretorio \<Rightarrow> pystr \<Rightarrow> pystr
     \<Rightarrow> (('a diretorio \<times> mensagem list) \<times> excecao option) option" where
  "processar_frames pl processo fs pasta_saida nome_base =
     (case processar_frames_corpo pl processo fs pasta_saida nome_base of
        None \<Rightarrow> None
      | Some ((fs', fila), None) \<Rightarrow> Some ((fs', fila), None)
      | Some ((fs', fila), Some e) \<Rightarrow>
          Some ((fs', fila @ [Texto (lit ''Erro ao processar frames: '' @ str_excecao e)]), None))"

section \<open>Transcription Worker: \<open>transcrever_audio_faster_whisper\<close> (pica.video.09.py)\<close>

text \<open>A segment of the speech model: its attributes \<open>start\<close>, \<open>end\<close> and \<open>text\<close>.\<close>

record segmento =
  seg_start :: pyfloat
  seg_end :: pyfloat
  seg_text :: pystr

text \<open>
  The speech model and the translation model are external collaborators:
  \<open>carregar_whisper\<close> is the exception of \<open>WhisperModel(...)\<close>, if it raises;
  \<open>transcribe\<close> is the exception of \<open>transcribe(...)\<close> or the detected language, the
  segments its generator yields and the exception the generator raises after them, if
  any (the three calls of the source have the same arguments and are taken to behave
  alike); \<open>carregar_tradutor\<close> is the exception of the two \<open>from_pretrained\<close> calls,
  if one raises; \<open>traduzir\<close> is the tokenizer, \<open>generate\<close> with the target language
  \<open>pt\<close> and \<open>batch_decode\<close> on one text.
\<close>

record ambiente_transcricao =
  carregar_whisper :: "excecao option"
  transcribe :: "excecao + (pystr \<times> segmento list \<times> excecao option)"
  carregar_tradutor :: "excecao option"
  traduzir :: "pystr \<Rightarrow> excecao + pystr"

text \<open>The files written: path to content. \<open>open(p, "w")\<close> creates or empties a file.\<close>

type_synonym arquivos = "pystr \<rightharpoonup> pystr"

definition abrir_w :: "pystr \<Rightarrow> arquivos \<Rightarrow> arquivos" where
  "abrir_w caminho fs = fs(caminho \<mapsto> [])"

definition escrever :: "pystr \<Rightarrow> pystr \<Rightarrow> arquivos \<Rightarrow> arquivos" where
  "escrever caminho s fs = fs(caminho \<mapsto> (case fs caminho of None \<Rightarrow> [] | Some c \<Rightarrow> c) @ s)"

definition caminho_srt_en :: "pystr \<Rightarrow> pystr" where
  "caminho_srt_en base_path = base_path @ lit ''-en.srt''"

definition caminho_fala_cron_en :: "pystr \<Rightarrow> pystr" where
  "caminho_fala_cron_en base_path = base_path @ lit ''-en-Fala.Cronometrada.txt''"

definition caminho_srt :: "pystr \<Rightarrow> pystr" where
  "caminho_srt base_path = base_path @ lit ''.srt''"

definition caminho_fala_cron :: "pystr \<Rightarrow> pystr" where
  "caminho_fala_cron base_path = base_path @ lit ''-Fala.Cronometrada.txt''"

text \<open>
  The three writes of one subtitle entry,
  the id and a newline, the two formatted timestamps around \<open>-->\<close> and a newline, the
  text and two newlines; and the write of one transcript line, the formatted start, a
  colon and a space, the text and a newline (code point 10 is the newline).
\<close>

definition escrever_srt :: "pystr \<Rightarrow> nat \<Rightarrow> pyfloat \<Rightarrow> pyfloat \<Rightarrow> pystr \<Rightarrow> arquivos \<Rightarrow> arquivos" where
  "escrever_srt caminho segment_id ini fi txt fs =
     escrever caminho (txt @ [10, 10])
       (escrever caminho (formatar_timestamp ini @ lit '' --> '' @ formatar_timestamp fi @ [10])
          (escrever caminho (str_nat segment_id @ [10]) fs))"

definition escrever_fala :: "pystr \<Rightarrow> pyfloat \<Rightarrow> pystr \<Rightarrow> arquivos \<Rightarrow> arquivos" where
  "escrever_fala caminho ini txt fs =
     escrever caminho (formatar_timestamp ini @ lit '': '' @ txt @ [10]) fs"

text \<open>
  The loop over the segments. The state is the files, the queue and \<open>segment_id\<close>.
  \<open>ingles\<close> is the test \<open>detected_language == "en"\<close>. An exception of the
  translation leaves the loop with the state reached.
\<close>

fun laco_segmentos ::
  "bool \<Rightarrow> (pystr \<Rightarrow> excecao + pystr) \<Rightarrow> pystr \<Rightarrow> nat \<Rightarrow> segmento list
     \<Rightarrow> arquivos \<times> mensagem list \<times> nat \<Rightarrow> (arquivos \<times> mensagem list \<times> nat) \<times> excecao option" where
  "laco_segmentos ingles trad base_path total_segments [] st = (st, None)"
| "laco_segmentos ingles trad base_path total_segments (seg # resto) (fs, fila, segment_id) =
     (let txt = py_strip (seg_text seg)
      in if ingles then
           (let fs1 = escrever_fala (caminho_fala_cron_en base_path) (seg_start seg) txt
                        (escrever_srt (caminho_srt_en base_path) segment_id (seg_start seg) (seg_end seg) txt fs)
            in case trad txt of
                 Inl e \<Rightarrow> ((fs1, fila, segment_id), Some e)
               | Inr texto_traduzido \<Rightarrow>
                   laco_segmentos ingles trad base_path total_segments resto
                     (escrever_fala (caminho_fala_cron base_path) (seg_start seg) texto_traduzido
                        (escrever_srt (caminho_srt base_path) segment_id (seg_start seg) (seg_end seg)
                           texto_traduzido fs1),
                      fila @ [Progresso (int_truediv (int segment_id) (int total_segments))],
                      segment_id + 1))
         else
           laco_segmentos ingles trad base_path total_segments resto
             (escrever_fala (caminho_fala_cron base_path) (seg_start seg) txt
                (escrever_srt (caminho_srt base_path) segment_id (seg_start seg) (seg_end seg) txt fs),
              fila @ [Progresso (int_truediv (int segment_id) (int total_segments))],
              segment_id + 1))"

text \<open>
  \<open>transcrever_audio_faster_whisper\<close>: the files and the queue as the function leaves
  them, and the exception it raises, if any (its \<open>except\<close> clause logs and raises
  again). The files of the source language exist only when the detected language is
  \<open>en\<close>.
\<close>

definition transcrever_audio_faster_whisper ::
  "ambiente_transcricao \<Rightarrow> pystr \<Rightarrow> arquivos \<Rightarrow> (arquivos \<times> mensagem list) \<times> excecao option" where
  "transcrever_audio_faster_whisper amb caminho_audio fs =
     (case carregar_whisper amb of
        Some e \<Rightarrow> ((fs, []), Some e)
      | None \<Rightarrow>
     (case transcribe amb of
        Inl e \<Rightarrow> ((fs, []), Some e)
      | Inr (detected_language, segmentos, falha) \<Rightarrow>
          let base_path = rsplit_ponto caminho_audio;
              ingles = (detected_language = lit ''en'');
              fs1 = (if ingles then
                       abrir_w (caminho_fala_cron base_path) (abrir_w (caminho_srt base_path)
                         (abrir_w (caminho_fala_cron_en base_path) (abrir_w (caminho_srt_en base_path) fs)))
                     else abrir_w (caminho_fala_cron base_path) (abrir_w (caminho_srt base_path) fs))
          in if ingles \<and> carregar_tradutor amb \<noteq> None then ((fs1, []), carregar_tradutor amb)
             else
               (case falha of
                  Some e \<Rightarrow> ((fs1, []), Some e)
                | None \<Rightarrow>
                    (case laco_segmentos ingles (traduzir amb) base_path (length segmentos) segmentos
                            (fs1, [], 1) of
                       ((fs2, fila, n), r) \<Rightarrow> ((fs2, fila), r)))))"

definition transcricao_concluida :: pystr where
  "transcricao_concluida =
     lit ''Transcri'' @ [231, 227] @ lit ''o de '' @ [225] @ lit ''udio conclu'' @ [237] @ lit ''da!''"

definition erro_na_transcricao :: pystr where
  "erro_na_transcricao = lit ''Erro na transcri'' @ [231, 227] @ lit ''o: ''"

text \<open>
  \<open>processar_transcricao\<close>: the status on success, the error text on any
  \<open>Exception\<close>. The last component is the exception that leaves the worker.
\<close>

definition processar_transcricao ::
  "ambiente_transcricao \<Rightarrow> pystr \<Rightarrow> arquivos \<Rightarrow> (arquivos \<times> mensagem list) \<times> excecao option" where
  "processar_transcricao amb caminho_video fs =
     (case transcrever_audio_faster_whisper amb caminho_video fs of
        ((fs', fila), None) \<Rightarrow> ((fs', fila @ [Texto transcricao_concluida]), None)
      | ((fs', fila), Some e) \<Rightarrow>
          ((fs', fila @ [Texto (erro_na_transcricao @ str_excecao e)]), None))"

section \<open>Pipeline Coordinator: \<open>process_files\<close> (pica.video.09.py)\<close>







text \<open>
  Everything the processes share: one file system (the content of a file is its text, or
  its bytes for an image) and the three queues given to \<open>process_files\<close>, which serve
  every file of the run.
\<close>

record mundo =
  sistema :: arquivos
  fila_progresso_transcricao :: "mensagem list"
  fila_progresso_frames :: "mensagem list"
  fila_progresso_arquivo :: "pystr list"

text \<open>
  What one file of \<open>encontrar_arquivos_mascara\<close> brings: its path, the behaviour of the
  models and of the decoder on it, and the images the decoder writes.
  \<open>pasta_saida_frames\<close> is the directory
  \<open>os.path.join(pasta, os.path.splitext(os.path.basename(caminho))[0])\<close> computed for
  the file, \<open>nome_base_frames\<close> the base name \<open>processar_frames\<close> computes.
\<close>

record entrada =
  caminho_arquivo :: pystr
  ambiente :: ambiente_transcricao
  processo_ffmpeg :: resultado_ffmpeg
  quadros :: "pystr list"
  pasta_saida_frames :: pystr
  nome_base_frames :: pystr

record argumentos =
  skip_prontos :: bool
  skip_transcricao :: bool
  desativar_frames :: bool

text \<open>
  The decoder is started with the pattern \<open>frame_%06d.png\<close> in \<open>pasta_saida\<close>: it
  writes its images under the numbered names, from 1 on, and no other file. A decoder
  that could not be started writes nothing.
\<close>

definition gravar_quadros :: "plataforma \<Rightarrow> pystr \<Rightarrow> pystr list \<Rightarrow> arquivos \<Rightarrow> arquivos" where
  "gravar_quadros pl pasta imagens fs =
     foldl (\<lambda>fs' (i, imagem). fs'(nome_original pl pasta i \<mapsto> imagem)) fs (enumerate 0 imagens)"

definition apos_ffmpeg ::
  "plataforma \<Rightarrow> resultado_ffmpeg \<Rightarrow> pystr \<Rightarrow> pystr list \<Rightarrow> arquivos \<Rightarrow> arquivos" where
  "apos_ffmpeg pl processo pasta imagens fs =
     (case processo of
        FalhaAoIniciar e \<Rightarrow> fs
      | _ \<Rightarrow> gravar_quadros pl pasta imagens fs)"

text \<open>
  The body of the loop of \<open>process_files\<close> for one file. The path is put on the file
  queue; a file that is ready is skipped; otherwise each worker that applies is started
  as a process of its own, with the queue of its kind, and the coordinator waits until
  neither is alive. An exception that leaves a worker ends that process only and is not
  seen by the coordinator. The two workers write to disjoint sets of paths (transcripts
  end in \<open>.srt\<close> or \<open>.txt\<close>, frames in \<open>.png\<close>); the model lets the writes of the
  transcription worker reach the file system first. \<open>None\<close> is a coordinator that
  never leaves the waiting loop, because a worker never ends. Directories are not
  modelled: \<open>os.makedirs\<close> is taken to succeed.
\<close>

definition apos_transcricao :: "argumentos \<Rightarrow> entrada \<Rightarrow> mundo \<Rightarrow> mundo" where
  "apos_transcricao args ent w =
     (if \<not> skip_transcricao args then
        (case processar_transcricao (ambiente ent) (caminho_arquivo ent) (sistema w) of
           ((fs', fila), e) \<Rightarrow>
             w\<lparr>sistema := fs', fila_progresso_transcricao := fila_progresso_transcricao w @ fila\<rparr>)
      else w)"

definition apos_frames :: "plataforma \<Rightarrow> argumentos \<Rightarrow> entrada \<Rightarrow> mundo \<Rightarrow> mundo option" where
  "apos_frames pl args ent w =
     (if \<not> desativar_frames args \<and> py_endswith (caminho_arquivo ent) (lit ''.mp4'') then
        (case processar_frames pl (processo_ffmpeg ent)
                (apos_ffmpeg pl (processo_ffmpeg ent) (pasta_saida_frames ent) (quadros ent) (sistema w))
                (pasta_saida_frames ent) (nome_base_frames ent) of
           None \<Rightarrow> None
         | Some ((fs', fila), e) \<Rightarrow>
             Some (w\<lparr>sistema := fs', fila_progresso_frames := fila_progresso_frames w @ fila\<rparr>))
      else Some w)"



section \<open>The output formats, as the specification words them\<close>

text \<open>
  A subtitle block is the id, a newline, \<open>start --> end\<close>, a newline, the text and two
  newlines; a transcript line is the start, a colon and a space, the text and a newline.
  \<open>conteudo_srt n pares\<close> is the sequence of blocks, with ids from \<open>n\<close> on, for
  segments paired with the text to show; \<open>conteudo_fala\<close> is the sequence of
  transcript lines.
\<close>

definition bloco_legenda :: "nat \<Rightarrow> segmento \<Rightarrow> pystr \<Rightarrow> pystr" where
  "bloco_legenda segment_id seg txt =
     str_nat segment_id @ [10] @ formatar_timestamp (seg_start seg) @ lit '' --> ''
       @ formatar_timestamp (seg_end seg) @ [10] @ txt @ [10, 10]"

definition linha_fala :: "segmento \<Rightarrow> pystr \<Rightarrow> pystr" where
  "linha_fala seg txt = formatar_timestamp (seg_start seg) @ lit '': '' @ txt @ [10]"

definition conteudo_srt :: "nat \<Rightarrow> (segmento \<times> pystr) list \<Rightarrow> pystr" where
  "conteudo_srt n pares = concat (map (\<lambda>(i, seg, txt). bloco_legenda i seg txt) (enumerate n pares))"

definition conteudo_fala :: "(segmento \<times> pystr) list \<Rightarrow> pystr" where
  "conteudo_fala pares = concat (map (\<lambda>(seg, txt). linha_fala seg txt) pares)"

definition progressos :: "nat \<Rightarrow> nat \<Rightarrow> nat \<Rightarrow> mensagem list" where
  "progressos n k total_segments =
     map (\<lambda>i. Progresso (int_truediv (int i) (int total_segments))) [n..<n + k]"

section \<open>Properties of the Frame Renamer\<close>

subsection \<open>File names\<close>

lemma valor_decimal_snoc: "valor_decimal (s @ [c]) = 10 * valor_decimal s + (c - 48)"
  by (simp add: valor_decimal_def)

lemma valor_decimal_str_nat: "valor_decimal (str_nat n) = n"
proof (induction n rule: str_nat.induct)
  case (1 n)
  show ?case
  proof (cases "n < 10")
    case True
    then show ?thesis by (subst str_nat.simps) (simp add: valor_decimal_def)
  next
    case False
    with 1 show ?thesis
      by (subst str_nat.simps) (simp add: valor_decimal_snoc)
  qed
qed

lemma valor_decimal_zeros: "valor_decimal (replicate k 48 @ s) = valor_decimal s"
  by (induction k) (simp_all add: valor_decimal_def)

lemma set_str_nat: "set (str_nat n) \<subseteq> {48..57}"
proof (induction n rule: str_nat.induct)
  case (1 n)
  show ?case
  proof (cases "n < 10")
    case True
    then show ?thesis by (subst str_nat.simps) auto
  next
    case False
    have "n mod 10 < 10" by simp
    then have "48 + n mod 10 \<in> {48..57}" by auto
    with 1 False show ?thesis
      by (subst str_nat.simps) auto
  qed
qed

lemma set_fmt_0d_nat: "0 \<le> x \<Longrightarrow> set (fmt_0d w x) \<subseteq> {48..57}"
  using set_str_nat by (auto simp: fmt_0d_def zeros_esquerda_def)

lemma valor_fmt_0d: "0 \<le> x \<Longrightarrow> valor_decimal (fmt_0d w x) = nat x"
  by (simp add: fmt_0d_def zeros_esquerda_def valor_decimal_zeros valor_decimal_str_nat)

lemma fmt_0d_inj: "0 \<le> x \<Longrightarrow> 0 \<le> y \<Longrightarrow> fmt_0d w x = fmt_0d w y \<Longrightarrow> x = y"
  using valor_fmt_0d [of x w] valor_fmt_0d [of y w] by simp

lemma os_path_join_inj: "os_path_join pl a b = os_path_join pl a c \<longleftrightarrow> b = c"
  by (cases pl) (auto simp: os_path_join_def)

lemma original_neq_novo: "nome_original pl pasta i \<noteq> nome_novo pl pasta base t"
proof -
  obtain m s ms where t: "t = (m, s, ms)" by (cases t)
  have "45 \<notin> set (fmt_0d 6 (int i + 1))"
    using set_fmt_0d_nat [of "int i + 1" 6] by auto
  then have "45 \<notin> set (fmt_0d 6 (int i + 1) @ lit ''.png'')" by simp
  moreover have "45 \<in> set (base @ lit ''_'' @ fmt_0d 2 m @ lit ''-'' @ fmt_0d 2 s @ lit ''-'' @ fmt_0d 3 ms @ lit ''.png'')"
    by simp
  ultimately have "fmt_0d 6 (int i + 1) @ lit ''.png'' \<noteq> base @ lit ''_'' @ fmt_0d 2 m @ lit ''-'' @ fmt_0d 2 s @ lit ''-'' @ fmt_0d 3 ms @ lit ''.png''"
    by metis
  then show ?thesis
    by (simp add: nome_original_def nome_novo_def t os_path_join_inj)
qed

lemma nome_original_inj: "nome_original pl pasta i = nome_original pl pasta j \<longleftrightarrow> i = j"
proof
  assume "nome_original pl pasta i = nome_original pl pasta j"
  then have "fmt_0d 6 (int i + 1) = fmt_0d 6 (int j + 1)"
    by (simp add: nome_original_def os_path_join_inj)
  then have "int i + 1 = int j + 1" by (rule fmt_0d_inj [rotated 2]) simp_all
  then show "i = j" by simp
qed simp

lemma split_no_hifen:
  "45 \<notin> set a \<Longrightarrow> 45 \<notin> set a' \<Longrightarrow> a @ 45 # r = a' @ 45 # r' \<Longrightarrow> a = a' \<and> r = r'"
proof (induction a arbitrary: a')
  case Nil
  then show ?case by (cases a') auto
next
  case (Cons x a)
  then show ?case by (cases a') auto
qed

lemma nome_novo_inj:
  assumes "0 \<le> m" "0 \<le> s" "0 \<le> ms" "0 \<le> m'" "0 \<le> s'" "0 \<le> ms'"
    and eq: "nome_novo pl pasta base (m, s, ms) = nome_novo pl pasta base (m', s', ms')"
  shows "(m, s, ms) = (m', s', ms')"
proof -
  have h: "\<And>w x. 0 \<le> x \<Longrightarrow> 45 \<notin> set (fmt_0d w x)"
    using set_fmt_0d_nat by fastforce
  from eq have e1: "fmt_0d 2 m @ 45 # (fmt_0d 2 s @ 45 # (fmt_0d 3 ms @ lit ''.png''))
      = fmt_0d 2 m' @ 45 # (fmt_0d 2 s' @ 45 # (fmt_0d 3 ms' @ lit ''.png''))"
    by (simp add: nome_novo_def os_path_join_inj)
  from split_no_hifen [OF h h e1] assms
  have m: "fmt_0d 2 m = fmt_0d 2 m'"
    and e2: "fmt_0d 2 s @ 45 # (fmt_0d 3 ms @ lit ''.png'') = fmt_0d 2 s' @ 45 # (fmt_0d 3 ms' @ lit ''.png'')"
    by auto
  from split_no_hifen [OF h h e2] assms
  have s: "fmt_0d 2 s = fmt_0d 2 s'" and ms: "fmt_0d 3 ms = fmt_0d 3 ms'"
    by auto
  from m s ms assms show ?thesis by (auto dest: fmt_0d_inj)
qed

subsection \<open>The renaming loop\<close>

lemma os_rename_Inr:
  "os_rename pl src dst fs = Inr fs' \<Longrightarrow> src \<noteq> dst \<Longrightarrow>
     \<exists>c. fs src = Some c \<and> fs' = fs(src := None, dst \<mapsto> c)"
  by (auto simp: os_rename_def split: option.splits if_splits)


lemma laco_passo_presente:
  assumes "fs (nome_original pl p i) \<noteq> None"
    and "renomear_laco pl p b ((i, t) # xs) (fs, av) = Inr r"
  shows "\<exists>c. fs (nome_original pl p i) = Some c \<and>
     renomear_laco pl p b xs (fs(nome_original pl p i := None, nome_novo pl p b t \<mapsto> c), av) = Inr r"
proof -
  from assms obtain fs1 where r: "os_rename pl (nome_original pl p i) (nome_novo pl p b t) fs = Inr fs1"
    and l: "renomear_laco pl p b xs (fs1, av) = Inr r"
    by (auto simp: os_path_exists_def split: sum.splits)
  from os_rename_Inr [OF r original_neq_novo] l show ?thesis by auto
qed

lemma laco_passo_ausente:
  assumes "fs (nome_original pl p i) = None"
  shows "renomear_laco pl p b ((i, t) # xs) (fs, av) =
     renomear_laco pl p b xs (fs, av @ [aviso_nao_encontrado (nome_original pl p i)])"
  using assms by (simp add: os_path_exists_def)

declare renomear_laco.simps(2) [simp del]

lemma laco_preserva_ausente:
  "renomear_laco pl p b xs (fs, av) = Inr (fs', av') \<Longrightarrow> fs (nome_original pl p j) = None
     \<Longrightarrow> fs' (nome_original pl p j) = None"
proof (induction xs arbitrary: fs av)
  case Nil
  then show ?case by simp
next
  case (Cons x xs)
  obtain i t where x: "x = (i, t)" by (cases x)
  show ?case
  proof (cases "fs (nome_original pl p i) = None")
    case True
    with Cons.prems x have "renomear_laco pl p b xs (fs, av @ [aviso_nao_encontrado (nome_original pl p i)]) = Inr (fs', av')"
      by (simp add: laco_passo_ausente)
    from Cons.IH [OF this Cons.prems(2)] show ?thesis .
  next
    case False
    from laco_passo_presente [of fs pl p i b t xs av "(fs', av')"] False Cons.prems(1) x
    obtain c where l: "renomear_laco pl p b xs (fs(nome_original pl p i := None, nome_novo pl p b t \<mapsto> c), av) = Inr (fs', av')"
      by auto
    have "(fs(nome_original pl p i := None, nome_novo pl p b t \<mapsto> c)) (nome_original pl p j) = None"
      using Cons.prems(2) original_neq_novo [of pl p j b t] by auto
    from Cons.IH [OF l this] show ?thesis .
  qed
qed

lemma laco_origens_somem:
  "renomear_laco pl p b xs (fs, av) = Inr (fs', av') \<Longrightarrow> (i, t) \<in> set xs
     \<Longrightarrow> fs' (nome_original pl p i) = None"
proof (induction xs arbitrary: fs av)
  case Nil
  then show ?case by simp
next
  case (Cons x xs)
  obtain j t' where x: "x = (j, t')" by (cases x)
  show ?case
  proof (cases "fs (nome_original pl p j) = None")
    case True
    with Cons.prems x have l: "renomear_laco pl p b xs (fs, av @ [aviso_nao_encontrado (nome_original pl p j)]) = Inr (fs', av')"
      by (simp add: laco_passo_ausente)
    show ?thesis
    proof (cases "(i, t) \<in> set xs")
      case True
      from Cons.IH [OF l True] show ?thesis .
    next
      case False
      with Cons.prems x have "i = j" by auto
      with laco_preserva_ausente [OF l] True show ?thesis by simp
    qed
  next
    case False
    from laco_passo_presente [of fs pl p j b t' xs av "(fs', av')"] False Cons.prems(1) x
    obtain c where l: "renomear_laco pl p b xs (fs(nome_original pl p j := None, nome_novo pl p b t' \<mapsto> c), av) = Inr (fs', av')"
      by auto
    show ?thesis
    proof (cases "(i, t) \<in> set xs")
      case True
      from Cons.IH [OF l True] show ?thesis .
    next
      case False
      with Cons.prems x have ij: "i = j" by auto
      have "(fs(nome_original pl p j := None, nome_novo pl p b t' \<mapsto> c)) (nome_original pl p j) = None"
        using original_neq_novo [of pl p j b t'] by auto
      from laco_preserva_ausente [OF l this] ij show ?thesis by simp
    qed
  qed
qed

lemma laco_sem_originais:
  "\<forall>(i, t) \<in> set xs. fs (nome_original pl p i) = None \<Longrightarrow>
   renomear_laco pl p b xs (fs, av) =
     Inr (fs, av @ map (\<lambda>(i, t). aviso_nao_encontrado (nome_original pl p i)) xs)"
  by (induction xs arbitrary: av) (auto simp: laco_passo_ausente)



lemma laco_intocado:
  "renomear_laco pl p b xs (fs, av) = Inr (fs', av')
     \<Longrightarrow> \<forall>(i, t) \<in> set xs. q \<noteq> nome_original pl p i \<and> q \<noteq> nome_novo pl p b t \<Longrightarrow> fs' q = fs q"
proof (induction xs arbitrary: fs av)
  case Nil
  then show ?case by simp
next
  case (Cons x xs)
  obtain i t where x: "x = (i, t)" by (cases x)
  from Cons.prems(2) have rest: "\<forall>(i, t) \<in> set xs. q \<noteq> nome_original pl p i \<and> q \<noteq> nome_novo pl p b t" by simp
  show ?case
  proof (cases "fs (nome_original pl p i) = None")
    case True
    with Cons.prems x have "renomear_laco pl p b xs (fs, av @ [aviso_nao_encontrado (nome_original pl p i)]) = Inr (fs', av')"
      by (simp add: laco_passo_ausente)
    from Cons.IH [OF this rest] show ?thesis .
  next
    case False
    from laco_passo_presente [of fs pl p i b t xs av "(fs', av')"] False Cons.prems(1) x
    obtain c where l: "renomear_laco pl p b xs (fs(nome_original pl p i := None, nome_novo pl p b t \<mapsto> c), av) = Inr (fs', av')"
      by auto
    from Cons.IH [OF l rest] Cons.prems(2) x show ?thesis by auto
  qed
qed




lemma laco_conteudo:
  "renomear_laco pl p b xs (fs, av) = Inr (fs', av') \<Longrightarrow> distinct (map fst xs) \<Longrightarrow>
   distinct (map (\<lambda>(i, t). nome_novo pl p b t) xs) \<Longrightarrow>
   (i, t) \<in> set xs \<Longrightarrow> fs (nome_original pl p i) = Some c \<Longrightarrow> fs' (nome_novo pl p b t) = Some c"
proof (induction xs arbitrary: fs av)
  case Nil
  then show ?case by simp
next
  case (Cons x xs)
  obtain j t' where x: "x = (j, t')" by (cases x)
  from Cons.prems(2) x have d: "distinct (map fst xs)" and ni: "\<forall>(k, u) \<in> set xs. k \<noteq> j"
    by (auto simp: image_iff)
  from Cons.prems(3) x have dn: "distinct (map (\<lambda>(i, t). nome_novo pl p b t) xs)"
    and nn: "\<forall>(k, u) \<in> set xs. nome_novo pl p b u \<noteq> nome_novo pl p b t'"
    by (force simp: image_iff)+
  show ?case
  proof (cases "(i, t) \<in> set xs")
    case True
    with ni have ij: "i \<noteq> j" by auto
    show ?thesis
    proof (cases "fs (nome_original pl p j) = None")
      case jn: True
      from Cons.prems(1) x jn
      have "renomear_laco pl p b xs (fs, av @ [aviso_nao_encontrado (nome_original pl p j)]) = Inr (fs', av')"
        by (simp add: laco_passo_ausente)
      from this d dn True Cons.prems(5) show ?thesis by (rule Cons.IH)
    next
      case False
      from laco_passo_presente [of fs pl p j b t' xs av "(fs', av')"] False Cons.prems(1) x
      obtain c' where l: "renomear_laco pl p b xs (fs(nome_original pl p j := None, nome_novo pl p b t' \<mapsto> c'), av) = Inr (fs', av')"
        by auto
      have "(fs(nome_original pl p j := None, nome_novo pl p b t' \<mapsto> c')) (nome_original pl p i) = Some c"
        using Cons.prems(5) ij original_neq_novo [of pl p i b t'] by (auto simp: nome_original_inj)
      from Cons.IH [OF l d dn True this] show ?thesis .
    qed
  next
    case False
    with Cons.prems(4) x have ij: "i = j" "t = t'" by auto
    from laco_passo_presente [of fs pl p j b t' xs av "(fs', av')"] Cons.prems(1,5) x ij
    have l: "renomear_laco pl p b xs (fs(nome_original pl p j := None, nome_novo pl p b t' \<mapsto> c), av) = Inr (fs', av')"
      by auto
    have "\<forall>(k, u) \<in> set xs. nome_novo pl p b t' \<noteq> nome_original pl p k \<and> nome_novo pl p b t' \<noteq> nome_novo pl p b u"
      using nn original_neq_novo [of pl p _ b t'] by (auto simp: eq_commute [of "nome_novo pl p b t'"])
    from laco_intocado [OF l this] ij show ?thesis by simp
  qed
qed

lemma map_enumerate_fst:
  "map (\<lambda>(i, t). f i) (enumerate n xs) = map f [n..<n + length xs]"
proof -
  have e: "(\<lambda>(i, t). f i) = f \<circ> fst" by auto
  show ?thesis by (simp only: e map_map [symmetric] map_fst_enumerate)
qed


subsection \<open>Re-running the renamer\<close>

text \<open>
  Claim C6. Frame renaming is idempotent: when a run of \<open>renomear_frames\<close> has
  succeeded, a second run with the same timestamp list on the resulting directory raises
  no error and leaves every file as it is (the directory it returns is the one it was
  given); it only logs one warning per index, since no sequentially numbered frame file
  is left.
\<close>

theorem renomear_frames_idempotente:
  assumes "renomear_frames pl tempos_frames pasta_saida nome_base fs = Inr (fs', avisos)"
  shows "renomear_frames pl tempos_frames pasta_saida nome_base fs' =
     Inr (fs', map (\<lambda>i. aviso_nao_encontrado (nome_original pl pasta_saida i))
                 [0..<length tempos_frames])"
proof -
  from assms have l: "renomear_laco pl pasta_saida nome_base (enumerate 0 tempos_frames) (fs, []) = Inr (fs', avisos)"
    by (simp add: renomear_frames_def)
  have "\<forall>(i, t) \<in> set (enumerate 0 tempos_frames). fs' (nome_original pl pasta_saida i) = None"
    using laco_origens_somem [OF l] by auto
  from laco_sem_originais [OF this, of nome_base "[]"] show ?thesis
    by (simp add: renomear_frames_def map_enumerate_fst)
qed

text \<open>A concrete run on two frames, evaluated step by step.\<close>

lemma ex_orig0: "nome_original Posix (lit ''out'') 0 = lit ''out/frame_000001.png''"
  by code_simp
lemma ex_orig1: "nome_original Posix (lit ''out'') 1 = lit ''out/frame_000002.png''"
  by code_simp
lemma ex_orig1': "nome_original Posix (lit ''out'') (Suc 0) = lit ''out/frame_000002.png''"
  by code_simp
lemma ex_novo0: "nome_novo Posix (lit ''out'') (lit ''v'') (0, 0, 0) = lit ''out/frame_v_00-00-000.png''"
  by code_simp
lemma ex_novo250: "nome_novo Posix (lit ''out'') (lit ''v'') (0, 0, 250) = lit ''out/frame_v_00-00-250.png''"
  by code_simp

lemma exemplo_dois_frames:
  "renomear_frames Posix [(0, 0, 0), (0, 0, 250)] (lit ''out'') (lit ''v'')
      [lit ''out/frame_000001.png'' \<mapsto> (1::nat), lit ''out/frame_000002.png'' \<mapsto> 2]
   = Inr ([lit ''out/frame_v_00-00-000.png'' \<mapsto> 1, lit ''out/frame_v_00-00-250.png'' \<mapsto> 2], [])"
proof -
  have "[lit ''out/frame_000001.png'' \<mapsto> (1::nat), lit ''out/frame_000002.png'' \<mapsto> 2]
      (lit ''out/frame_000001.png'' := None, lit ''out/frame_v_00-00-000.png'' \<mapsto> 1,
       lit ''out/frame_000002.png'' := None, lit ''out/frame_v_00-00-250.png'' \<mapsto> 2)
    = [lit ''out/frame_v_00-00-000.png'' \<mapsto> 1, lit ''out/frame_v_00-00-250.png'' \<mapsto> 2]"
    by (rule ext) simp
  then show ?thesis
    unfolding renomear_frames_def enumerate_simps renomear_laco.simps os_path_exists_def
      ex_orig0 ex_orig1' ex_novo0 ex_novo250 os_rename_def
    by simp
qed

lemma ex_aviso0: "aviso_nao_encontrado (lit ''out/frame_000001.png'')
   = lit ''Arquivo out/frame_000001.png n'' @ [227] @ lit ''o encontrado. Pulando...''"
  by code_simp
lemma ex_aviso1: "aviso_nao_encontrado (lit ''out/frame_000002.png'')
   = lit ''Arquivo out/frame_000002.png n'' @ [227] @ lit ''o encontrado. Pulando...''"
  by code_simp

text \<open>
  The idempotence theorem at the two-frame run: the first run renames both files, the
  second run on its result changes nothing and logs two warnings.
\<close>

theorem renomear_frames_idempotente_witness:
  "renomear_frames Posix [(0, 0, 0), (0, 0, 250)] (lit ''out'') (lit ''v'')
      [lit ''out/frame_000001.png'' \<mapsto> (1::nat), lit ''out/frame_000002.png'' \<mapsto> 2]
   = Inr ([lit ''out/frame_v_00-00-000.png'' \<mapsto> 1, lit ''out/frame_v_00-00-250.png'' \<mapsto> 2], [])
   \<and> renomear_frames Posix [(0, 0, 0), (0, 0, 250)] (lit ''out'') (lit ''v'')
      [lit ''out/frame_v_00-00-000.png'' \<mapsto> (1::nat), lit ''out/frame_v_00-00-250.png'' \<mapsto> 2]
   = Inr ([lit ''out/frame_v_00-00-000.png'' \<mapsto> 1, lit ''out/frame_v_00-00-250.png'' \<mapsto> 2],
          [lit ''Arquivo out/frame_000001.png n'' @ [227] @ lit ''o encontrado. Pulando...'',
           lit ''Arquivo out/frame_000002.png n'' @ [227] @ lit ''o encontrado. Pulando...''])"
proof -
  have u: "[0..<length [(0::int, 0::int, 0::int), (0, 0, 250)]] = [0, Suc 0]"
    by (simp add: upt_rec)
  from renomear_frames_idempotente [OF exemplo_dois_frames] exemplo_dois_frames
  show ?thesis
    unfolding u list.map ex_orig0 ex_orig1' ex_aviso0 ex_aviso1 by simp
qed

subsection \<open>Is the assignment of names one-to-one?\<close>

text \<open>
  The new name depends on the timestamp tuple only. Two frames with the same tuple get
  the same new name: on POSIX the second rename replaces the first frame, which is lost;
  on Windows the second rename raises \<open>FileExistsError\<close> and the batch stops. So the
  statement of claim C5, which includes equal consecutive timestamps, fails at the list
  \<open>[(0,0,0), (0,0,0)]\<close> with both numbered files present.
\<close>

theorem renomear_frames_colisao:
  "nome_novo Posix (lit ''out'') (lit ''v'') ([(0, 0, 0), (0, 0, 0)] ! 0)
     = nome_novo Posix (lit ''out'') (lit ''v'') ([(0, 0, 0), (0, 0, 0)] ! 1)
   \<and> renomear_frames Posix [(0, 0, 0), (0, 0, 0)] (lit ''out'') (lit ''v'')
      [lit ''out/frame_000001.png'' \<mapsto> (1::nat), lit ''out/frame_000002.png'' \<mapsto> 2]
     = Inr ([lit ''out/frame_v_00-00-000.png'' \<mapsto> 2], [])
   \<and> renomear_frames Windows [(0, 0, 0), (0, 0, 0)] (lit ''out/'') (lit ''v'')
      [lit ''out/frame_000001.png'' \<mapsto> (1::nat), lit ''out/frame_000002.png'' \<mapsto> 2]
     = Inl (Excecao FileExistsError (lit ''out/frame_v_00-00-000.png''))"
proof -
  have w0: "nome_original Windows (lit ''out/'') 0 = lit ''out/frame_000001.png''" by code_simp
  have w1: "nome_original Windows (lit ''out/'') (Suc 0) = lit ''out/frame_000002.png''" by code_simp
  have wn: "nome_novo Windows (lit ''out/'') (lit ''v'') (0, 0, 0) = lit ''out/frame_v_00-00-000.png''" by code_simp
  have m: "[lit ''out/frame_000001.png'' \<mapsto> (1::nat), lit ''out/frame_000002.png'' \<mapsto> 2]
      (lit ''out/frame_000001.png'' := None, lit ''out/frame_v_00-00-000.png'' \<mapsto> 1,
       lit ''out/frame_000002.png'' := None, lit ''out/frame_v_00-00-000.png'' \<mapsto> 2)
    = [lit ''out/frame_v_00-00-000.png'' \<mapsto> 2]"
    by (rule ext) simp
  have p: "renomear_frames Posix [(0, 0, 0), (0, 0, 0)] (lit ''out'') (lit ''v'')
      [lit ''out/frame_000001.png'' \<mapsto> (1::nat), lit ''out/frame_000002.png'' \<mapsto> 2]
     = Inr ([lit ''out/frame_v_00-00-000.png'' \<mapsto> 2], [])"
    using m unfolding renomear_frames_def enumerate_simps renomear_laco.simps os_path_exists_def
      ex_orig0 ex_orig1' ex_novo0 os_rename_def
    by simp
  have w: "renomear_frames Windows [(0, 0, 0), (0, 0, 0)] (lit ''out/'') (lit ''v'')
      [lit ''out/frame_000001.png'' \<mapsto> (1::nat), lit ''out/frame_000002.png'' \<mapsto> 2]
     = Inl (Excecao FileExistsError (lit ''out/frame_v_00-00-000.png''))"
    unfolding renomear_frames_def enumerate_simps renomear_laco.simps os_path_exists_def
      w0 w1 wn os_rename_def
    by simp
  from p w show ?thesis by simp
qed

lemma distinct_enumerate_fst: "distinct (map fst (enumerate n xs))"
  by simp

lemma map_enumerate_snd: "map (\<lambda>(i, t). g t) (enumerate n xs) = map g xs"
proof -
  have e: "(\<lambda>(i, t). g t) = g \<circ> snd" by auto
  show ?thesis by (simp only: e map_map [symmetric] map_snd_enumerate)
qed

text \<open>
  Claim C5, amended. When the timestamp tuples are pairwise distinct (and their
  components are not negative, as the Timestamp Reconstructor produces them), distinct
  indices get distinct new names, and after a successful run the content of every
  numbered frame file that existed is found under the new name of its own index.
\<close>

theorem renomear_frames_um_para_um:
  assumes nn: "\<forall>(m, s, ms) \<in> set tempos_frames. 0 \<le> m \<and> 0 \<le> s \<and> 0 \<le> ms"
    and d: "distinct tempos_frames"
  shows "inj_on (\<lambda>i. nome_novo pl pasta_saida nome_base (tempos_frames ! i)) {..<length tempos_frames}
     \<and> (\<forall>fs' avisos. renomear_frames pl tempos_frames pasta_saida nome_base fs = Inr (fs', avisos) \<longrightarrow>
          (\<forall>i<length tempos_frames. \<forall>c. fs (nome_original pl pasta_saida i) = Some c \<longrightarrow>
              fs' (nome_novo pl pasta_saida nome_base (tempos_frames ! i)) = Some c))"
proof -
  have inj: "inj_on (nome_novo pl pasta_saida nome_base) (set tempos_frames)"
  proof (rule inj_onI)
    fix t t'
    assume t: "t \<in> set tempos_frames" and t': "t' \<in> set tempos_frames"
      and e: "nome_novo pl pasta_saida nome_base t = nome_novo pl pasta_saida nome_base t'"
    obtain m s ms where 1: "t = (m, s, ms)" by (cases t)
    obtain m' s' ms' where 2: "t' = (m', s', ms')" by (cases t')
    from nn t t' 1 2 have "0 \<le> m" "0 \<le> s" "0 \<le> ms" "0 \<le> m'" "0 \<le> s'" "0 \<le> ms'"
      by auto
    from nome_novo_inj [OF this e [unfolded 1 2]] 1 2 show "t = t'" by simp
  qed
  have a: "inj_on (\<lambda>i. nome_novo pl pasta_saida nome_base (tempos_frames ! i)) {..<length tempos_frames}"
  proof (rule inj_onI)
    fix i j
    assume i: "i \<in> {..<length tempos_frames}" and j: "j \<in> {..<length tempos_frames}"
      and e: "nome_novo pl pasta_saida nome_base (tempos_frames ! i) = nome_novo pl pasta_saida nome_base (tempos_frames ! j)"
    from i j have "tempos_frames ! i \<in> set tempos_frames" "tempos_frames ! j \<in> set tempos_frames"
      by simp_all
    with inj e have "tempos_frames ! i = tempos_frames ! j" by (auto dest: inj_onD)
    with d i j show "i = j" by (simp add: nth_eq_iff_index_eq)
  qed
  have dn: "distinct (map (\<lambda>(i, t). nome_novo pl pasta_saida nome_base t) (enumerate 0 tempos_frames))"
    using d inj by (simp add: map_enumerate_snd distinct_map)
  have b: "fs' (nome_novo pl pasta_saida nome_base (tempos_frames ! i)) = Some c"
    if r: "renomear_frames pl tempos_frames pasta_saida nome_base fs = Inr (fs', avisos)"
      and i: "i < length tempos_frames" and c: "fs (nome_original pl pasta_saida i) = Some c"
    for fs' avisos i c
  proof -
    from r have l: "renomear_laco pl pasta_saida nome_base (enumerate 0 tempos_frames) (fs, []) = Inr (fs', avisos)"
      by (simp add: renomear_frames_def)
    from i have m: "(i, tempos_frames ! i) \<in> set (enumerate 0 tempos_frames)"
      by (simp add: in_set_enumerate_eq)
    from laco_conteudo [OF l distinct_enumerate_fst dn m c] show ?thesis .
  qed
  from a b show ?thesis by blast
qed

text \<open>The amended statement of C5 at the two-frame run.\<close>

theorem renomear_frames_um_para_um_witness:
  "list_all (\<lambda>(m, s, ms). (0::int) \<le> m \<and> (0::int) \<le> s \<and> (0::int) \<le> ms) [(0, 0, 0), (0, 0, 250)]
   \<and> distinct [(0::int, 0::int, 0::int), (0, 0, 250)]
   \<and> renomear_frames Posix [(0, 0, 0), (0, 0, 250)] (lit ''out'') (lit ''v'')
        [lit ''out/frame_000001.png'' \<mapsto> (1::nat), lit ''out/frame_000002.png'' \<mapsto> 2]
      = Inr ([lit ''out/frame_v_00-00-000.png'' \<mapsto> 1, lit ''out/frame_v_00-00-250.png'' \<mapsto> 2], [])
   \<and> [lit ''out/frame_000001.png'' \<mapsto> (1::nat), lit ''out/frame_000002.png'' \<mapsto> 2]
        (nome_original Posix (lit ''out'') 1) = Some 2
   \<and> [lit ''out/frame_v_00-00-000.png'' \<mapsto> (1::nat), lit ''out/frame_v_00-00-250.png'' \<mapsto> 2]
        (nome_novo Posix (lit ''out'') (lit ''v'') ([(0, 0, 0), (0, 0, 250)] ! 1)) = Some 2
   \<and> inj_on (\<lambda>i. nome_novo Posix (lit ''out'') (lit ''v'') ([(0, 0, 0), (0, 0, 250)] ! i))
        {..<length [(0::int, 0::int, 0::int), (0, 0, 250)]}"
proof -
  have h1: "\<forall>(m, s, ms) \<in> set [(0, 0, 0), (0, 0, 250)]. (0::int) \<le> m \<and> (0::int) \<le> s \<and> (0::int) \<le> ms"
    by simp
  have h2: "distinct [(0::int, 0::int, 0::int), (0, 0, 250)]" by simp
  have h3: "[lit ''out/frame_000001.png'' \<mapsto> (1::nat), lit ''out/frame_000002.png'' \<mapsto> 2]
        (nome_original Posix (lit ''out'') 1) = Some 2"
    unfolding ex_orig1 by simp
  note t = renomear_frames_um_para_um [OF h1 h2, of Posix "lit ''out''" "lit ''v''"
      "[lit ''out/frame_000001.png'' \<mapsto> (1::nat), lit ''out/frame_000002.png'' \<mapsto> 2]"]
  from t have inj: "inj_on (\<lambda>i. nome_novo Posix (lit ''out'') (lit ''v'') ([(0, 0, 0), (0, 0, 250)] ! i))
        {..<length [(0::int, 0::int, 0::int), (0, 0, 250)]}" by (rule conjunct1)
  from t have "\<forall>fs' avisos. renomear_frames Posix [(0, 0, 0), (0, 0, 250)] (lit ''out'') (lit ''v'')
        [lit ''out/frame_000001.png'' \<mapsto> (1::nat), lit ''out/frame_000002.png'' \<mapsto> 2] = Inr (fs', avisos) \<longrightarrow>
      (\<forall>i<length [(0::int, 0::int, 0::int), (0, 0, 250)]. \<forall>c.
          [lit ''out/frame_000001.png'' \<mapsto> (1::nat), lit ''out/frame_000002.png'' \<mapsto> 2]
            (nome_original Posix (lit ''out'') i) = Some c \<longrightarrow>
          fs' (nome_novo Posix (lit ''out'') (lit ''v'') ([(0, 0, 0), (0, 0, 250)] ! i)) = Some c)"
    by (rule conjunct2)
  moreover have "1 < length [(0::int, 0::int, 0::int), (0, 0, 250)]" by simp
  ultimately
  have c: "[lit ''out/frame_v_00-00-000.png'' \<mapsto> (1::nat), lit ''out/frame_v_00-00-250.png'' \<mapsto> 2]
        (nome_novo Posix (lit ''out'') (lit ''v'') ([(0, 0, 0), (0, 0, 250)] ! 1)) = Some 2"
    using exemplo_dois_frames h3 by blast
  have h0: "list_all (\<lambda>(m, s, ms). (0::int) \<le> m \<and> (0::int) \<le> s \<and> (0::int) \<le> ms) [(0, 0, 0), (0, 0, 250)]"
    by simp
  from h0 h2 h3 c inj exemplo_dois_frames show ?thesis by blast
qed

subsection \<open>Missing frame files\<close>



text \<open>Concrete runs with a frame file missing, evaluated step by step.\<close>

lemma ex_worig0: "nome_original Windows (lit ''out/'') 0 = lit ''out/frame_000001.png''"
  by code_simp
lemma ex_worig1: "nome_original Windows (lit ''out/'') (Suc 0) = lit ''out/frame_000002.png''"
  by code_simp
lemma ex_wnovo250: "nome_novo Windows (lit ''out/'') (lit ''v'') (0, 0, 250) = lit ''out/frame_v_00-00-250.png''"
  by code_simp
lemma ex_novo500: "nome_novo Posix (lit ''out'') (lit ''v'') (0, 0, 500) = lit ''out/frame_v_00-00-500.png''"
  by code_simp




section \<open>Properties of binary64 rounding\<close>

lemma p2_pos [simp]: "0 < (2::rat) powi n"
  by simp

lemma p2_add: "(2::rat) powi (m + n) = 2 powi m * 2 powi n"
  by (simp add: power_int_add)

lemma p2_diff: "(2::rat) powi (m - n) = 2 powi m / 2 powi n"
  by (simp add: power_int_diff)

lemma p2_mono: "m \<le> n \<Longrightarrow> (2::rat) powi m \<le> 2 powi n"
  by (rule power_int_increasing) simp_all

lemma p2_strict_mono: "m < n \<Longrightarrow> (2::rat) powi m < 2 powi n"
  by (rule power_int_strict_increasing) simp_all

lemma p2_less_iff: "(2::rat) powi m < 2 powi n \<longleftrightarrow> m < n"
  using p2_strict_mono [of m n] p2_mono [of n m] by (cases "m < n") auto

lemma p2_le_iff: "(2::rat) powi m \<le> 2 powi n \<longleftrightarrow> m \<le> n"
  using p2_strict_mono [of n m] p2_mono [of m n] by (cases "m \<le> n") auto

lemma p2_Suc: "(2::rat) powi (n + 1) = 2 * 2 powi n"
  by (simp add: power_int_add)

lemma bitlen_rat_bounds:
  assumes "0 < a"
  shows "(2::rat) powi (bitlen a - 1) \<le> of_int a" and "of_int a < (2::rat) powi (bitlen a)"
proof -
  from assms have b1: "1 \<le> bitlen a" by (auto simp: bitlen_alt_def)
  from bitlen_bounds [OF assms] have l: "2 ^ nat (bitlen a - 1) \<le> a" and u: "a < 2 ^ nat (bitlen a)"
    by auto
  from l have "(of_int (2 ^ nat (bitlen a - 1)) :: rat) \<le> of_int a" by (simp only: of_int_le_iff)
  then show "(2::rat) powi (bitlen a - 1) \<le> of_int a"
    using b1 by (simp add: power_int_def)
  from u have "(of_int a :: rat) < of_int (2 ^ nat (bitlen a))" by (simp only: of_int_less_iff)
  then show "of_int a < (2::rat) powi (bitlen a)"
    using b1 by (simp add: power_int_def)
qed

lemma expoente_bounds:
  assumes "0 < x"
  shows "2 powi (expoente x) \<le> x" and "x < 2 powi (expoente x + 1)"
proof -
  obtain a b where q: "quotient_of x = (a, b)" by (cases "quotient_of x")
  from quotient_of_denom_pos [OF q] have b: "0 < b" .
  from quotient_of_div [OF q] have x: "x = of_int a / of_int b" .
  from assms x b have a: "0 < a" by (simp add: zero_less_divide_iff)
  define d where "d = bitlen a - bitlen b"
  have bq: "(0::rat) < of_int b" using b by simp
  have "x < 2 powi (bitlen a) / 2 powi (bitlen b - 1)"
    unfolding x using bitlen_rat_bounds [OF a] bitlen_rat_bounds [OF b] bq a
    by (intro frac_less) simp_all
  then have up: "x < 2 powi (d + 1)"
    by (simp add: d_def flip: p2_diff) (simp add: algebra_simps)
  have "2 powi (bitlen a - 1) / 2 powi (bitlen b) < x"
    unfolding x using bitlen_rat_bounds [OF a] bitlen_rat_bounds [OF b] bq a
    by (intro frac_less2) simp_all
  then have lo: "2 powi (d - 1) < x"
    by (simp add: d_def flip: p2_diff) (simp add: algebra_simps)
  have e: "expoente x = (if 2 powi d \<le> x then d else d - 1)"
    by (simp add: expoente_def q d_def Let_def)
  show "2 powi (expoente x) \<le> x" using lo by (simp add: e)
  show "x < 2 powi (expoente x + 1)" using up by (auto simp: e not_le)
qed

lemma expoente_unique:
  assumes "2 powi e \<le> x" "x < 2 powi (e + 1)"
  shows "expoente x = e"
proof -
  have x: "0 < x" using assms(1) p2_pos [of e] by linarith
  from expoente_bounds [OF x] assms
  have "(2::rat) powi e < 2 powi (expoente x + 1)" "(2::rat) powi (expoente x) < 2 powi (e + 1)"
    by linarith+
  then show ?thesis by (simp add: p2_less_iff)
qed

lemma arredonda_par_int [simp]: "arredonda_par (of_int n) = n"
  by (simp add: arredonda_par_def)

lemma arredonda_par_floor: "\<lfloor>y\<rfloor> \<le> arredonda_par y" "arredonda_par y \<le> \<lfloor>y\<rfloor> + 1"
  by (simp_all add: arredonda_par_def Let_def)

lemma arredonda_par_le:
  assumes "y \<le> of_int K"
  shows "arredonda_par y \<le> K"
proof (cases "y = of_int K")
  case True
  then show ?thesis by simp
next
  case False
  with assms have "y < of_int K" by simp
  then have "\<lfloor>y\<rfloor> < K" by (simp add: floor_less_iff)
  with arredonda_par_floor(2) [of y] show ?thesis by linarith
qed

lemma arredonda_par_ge:
  assumes "of_int K \<le> y"
  shows "K \<le> arredonda_par y"
proof -
  from assms have "K \<le> \<lfloor>y\<rfloor>" by (simp add: le_floor_iff)
  with arredonda_par_floor(1) [of y] show ?thesis by linarith
qed

lemma arredonda_par_less_half:
  assumes "y < of_int K + 1 / 2"
  shows "arredonda_par y \<le> K"
proof (cases "\<lfloor>y\<rfloor> < K")
  case True
  with arredonda_par_floor(2) [of y] show ?thesis by linarith
next
  case False
  from assms have "y < of_int (K + 1)" by simp
  then have "\<lfloor>y\<rfloor> < K + 1" by (simp only: floor_less_iff)
  with False have f: "\<lfloor>y\<rfloor> = K" by linarith
  with assms have "y - of_int \<lfloor>y\<rfloor> < 1 / 2" by simp
  then show ?thesis by (simp add: arredonda_par_def Let_def f)
qed

lemma binary64_pos:
  assumes "0 < x"
  shows "binary64 x =
    (if limite_binary64 \<le> of_int (arredonda_par (x / 2 powi ultimo_bit x)) * 2 powi ultimo_bit x
     then NaoFinito
     else Fin (of_int (arredonda_par (x / 2 powi ultimo_bit x)) * 2 powi ultimo_bit x))"
  using assms by (simp add: binary64_def Let_def)

lemma binary64_zero [simp]: "binary64 0 = Fin 0"
  by (simp add: binary64_def)

lemma escala_menor:
  assumes "0 < x"
  shows "x / 2 powi ultimo_bit x < 2 ^ 53"
proof -
  have "x < 2 powi (expoente x + 1)" using expoente_bounds(2) [OF assms] .
  also have "\<dots> \<le> 2 powi (ultimo_bit x + 53)"
    by (rule p2_mono) (simp add: ultimo_bit_def)
  also have "\<dots> = 2 ^ 53 * 2 powi ultimo_bit x"
    by (simp add: p2_add)
  finally show ?thesis by (simp add: pos_divide_less_eq)
qed

lemma p2_int: "0 \<le> k \<Longrightarrow> (2::rat) powi k = of_int (2 ^ nat k)"
  by (simp add: power_int_def)

lemma forma_escala:
  assumes "q \<le> p"
  shows "of_int m * 2 powi p / 2 powi q = (of_int (m * 2 ^ nat (p - q)) :: rat)"
proof -
  have "(2::rat) powi p / 2 powi q = 2 powi (p - q)" by (simp add: p2_diff)
  also have "\<dots> = of_int (2 ^ nat (p - q))" using assms by (simp add: p2_int)
  finally have "(2::rat) powi p / 2 powi q = of_int (2 ^ nat (p - q))" .
  moreover have "of_int m * 2 powi p / 2 powi q = (of_int m :: rat) * (2 powi p / 2 powi q)"
    by simp
  ultimately show ?thesis by (simp only: of_int_mult)
qed

lemma ultimo_bit_le:
  assumes x: "0 < x" and le: "x < 2 ^ 53 * 2 powi p" and p: "- 1074 \<le> p"
  shows "ultimo_bit x \<le> p"
proof -
  have "2 powi (expoente x) \<le> x" using expoente_bounds(1) [OF x] .
  also have "x < 2 powi (53 + p)" using le by (simp add: p2_add)
  finally have "expoente x < 53 + p" by (simp add: p2_less_iff)
  with p show ?thesis by (simp add: ultimo_bit_def)
qed

text \<open>A number with at most 53 significant bits, in range, is a binary64 number.\<close>

lemma binary64_exato:
  assumes m: "0 < m" "m < 2 ^ 53" and p: "- 1074 \<le> p"
    and x: "x = of_int m * 2 powi p" and lim: "x < limite_binary64"
  shows "binary64 x = Fin x"
proof -
  have pos: "0 < x" using m x by simp
  have "(of_int m :: rat) < of_int (2 ^ 53)" using m(2) by (simp only: of_int_less_iff)
  then have "(of_int m :: rat) < 2 ^ 53" by simp
  then have "x < 2 ^ 53 * 2 powi p"
    unfolding x by (simp add: mult_strict_right_mono)
  from ultimo_bit_le [OF pos this p] have q: "ultimo_bit x \<le> p" .
  have e: "x / 2 powi ultimo_bit x = of_int (m * 2 ^ nat (p - ultimo_bit x))"
    using forma_escala [OF q, of m] x by simp
  have "of_int (arredonda_par (x / 2 powi ultimo_bit x)) * 2 powi ultimo_bit x
      = x / 2 powi ultimo_bit x * 2 powi ultimo_bit x"
    by (simp only: e arredonda_par_int)
  also have "\<dots> = x" by simp
  finally show ?thesis using lim by (simp add: binary64_pos [OF pos])
qed

lemma limite_p2: "2 powi k < limite_binary64 \<longleftrightarrow> k < 1024"
  by (simp only: limite_binary64_def p2_less_iff)

lemma representavel_zero [simp]: "representavel 0"
  by (simp add: representavel_def)

text \<open>The shape of a positive binary64 number.\<close>

lemma representavel_forma:
  assumes r: "representavel t" and pos: "0 < t"
  shows "\<exists>m p. t = of_int m * 2 powi p \<and> 0 < m \<and> m < 2 ^ 53 \<and> - 1074 \<le> p \<and> t < limite_binary64"
proof -
  let ?q = "ultimo_bit t"
  let ?n = "arredonda_par (t / 2 powi ?q)"
  from r have b: "binary64 t = Fin t" by (simp add: representavel_def)
  from b have lim: "\<not> limite_binary64 \<le> of_int ?n * 2 powi ?q"
    by (auto simp: binary64_pos [OF pos] split: if_splits)
  with b have t: "t = of_int ?n * 2 powi ?q"
    by (simp add: binary64_pos [OF pos])
  from t [symmetric] have "of_int ?n = t / 2 powi ?q" by (simp add: eq_divide_eq)
  with escala_menor [OF pos] have "(of_int ?n :: rat) < of_int (2 ^ 53)" by simp
  then have n53: "?n < 2 ^ 53" by (simp only: of_int_less_iff)
  from pos have "0 < t / 2 powi ?q" by simp
  with \<open>of_int ?n = t / 2 powi ?q\<close> have "(of_int 0 :: rat) < of_int ?n" by simp
  then have n0: "0 < ?n" by (simp only: of_int_less_iff)
  have "- 1074 \<le> ?q" by (simp add: ultimo_bit_def)
  with t n0 n53 lim show ?thesis by (intro exI [of _ ?n] exI [of _ ?q]) auto
qed

lemma representavel_limite: "representavel t \<Longrightarrow> 0 \<le> t \<Longrightarrow> t < limite_binary64"
  using representavel_forma [of t] by (cases "t = 0") (auto simp: limite_binary64_def)

lemma representavel_int:
  assumes "0 \<le> k" "k < 2 ^ 53"
  shows "representavel (of_int k)"
proof (cases "k = 0")
  case True
  then show ?thesis by simp
next
  case False
  with assms have k: "0 < k" by simp
  have "(of_int k :: rat) < of_int (2 ^ 53)" using assms(2) by (simp only: of_int_less_iff)
  also have "\<dots> = 2 powi 53" by simp
  also have "\<dots> < limite_binary64" by (simp add: limite_p2 del: power_int_numeral)
  finally have "(of_int k :: rat) < limite_binary64" .
  from binary64_exato [OF k assms(2), of 0 "of_int k"] this show ?thesis
    by (simp add: representavel_def)
qed

text \<open>Rounding never crosses a binary64 number.\<close>

lemma binary64_nao_excede:
  assumes r: "representavel r" and y: "0 \<le> y" "y \<le> r"
  shows "\<exists>z. binary64 y = Fin z \<and> 0 \<le> z \<and> z \<le> r"
proof (cases "y = 0")
  case True
  with y show ?thesis by simp
next
  case False
  with y have pos: "0 < y" by simp
  with y have rpos: "0 < r" by simp
  from representavel_forma [OF r rpos] obtain m p where
    m: "r = of_int m * 2 powi p" "0 < m" "m < 2 ^ 53" "- 1074 \<le> p" and lim: "r < limite_binary64"
    by blast
  let ?q = "ultimo_bit y"
  let ?n = "arredonda_par (y / 2 powi ?q)"
  have "(of_int m :: rat) < of_int (2 ^ 53)" using m(3) by (simp only: of_int_less_iff)
  then have "(of_int m :: rat) < 2 ^ 53" by simp
  then have "r < 2 ^ 53 * 2 powi p" unfolding m(1) by (simp add: mult_strict_right_mono)
  with y have "y < 2 ^ 53 * 2 powi p" by linarith
  from ultimo_bit_le [OF pos this m(4)] have q: "?q \<le> p" .
  have rq: "r / 2 powi ?q = of_int (m * 2 ^ nat (p - ?q))"
    unfolding m(1) by (rule forma_escala [OF q])
  have "y / 2 powi ?q \<le> r / 2 powi ?q" using y by (simp add: divide_right_mono)
  then have "?n \<le> m * 2 ^ nat (p - ?q)" unfolding rq by (rule arredonda_par_le)
  then have "(of_int ?n :: rat) \<le> of_int (m * 2 ^ nat (p - ?q))" by (simp only: of_int_le_iff)
  then have "of_int ?n \<le> r / 2 powi ?q" by (simp only: rq)
  then have le: "of_int ?n * 2 powi ?q \<le> r" by (simp add: pos_le_divide_eq)
  have "(of_int 0 :: rat) \<le> y / 2 powi ?q" using pos by simp
  then have "0 \<le> ?n" by (rule arredonda_par_ge)
  then have ge: "0 \<le> (of_int ?n :: rat) * 2 powi ?q" by simp
  from le lim have "\<not> limite_binary64 \<le> of_int ?n * 2 powi ?q" by linarith
  then have "binary64 y = Fin (of_int ?n * 2 powi ?q)" by (simp add: binary64_pos [OF pos])
  with le ge show ?thesis by blast
qed

lemma binary64_nao_fica_abaixo:
  assumes r: "representavel r" and y: "0 \<le> r" "r \<le> y" and b: "binary64 y = Fin z"
  shows "r \<le> z"
proof (cases "y = 0")
  case True
  with y b show ?thesis by simp
next
  case False
  with y have pos: "0 < y" by simp
  let ?q = "ultimo_bit y"
  let ?n = "arredonda_par (y / 2 powi ?q)"
  from b have z: "z = of_int ?n * 2 powi ?q"
    by (auto simp: binary64_pos [OF pos] split: if_splits)
  show ?thesis
  proof (cases "r = 0")
    case True
    have "(of_int 0 :: rat) \<le> y / 2 powi ?q" using pos by simp
    then have "0 \<le> ?n" by (rule arredonda_par_ge)
    then have "0 \<le> (of_int ?n :: rat) * 2 powi ?q" by simp
    with True z show ?thesis by simp
  next
    case False
    with y have rpos: "0 < r" by simp
    from representavel_forma [OF r rpos] obtain m p where
      m: "r = of_int m * 2 powi p" "0 < m" "m < 2 ^ 53" "- 1074 \<le> p"
      by blast
    show ?thesis
    proof (cases "2 powi (expoente y) \<le> r")
      case True
      have "(of_int m :: rat) < of_int (2 ^ 53)" using m(3) by (simp only: of_int_less_iff)
      then have "(of_int m :: rat) < 2 ^ 53" by simp
      then have "r < 2 ^ 53 * 2 powi p" unfolding m(1) by (simp add: mult_strict_right_mono)
      with True have "2 powi (expoente y) < (2::rat) powi (53 + p)" by (simp add: p2_add)
      then have "expoente y < 53 + p" by (simp add: p2_less_iff)
      with m(4) have q: "?q \<le> p" by (simp add: ultimo_bit_def)
      have rq: "r / 2 powi ?q = of_int (m * 2 ^ nat (p - ?q))"
        unfolding m(1) by (rule forma_escala [OF q])
      have "r / 2 powi ?q \<le> y / 2 powi ?q" using y by (simp add: divide_right_mono)
      then have "m * 2 ^ nat (p - ?q) \<le> ?n" unfolding rq by (rule arredonda_par_ge)
      then have "(of_int (m * 2 ^ nat (p - ?q)) :: rat) \<le> of_int ?n" by (simp only: of_int_le_iff)
      then have "r / 2 powi ?q \<le> of_int ?n" by (simp only: rq)
      then show ?thesis unfolding z by (simp add: pos_divide_le_eq)
    next
      case False
      have "1 \<le> m" using m(2) by simp
      then have "(of_int 1 :: rat) \<le> of_int m" by (simp only: of_int_le_iff)
      then have "1 * 2 powi p \<le> r" unfolding m(1) by (intro mult_right_mono) simp_all
      with False have "(2::rat) powi p < 2 powi (expoente y)" by simp
      then have "p < expoente y" by (simp add: p2_less_iff)
      with m(4) have q: "?q \<le> expoente y" by (simp add: ultimo_bit_def)
      have eq: "1 * 2 powi (expoente y) / 2 powi ?q = (of_int (1 * 2 ^ nat (expoente y - ?q)) :: rat)"
        using forma_escala [OF q, of 1] by simp
      have "2 powi (expoente y) / 2 powi ?q \<le> y / 2 powi ?q"
        using expoente_bounds(1) [OF pos] by (simp add: divide_right_mono)
      then have "of_int (1 * 2 ^ nat (expoente y - ?q)) \<le> y / 2 powi ?q"
        using eq by simp
      then have "1 * 2 ^ nat (expoente y - ?q) \<le> ?n" by (rule arredonda_par_ge)
      then have "(of_int (1 * 2 ^ nat (expoente y - ?q)) :: rat) \<le> of_int ?n" by (simp only: of_int_le_iff)
      then have "(2::rat) powi (expoente y) / 2 powi ?q \<le> of_int ?n" using eq by simp
      then have "2 powi (expoente y) \<le> z" unfolding z by (simp add: pos_divide_le_eq)
      with False show ?thesis by linarith
    qed
  qed
qed

text \<open>The result of rounding is a binary64 number.\<close>

lemma binary64_representavel:
  assumes b: "binary64 y = Fin z" and y: "0 \<le> y"
  shows "representavel z"
proof (cases "y = 0")
  case True
  with b show ?thesis by simp
next
  case False
  with y have pos: "0 < y" by simp
  let ?q = "ultimo_bit y"
  let ?n = "arredonda_par (y / 2 powi ?q)"
  from b have z: "z = of_int ?n * 2 powi ?q" and lim: "z < limite_binary64"
    by (auto simp: binary64_pos [OF pos] split: if_splits)
  have q: "- 1074 \<le> ?q" by (simp add: ultimo_bit_def)
  have "y / 2 powi ?q \<le> of_int (2 ^ 53)" using escala_menor [OF pos] by simp
  then have n53: "?n \<le> 2 ^ 53" by (rule arredonda_par_le)
  have "(of_int 0 :: rat) \<le> y / 2 powi ?q" using pos by simp
  then have n0: "0 \<le> ?n" by (rule arredonda_par_ge)
  consider "?n = 0" | "0 < ?n" "?n < 2 ^ 53" | "?n = 2 ^ 53" using n0 n53 by linarith
  then show ?thesis
  proof cases
    case 1
    with z show ?thesis by simp
  next
    case 2
    from binary64_exato [OF 2 q z lim] show ?thesis by (simp add: representavel_def)
  next
    case 3
    have "z = of_int (2 ^ 52) * 2 powi (?q + 1)"
      unfolding z 3 by (simp add: p2_Suc)
    from binary64_exato [OF _ _ _ this lim] q show ?thesis by (simp add: representavel_def)
  qed
qed

lemma representavel_partes:
  assumes r: "representavel t" and t: "0 \<le> t"
  shows "representavel (of_int \<lfloor>t\<rfloor>)" and "representavel (t - of_int \<lfloor>t\<rfloor>)"
proof -
  have "representavel (of_int \<lfloor>t\<rfloor>) \<and> representavel (t - of_int \<lfloor>t\<rfloor>)"
  proof (cases "t = 0")
    case True
    then show ?thesis by simp
  next
    case False
    with t have pos: "0 < t" by simp
    from representavel_forma [OF r pos] obtain m p where
      m: "t = of_int m * 2 powi p" "0 < m" "m < 2 ^ 53" "- 1074 \<le> p" and lim: "t < limite_binary64"
      by blast
    show ?thesis
    proof (cases "0 \<le> p")
      case True
      then have "t = of_int (m * 2 ^ nat p)" unfolding m(1) by (simp add: p2_int)
      then have ti: "t = of_int (m * 2 ^ nat p)" .
      have e: "of_int \<lfloor>t\<rfloor> = t" using ti by (metis floor_of_int)
      have "t - of_int \<lfloor>t\<rfloor> = 0" by (simp only: e diff_self)
      with r e show ?thesis by (simp only: representavel_zero simp_thms)
    next
      case False
      define k where "k = nat (- p)"
      have p2: "(2::rat) powi p = 1 / of_int (2 ^ k)"
        using False by (simp add: k_def power_int_def field_simps)
      have td: "t = of_int m / of_int (2 ^ k)" unfolding m(1) p2 by simp
      have fl: "\<lfloor>t\<rfloor> = m div 2 ^ k" unfolding td by (rule floor_divide_of_int_eq)
      have k0: "(0::int) < 2 ^ k" by simp
      have d0: "0 \<le> m div 2 ^ k" using m(2) k0 by (simp add: pos_imp_zdiv_nonneg_iff)
      have "m div 2 ^ k \<le> m div 1" using m(2) by (intro zdiv_mono2) simp_all
      then have "m div 2 ^ k \<le> m" by simp
      with m(3) have d53: "m div 2 ^ k < 2 ^ 53" by linarith
      from representavel_int [OF d0 d53] have A: "representavel (of_int \<lfloor>t\<rfloor>)" by (simp only: fl)
      define c :: rat where "c = of_int (2 ^ k)"
      define a :: rat where "a = of_int (m div 2 ^ k)"
      define b :: rat where "b = of_int (m mod 2 ^ k)"
      have c0: "0 < c" unfolding c_def by simp
      have "(of_int m :: rat) = of_int (2 ^ k * (m div 2 ^ k) + m mod 2 ^ k)" by simp
      also have "\<dots> = c * a + b"
        unfolding c_def a_def b_def by (simp only: of_int_add of_int_mult)
      finally have md: "(of_int m :: rat) = c * a + b" .
      have "t - a = (c * a + b) / c - a" unfolding td md c_def [symmetric] ..
      also have "\<dots> = b * (1 / c)" using c0 by (simp add: field_simps)
      finally have fr: "t - of_int \<lfloor>t\<rfloor> = of_int (m mod 2 ^ k) * 2 powi p"
        unfolding fl p2 a_def b_def c_def .
      have r0: "0 \<le> m mod 2 ^ k" by simp
      have "m mod 2 ^ k \<le> m" using m(2) k0 by (simp add: zmod_le_nonneg_dividend)
      with m(3) have r53: "m mod 2 ^ k < 2 ^ 53" by linarith
      have "t - of_int \<lfloor>t\<rfloor> < 1" by linarith
      also have "(1::rat) = 2 powi 0" by simp
      also have "\<dots> < limite_binary64" by (simp only: limite_p2) 
      finally have fl1: "t - of_int \<lfloor>t\<rfloor> < limite_binary64" .
      have B: "representavel (t - of_int \<lfloor>t\<rfloor>)"
      proof (cases "m mod 2 ^ k = 0")
        case True
        with fr show ?thesis by simp
      next
        case False
        with r0 have "0 < m mod 2 ^ k" by linarith
        from binary64_exato [OF this r53 m(4) fr fl1] show ?thesis by (simp add: representavel_def)
      qed
      from A B show ?thesis ..
    qed
  qed
  then show "representavel (of_int \<lfloor>t\<rfloor>)" and "representavel (t - of_int \<lfloor>t\<rfloor>)" by simp_all
qed

text \<open>A binary64 number below 1 is at most \<open>1 - 2^-53\<close>.\<close>

lemma representavel_abaixo_de_um:
  assumes r: "representavel x" and x: "0 \<le> x" "x < 1"
  shows "x * 2 ^ 53 \<le> 2 ^ 53 - 1"
proof (cases "x = 0")
  case True
  then show ?thesis by simp
next
  case False
  with x have pos: "0 < x" by simp
  from representavel_forma [OF r pos] obtain m p where
    m: "x = of_int m * 2 powi p" "0 < m" "m < 2 ^ 53" "- 1074 \<le> p"
    by blast
  show ?thesis
  proof (cases "- 53 \<le> p")
    case True
    have "x * 2 ^ 53 = of_int m * (2 powi p * 2 powi 53)" unfolding m(1) by simp
    also have "\<dots> = of_int m * 2 powi (p + 53)" by (simp only: p2_add)
    also have "\<dots> = of_int (m * 2 ^ nat (p + 53))" using True by (simp add: p2_int)
    finally have e: "x * 2 ^ 53 = of_int (m * 2 ^ nat (p + 53))" .
    from x(2) have "x * 2 ^ 53 < of_int (2 ^ 53)" by simp
    then have "m * 2 ^ nat (p + 53) < 2 ^ 53" unfolding e by (simp only: of_int_less_iff)
    then have "m * 2 ^ nat (p + 53) \<le> 2 ^ 53 - 1" by linarith
    then have "(of_int (m * 2 ^ nat (p + 53)) :: rat) \<le> of_int (2 ^ 53 - 1)" by (simp only: of_int_le_iff)
    then show ?thesis unfolding e by simp
  next
    case False
    then have "p \<le> - 54" by simp
    then have "(2::rat) powi p \<le> 2 powi (- 54)" by (rule p2_mono)
    moreover have "(of_int m :: rat) < of_int (2 ^ 53)" using m(3) by (simp only: of_int_less_iff)
    ultimately have "(of_int m :: rat) * 2 powi p \<le> of_int (2 ^ 53) * 2 powi (- 54)"
      using m(2) by (intro mult_mono) simp_all
    then have "x \<le> 1 / 2" unfolding m(1) by simp
    then show ?thesis by simp
  qed
qed

lemma binary64_vezes_mil:
  assumes r: "representavel x" and x: "0 \<le> x" "x < 1"
  shows "\<exists>z. binary64 (x * 1000) = Fin z \<and> 0 \<le> z \<and> z < 1000
            \<and> of_int \<lfloor>x * 1000\<rfloor> \<le> z \<and> z \<le> of_int \<lfloor>x * 1000\<rfloor> + 1"
proof -
  let ?y = "x * 1000"
  have y0: "0 \<le> ?y" using x by simp
  have y1: "?y < 1000" using x by simp
  have f0: "0 \<le> \<lfloor>?y\<rfloor>" using y0 by simp
  have f1: "\<lfloor>?y\<rfloor> < 1000" using y1 by (simp add: floor_less_iff)
  have ra: "representavel (of_int (\<lfloor>?y\<rfloor> + 1))"
    using f0 f1 by (intro representavel_int) simp_all
  have rb: "representavel (of_int \<lfloor>?y\<rfloor>)"
    using f0 f1 by (intro representavel_int) simp_all
  have "?y \<le> of_int (\<lfloor>?y\<rfloor> + 1)" by linarith
  from binary64_nao_excede [OF ra y0 this] obtain z where
    z: "binary64 ?y = Fin z" "0 \<le> z" "z \<le> of_int (\<lfloor>?y\<rfloor> + 1)" by blast
  have "(0::rat) \<le> of_int \<lfloor>?y\<rfloor>" using f0 by simp
  moreover have "of_int \<lfloor>?y\<rfloor> \<le> ?y" by simp
  ultimately have lo: "of_int \<lfloor>?y\<rfloor> \<le> z" by (rule binary64_nao_fica_abaixo [OF rb _ _ z(1)])
  have lt: "z < 1000"
  proof (cases "?y < 512")
    case True
    have "representavel (of_int 512)" by (intro representavel_int) simp_all
    from binary64_nao_excede [OF this y0] True z(1) have "z \<le> 512" by auto
    then show ?thesis by simp
  next
    case False
    then have ypos: "0 < ?y" by simp
    have "2 powi 9 \<le> ?y" using False by simp
    moreover have "?y < 2 powi (9 + 1)" using y1 by simp
    ultimately have "expoente ?y = 9" by (rule expoente_unique)
    then have q: "ultimo_bit ?y = - 43" by (simp add: ultimo_bit_def)
    have p43: "(2::rat) powi (- 43) = 1 / 2 ^ 43" by (simp add: power_int_minus_divide)
    from representavel_abaixo_de_um [OF r x] have "x * 2 ^ 53 \<le> 2 ^ 53 - 1" .
    then have "?y / 2 powi (- 43) \<le> (2 ^ 53 - 1) * 1000 / 2 ^ 10"
      unfolding p43 by simp
    also have "\<dots> < of_int (1000 * 2 ^ 43 - 1) + 1 / 2" by simp
    finally have "arredonda_par (?y / 2 powi (- 43)) \<le> 1000 * 2 ^ 43 - 1"
      by (rule arredonda_par_less_half)
    then have "(of_int (arredonda_par (?y / 2 powi (- 43))) :: rat) \<le> of_int (1000 * 2 ^ 43 - 1)"
      by (simp only: of_int_le_iff)
    then have "(of_int (arredonda_par (?y / 2 powi (- 43))) :: rat) * 2 powi (- 43) \<le> of_int (1000 * 2 ^ 43 - 1) * 2 powi (- 43)"
      by (intro mult_right_mono) simp_all
    also have "\<dots> < 1000" unfolding p43 by simp
    finally have "(of_int (arredonda_par (?y / 2 powi (- 43))) :: rat) * 2 powi (- 43) < 1000" .
    moreover from z(1) have "z = of_int (arredonda_par (?y / 2 powi (- 43))) * 2 powi (- 43)"
      by (auto simp: binary64_pos [OF ypos] q split: if_splits)
    ultimately show ?thesis by simp
  qed
  from z lo lt show ?thesis by auto
qed

lemma representavel_p2:
  assumes "- 1074 \<le> p" "p < 1024"
  shows "representavel (2 powi p)"
proof -
  have "(2::rat) powi p < limite_binary64" using assms(2) by (simp only: limite_p2)
  from binary64_exato [of 1 p "2 powi p", OF _ _ assms(1) _ this] show ?thesis
    by (simp add: representavel_def)
qed

lemma truncar_pos [simp]: "0 \<le> r \<Longrightarrow> truncar r = \<lfloor>r\<rfloor>"
  by (simp add: truncar_def)

lemma fmod_60:
  assumes "0 \<le> t"
  shows "fmod t 60 = t - 60 * of_int \<lfloor>t / 60\<rfloor>" and "0 \<le> fmod t 60" and "fmod t 60 < 60"
proof -
  from assms have "0 \<le> t / 60" by simp
  then show e: "fmod t 60 = t - 60 * of_int \<lfloor>t / 60\<rfloor>" by (simp add: fmod_def)
  have "of_int \<lfloor>t / 60\<rfloor> \<le> t / 60" by (rule of_int_floor_le)
  then show "0 \<le> fmod t 60" unfolding e by simp
  have "t / 60 < of_int \<lfloor>t / 60\<rfloor> + 1" by linarith
  then show "fmod t 60 < 60" unfolding e by simp
qed

lemma float_div_mod_60:
  assumes r: "representavel t" and t: "0 \<le> t"
  shows "\<exists>d. float_div_mod t 60 = (Fin d, Fin (fmod t 60)) \<and> 0 \<le> d"
proof -
  let ?k = "\<lfloor>t / 60\<rfloor>"
  note fm = fmod_60 [OF t]
  have k0: "0 \<le> ?k" using t by simp
  have e1: "t - fmod t 60 = 60 * of_int ?k" unfolding fm(1) by simp
  have "0 \<le> t - fmod t 60" unfolding e1 using k0 by simp
  moreover have "t - fmod t 60 \<le> t" using fm(2) by simp
  ultimately obtain a where a: "binary64 (t - fmod t 60) = Fin a" "0 \<le> a" "a \<le> t"
    using binary64_nao_excede [OF r] by blast
  have lim: "t < 2 powi 1024" using representavel_limite [OF r t] by (simp only: limite_binary64_def)
  have "(2::rat) powi 1024 = 32 * 2 powi 1019" using p2_add [of 5 1019] by simp
  with lim a(3) have "a < 32 * 2 powi 1019" by linarith
  moreover have "(0::rat) < 2 powi 1019" by (rule p2_pos)
  ultimately have "a / 60 \<le> 2 powi 1019" by (simp add: pos_divide_le_eq)
  moreover have "0 \<le> a / 60" using a(2) by simp
  moreover have "representavel (2 powi 1019)" by (rule representavel_p2) simp_all
  ultimately obtain d where d: "binary64 (a / 60) = Fin d" "0 \<le> d" "d \<le> 2 powi 1019"
    using binary64_nao_excede by blast
  have aj: "\<not> fmod t 60 < 0" using fm(2) by simp
  have fd0: "0 \<le> \<lfloor>d\<rfloor>" using d(2) by simp
  have "\<exists>z. (case float_sub (Fin d) (Fin (of_int \<lfloor>d\<rfloor>)) of
                 NaoFinito \<Rightarrow> NaoFinito
               | Fin r \<Rightarrow> if 1 / 2 < r then float_add (Fin (of_int \<lfloor>d\<rfloor>)) (Fin 1)
                         else Fin (of_int \<lfloor>d\<rfloor>)) = Fin z \<and> 0 \<le> z"
  proof -
    have "0 \<le> d - of_int \<lfloor>d\<rfloor>" "d - of_int \<lfloor>d\<rfloor> \<le> of_int 1" by linarith+
    moreover have "representavel (of_int 1)" by (rule representavel_int) simp_all
    ultimately obtain r0 where r0: "binary64 (d - of_int \<lfloor>d\<rfloor>) = Fin r0"
      using binary64_nao_excede by blast
    have "(2::rat) powi 1020 = 2 * 2 powi 1019" using p2_add [of 1 1019] by simp
    moreover have "(1::rat) \<le> 2 powi 1019" using p2_mono [of 0 1019] by simp
    moreover have "of_int \<lfloor>d\<rfloor> \<le> d" by simp
    ultimately have "of_int \<lfloor>d\<rfloor> + 1 \<le> (2::rat) powi 1020" using d(3) by linarith
    moreover have "(0::rat) \<le> of_int \<lfloor>d\<rfloor> + 1" using fd0 by simp
    moreover have "representavel (2 powi 1020)" by (rule representavel_p2) simp_all
    ultimately obtain z1 where z1: "binary64 (of_int \<lfloor>d\<rfloor> + 1) = Fin z1" "0 \<le> z1"
      using binary64_nao_excede by blast
    show ?thesis using r0 z1 fd0 by simp
  qed
  then obtain z where z: "(case float_sub (Fin d) (Fin (of_int \<lfloor>d\<rfloor>)) of
                 NaoFinito \<Rightarrow> NaoFinito
               | Fin r \<Rightarrow> if 1 / 2 < r then float_add (Fin (of_int \<lfloor>d\<rfloor>)) (Fin 1)
                         else Fin (of_int \<lfloor>d\<rfloor>)) = Fin z" "0 \<le> z" by blast
  have "float_div_mod t 60 = (if d \<noteq> 0 then Fin z else Fin 0, Fin (fmod t 60))"
    unfolding float_div_mod_def Let_def using aj a(1) d(1) z(1) by simp
  with z(2) show ?thesis by (cases "d = 0") auto
qed

lemma fmod_pos:
  assumes "0 \<le> t" "0 < w"
  shows "fmod t w = t - w * of_int \<lfloor>t / w\<rfloor>" and "0 \<le> fmod t w"
proof -
  from assms have "0 \<le> t / w" by simp
  then show e: "fmod t w = t - w * of_int \<lfloor>t / w\<rfloor>" by (simp add: fmod_def)
  have "w * of_int \<lfloor>t / w\<rfloor> \<le> w * (t / w)"
    using assms(2) by (intro mult_left_mono of_int_floor_le) simp
  also have "\<dots> = t" using assms(2) by simp
  finally have "w * of_int \<lfloor>t / w\<rfloor> \<le> t" .
  then show "0 \<le> fmod t w" unfolding e by simp
qed

lemma float_div_mod_exato:
  assumes t: "0 \<le> t" and lt: "t < 2 ^ 53" and w: "0 < w"
  shows "float_div_mod t (of_int w) = (Fin (of_int \<lfloor>t / of_int w\<rfloor>), Fin (fmod t (of_int w)))"
proof -
  let ?w = "of_int w :: rat"
  let ?k = "\<lfloor>t / ?w\<rfloor>"
  have w0: "0 < ?w" using w by simp
  note fm = fmod_pos [OF t w0]
  have k0: "0 \<le> ?k" using t w0 by simp
  have e1: "t - fmod t ?w = of_int (w * ?k)" unfolding fm(1) by simp
  have "0 \<le> t - ?w * of_int ?k" using fm(2) unfolding fm(1) .
  then have "?w * of_int ?k \<le> t" by simp
  then have le: "(of_int (w * ?k) :: rat) \<le> t" by simp
  with lt have "(of_int (w * ?k) :: rat) < of_int (2 ^ 53)" by simp
  then have k53: "w * ?k < 2 ^ 53" by (simp only: of_int_less_iff)
  have wk0: "0 \<le> w * ?k" using w k0 by simp
  have "representavel (of_int (w * ?k))" using wk0 k53 by (rule representavel_int)
  then have a: "binary64 (t - fmod t ?w) = Fin (of_int (w * ?k))"
    unfolding e1 by (simp only: representavel_def)
  have "1 * ?k \<le> w * ?k" using w k0 by (intro mult_right_mono) simp_all
  with k53 have "?k < 2 ^ 53" by linarith
  with k0 have "representavel (of_int ?k)" by (intro representavel_int)
  then have "binary64 (of_int ?k) = Fin (of_int ?k)" by (simp only: representavel_def)
  moreover have "(of_int (w * ?k) :: rat) / ?w = of_int ?k" using w0 by simp
  ultimately have d: "binary64 (of_int (w * ?k) / ?w) = Fin (of_int ?k)" by (simp only:)
  have aj: "\<not> fmod t ?w < 0" using fm(2) by simp
  have nw: "\<not> ?w < 0" using w0 by simp
  show ?thesis
    unfolding float_div_mod_def Let_def using aj nw a d by simp
qed

lemma float_div_mod_60_exato:
  assumes t: "0 \<le> t" and lt: "t < 2 ^ 53"
  shows "float_div_mod t 60 = (Fin (of_int \<lfloor>t / 60\<rfloor>), Fin (fmod t 60))"
  using float_div_mod_exato [OF t lt, of 60] by simp

lemma tempo_do_frame_forma:
  assumes r: "representavel t" and t: "0 \<le> t"
  shows "\<exists>d z. float_div_mod t 60 = (Fin d, Fin (fmod t 60)) \<and> 0 \<le> d
     \<and> binary64 ((t - of_int \<lfloor>t\<rfloor>) * 1000) = Fin z \<and> 0 \<le> z
     \<and> tempo_do_frame (Fin t) = Inr (\<lfloor>d\<rfloor>, \<lfloor>fmod t 60\<rfloor>, \<lfloor>z\<rfloor>)"
proof -
  from float_div_mod_60 [OF r t] obtain d where
    d: "float_div_mod t 60 = (Fin d, Fin (fmod t 60))" "0 \<le> d" by blast
  note fm = fmod_60 [OF t]
  note rp = representavel_partes [OF r t]
  have fi: "float_de_int \<lfloor>t\<rfloor> = Inr (Fin (of_int \<lfloor>t\<rfloor>))"
    using rp(1) by (simp add: float_de_int_def representavel_def)
  have fs: "binary64 (t - of_int \<lfloor>t\<rfloor>) = Fin (t - of_int \<lfloor>t\<rfloor>)"
    using rp(2) by (simp only: representavel_def)
  have "0 \<le> t - of_int \<lfloor>t\<rfloor>" "t - of_int \<lfloor>t\<rfloor> < 1" by linarith+
  from binary64_vezes_mil [OF rp(2) this] obtain z where
    z: "binary64 ((t - of_int \<lfloor>t\<rfloor>) * 1000) = Fin z" "0 \<le> z" by blast
  have "tempo_do_frame (Fin t) = Inr (\<lfloor>d\<rfloor>, \<lfloor>fmod t 60\<rfloor>, \<lfloor>z\<rfloor>)"
    unfolding tempo_do_frame_def using d fm(2) t fi fs z by simp
  with d z show ?thesis by blast
qed

section \<open>Properties of the Timestamp Reconstructor\<close>

lemma binary64_nao_negativo:
  assumes "binary64 y = Fin t" "0 \<le> y"
  shows "0 \<le> t"
  using binary64_nao_fica_abaixo [of 0 y t] assms by simp

lemma py_float_finito:
  assumes "py_float grupo = Inr (Fin t)"
  shows "representavel t" and "0 \<le> t"
proof -
  from assms obtain y where y: "binary64 y = Fin t" "0 \<le> y"
    by (auto simp: py_float_def Let_def split: if_splits)
  from binary64_representavel [OF y] show "representavel t" .
  from binary64_nao_negativo [OF y] show "0 \<le> t" .
qed

lemma tempo_do_frame_NaoFinito: "tempo_do_frame NaoFinito \<noteq> Inr tf"
  by (simp add: tempo_do_frame_def)

lemma tempo_do_frame_campos:
  assumes r: "representavel t" and t: "0 \<le> t"
  shows "\<exists>minutos segundos milissegundos.
     tempo_do_frame (Fin t) = Inr (minutos, segundos, milissegundos)
     \<and> 0 \<le> minutos \<and> 0 \<le> segundos \<and> segundos \<le> 59 \<and> 0 \<le> milissegundos \<and> milissegundos \<le> 999"
proof -
  from tempo_do_frame_forma [OF r t] obtain d z where
    all: "float_div_mod t 60 = (Fin d, Fin (fmod t 60)) \<and> 0 \<le> d
     \<and> binary64 ((t - of_int \<lfloor>t\<rfloor>) * 1000) = Fin z \<and> 0 \<le> z
     \<and> tempo_do_frame (Fin t) = Inr (\<lfloor>d\<rfloor>, \<lfloor>fmod t 60\<rfloor>, \<lfloor>z\<rfloor>)"
    by (elim exE)
  from all have d: "0 \<le> d" and z: "binary64 ((t - of_int \<lfloor>t\<rfloor>) * 1000) = Fin z"
    and tf: "tempo_do_frame (Fin t) = Inr (\<lfloor>d\<rfloor>, \<lfloor>fmod t 60\<rfloor>, \<lfloor>z\<rfloor>)" by simp_all
  note fm = fmod_60 [OF t]
  note rp = representavel_partes [OF r t]
  have "0 \<le> t - of_int \<lfloor>t\<rfloor>" "t - of_int \<lfloor>t\<rfloor> < 1" by linarith+
  from binary64_vezes_mil [OF rp(2) this] obtain z' where
    z': "binary64 ((t - of_int \<lfloor>t\<rfloor>) * 1000) = Fin z'" "0 \<le> z'" "z' < 1000" by blast
  from z z'(1) have "z' = z" by simp
  with z' have zb: "0 \<le> z" "z < 1000" by simp_all
  have "0 \<le> \<lfloor>d\<rfloor>" using d by simp
  moreover have "0 \<le> \<lfloor>fmod t 60\<rfloor>" using fm(2) by simp
  moreover have "\<lfloor>fmod t 60\<rfloor> < 60" using fm(3) by (simp add: floor_less_iff)
  moreover have "0 \<le> \<lfloor>z\<rfloor>" using zb(1) by simp
  moreover have "\<lfloor>z\<rfloor> < 1000" using zb(2) by (simp add: floor_less_iff)
  ultimately have "0 \<le> \<lfloor>d\<rfloor> \<and> 0 \<le> \<lfloor>fmod t 60\<rfloor> \<and> \<lfloor>fmod t 60\<rfloor> \<le> 59 \<and> 0 \<le> \<lfloor>z\<rfloor> \<and> \<lfloor>z\<rfloor> \<le> 999"
    by linarith
  with tf show ?thesis by blast
qed

lemma analisar_laco_passo:
  assumes "re_search_pts_time linha = Some grupo"
  shows "analisar_laco (linha # resto) acc =
    (case py_float grupo of
       Inl e \<Rightarrow> Inl e
     | Inr timestamp \<Rightarrow>
         (case tempo_do_frame timestamp of
            Inl e \<Rightarrow> Inl e
          | Inr t \<Rightarrow> analisar_laco resto (acc @ [t])))"
  using assms by simp

lemma analisar_laco_pula:
  assumes "re_search_pts_time linha = None"
  shows "analisar_laco (linha # resto) acc = analisar_laco resto acc"
  using assms by simp

declare analisar_laco.simps(2) [simp del]

lemma analisar_laco_campos:
  "analisar_laco dados_log acc = Inr tempos \<Longrightarrow> list_all nos_campos acc \<Longrightarrow> list_all nos_campos tempos"
proof (induction dados_log arbitrary: acc)
  case Nil
  then show ?case by simp
next
  case (Cons linha resto)
  show ?case
  proof (cases "re_search_pts_time linha")
    case None
    with Cons.prems have "analisar_laco resto acc = Inr tempos" by (simp add: analisar_laco_pula)
    from Cons.IH [OF this Cons.prems(2)] show ?thesis .
  next
    case (Some grupo)
    with Cons.prems(1) obtain ts tf where ts: "py_float grupo = Inr ts" and tf: "tempo_do_frame ts = Inr tf"
      and l: "analisar_laco resto (acc @ [tf]) = Inr tempos"
      by (simp add: analisar_laco_passo split: sum.splits)
    from tf tempo_do_frame_NaoFinito obtain t where t: "ts = Fin t" by (cases ts) auto
    note pf = py_float_finito [OF ts [unfolded t]]
    from tempo_do_frame_campos [OF pf] tf [unfolded t]
    have "nos_campos tf" unfolding nos_campos_def by auto
    with Cons.prems(2) have "list_all nos_campos (acc @ [tf])" by simp
    from Cons.IH [OF l this] show ?thesis .
  qed
qed

text \<open>
  Claim C10. For every finite float \<open>t \<ge> 0\<close> the reconstructed tuple exists and its
  components lie in the ranges of the file-name fields: \<open>0 \<le> segundos \<le> 59\<close> and
  \<open>0 \<le> milissegundos \<le> 999\<close> (and \<open>minutos \<ge> 0\<close>, unbounded). Hence every
  tuple that \<open>analisar_dados_log\<close> returns lies in these ranges. The milliseconds need
  the rounding of the multiplication by 1000: a float below 1 is at most \<open>1 - 2^-53\<close>,
  and its product with 1000 rounds to a float below 1000.
\<close>

theorem tempos_dentro_dos_campos:
  "(representavel t \<and> 0 \<le> t \<longrightarrow>
      (\<exists>minutos segundos milissegundos.
         tempo_do_frame (Fin t) = Inr (minutos, segundos, milissegundos)
         \<and> 0 \<le> minutos \<and> 0 \<le> segundos \<and> segundos \<le> 59 \<and> 0 \<le> milissegundos \<and> milissegundos \<le> 999))
   \<and> (analisar_dados_log dados_log = Inr tempos_frames \<longrightarrow>
        list_all (\<lambda>(minutos, segundos, milissegundos).
           0 \<le> minutos \<and> 0 \<le> segundos \<and> segundos \<le> 59 \<and> 0 \<le> milissegundos \<and> milissegundos \<le> 999)
          tempos_frames)"
proof -
  have e: "(\<lambda>(minutos, segundos, milissegundos).
           0 \<le> minutos \<and> 0 \<le> segundos \<and> segundos \<le> 59 \<and> 0 \<le> milissegundos \<and> milissegundos \<le> 999)
      = nos_campos"
    by (auto simp: nos_campos_def fun_eq_iff)
  show ?thesis
    unfolding e analisar_dados_log_def
    using tempo_do_frame_campos [of t] analisar_laco_campos [of dados_log "[]" tempos_frames]
    by auto
qed

lemma tempo_do_frame_1ms:
  assumes r: "representavel t" and t: "0 \<le> t" and lt: "t < 2 ^ 53"
  shows "\<exists>minutos segundos milissegundos.
     tempo_do_frame (Fin t) = Inr (minutos, segundos, milissegundos)
     \<and> \<bar>of_int minutos * 60 + of_int segundos + of_int milissegundos / 1000 - t\<bar> \<le> 1 / 1000"
proof -
  from tempo_do_frame_forma [OF r t] obtain d z where
    all: "float_div_mod t 60 = (Fin d, Fin (fmod t 60)) \<and> 0 \<le> d
     \<and> binary64 ((t - of_int \<lfloor>t\<rfloor>) * 1000) = Fin z \<and> 0 \<le> z
     \<and> tempo_do_frame (Fin t) = Inr (\<lfloor>d\<rfloor>, \<lfloor>fmod t 60\<rfloor>, \<lfloor>z\<rfloor>)"
    by (elim exE)
  from all have dm: "float_div_mod t 60 = (Fin d, Fin (fmod t 60))"
    and z: "binary64 ((t - of_int \<lfloor>t\<rfloor>) * 1000) = Fin z"
    and tf: "tempo_do_frame (Fin t) = Inr (\<lfloor>d\<rfloor>, \<lfloor>fmod t 60\<rfloor>, \<lfloor>z\<rfloor>)" by simp_all
  from float_div_mod_60_exato [OF t lt] dm have d: "d = of_int \<lfloor>t / 60\<rfloor>" by simp
  note fm = fmod_60 [OF t]
  note rp = representavel_partes [OF r t]
  define x where "x = t - of_int \<lfloor>t\<rfloor>"
  define k where "k = \<lfloor>t / 60\<rfloor>"
  define K where "K = \<lfloor>x * 1000\<rfloor>"
  have x: "0 \<le> x" "x < 1" unfolding x_def by linarith+
  from binary64_vezes_mil [OF rp(2) [folded x_def] x] z [folded x_def]
  have zb: "of_int K \<le> z" "z \<le> of_int K + 1" unfolding K_def by auto
  have m1: "K \<le> \<lfloor>z\<rfloor>" using zb(1) by (simp add: le_floor_iff)
  have "z \<le> of_int (K + 1)" using zb(2) by simp
  then have "\<lfloor>z\<rfloor> \<le> \<lfloor>(of_int (K + 1) :: rat)\<rfloor>" by (rule floor_mono)
  then have m2: "\<lfloor>z\<rfloor> \<le> K + 1" by (simp only: floor_of_int)
  have "fmod t 60 = t - of_int (60 * k)" unfolding fm(1) k_def by simp
  then have "\<lfloor>fmod t 60\<rfloor> = \<lfloor>t\<rfloor> - 60 * k" by (simp only: floor_diff_of_int)
  then have s: "(of_int \<lfloor>fmod t 60\<rfloor> :: rat) = of_int \<lfloor>t\<rfloor> - 60 * of_int k" by simp
  have "\<lfloor>d\<rfloor> = k" unfolding d k_def by simp
  then have e: "of_int \<lfloor>d\<rfloor> * 60 + of_int \<lfloor>fmod t 60\<rfloor> + of_int \<lfloor>z\<rfloor> / 1000 - t
      = of_int \<lfloor>z\<rfloor> / 1000 - x"
    unfolding s x_def by simp
  have K1: "of_int K \<le> x * 1000" "x * 1000 < of_int K + 1" unfolding K_def by linarith+
  have a: "(of_int K :: rat) \<le> of_int \<lfloor>z\<rfloor>" using m1 by (simp only: of_int_le_iff)
  have "(of_int \<lfloor>z\<rfloor> :: rat) \<le> of_int (K + 1)" using m2 by (simp only: of_int_le_iff)
  then have b: "(of_int \<lfloor>z\<rfloor> :: rat) \<le> of_int K + 1" by simp
  have "\<bar>of_int \<lfloor>z\<rfloor> / 1000 - x\<bar> \<le> 1 / 1000"
    using a b K1 by (simp add: abs_le_iff field_simps) 
  then have "\<bar>of_int \<lfloor>d\<rfloor> * 60 + of_int \<lfloor>fmod t 60\<rfloor> + of_int \<lfloor>z\<rfloor> / 1000 - t\<bar> \<le> 1 / 1000"
    by (simp only: e)
  with tf show ?thesis by blast
qed

text \<open>
  Claim C2, amended. For every log line matching the pattern whose captured text denotes
  a float \<open>t\<close> below \<open>2^53\<close> seconds, the tuple reassembles to within one
  millisecond of \<open>t\<close>: \<open>|minutos * 60 + segundos + milissegundos / 1000 - t| \<le> 1/1000\<close>.
\<close>

theorem reconstrucao_dentro_de_1ms:
  assumes "re_search_pts_time linha = Some grupo" and "py_float grupo = Inr (Fin t)" and "t < 2 ^ 53"
  shows "\<exists>minutos segundos milissegundos.
     analisar_dados_log [linha] = Inr [(minutos, segundos, milissegundos)]
     \<and> \<bar>of_int minutos * 60 + of_int segundos + of_int milissegundos / 1000 - t\<bar> \<le> 1 / 1000"
proof -
  from py_float_finito [OF assms(2)] have "representavel t" "0 \<le> t" .
  from tempo_do_frame_1ms [OF this assms(3)] obtain minutos segundos milissegundos where
    "tempo_do_frame (Fin t) = Inr (minutos, segundos, milissegundos)"
    "\<bar>of_int minutos * 60 + of_int segundos + of_int milissegundos / 1000 - t\<bar> \<le> 1 / 1000"
    by blast
  with assms(1,2) show ?thesis by (simp add: analisar_dados_log_def analisar_laco_passo)
qed

subsection \<open>One tuple per matching line\<close>

lemma analisar_laco_ignora_ruido:
  "analisar_laco dados_log acc
     = analisar_laco (filter (\<lambda>linha. re_search_pts_time linha \<noteq> None) dados_log) acc"
proof (induction dados_log arbitrary: acc)
  case Nil
  then show ?case by simp
next
  case (Cons linha resto)
  show ?case
  proof (cases "re_search_pts_time linha")
    case None
    with Cons.IH show ?thesis by (simp add: analisar_laco_pula)
  next
    case (Some grupo)
    with Cons.IH show ?thesis by (simp add: analisar_laco_passo split: sum.splits)
  qed
qed

lemma analisar_laco_uma_por_linha:
  assumes "list_all (\<lambda>linha. case re_search_pts_time linha of
                None \<Rightarrow> True | Some grupo \<Rightarrow> (\<exists>t. py_float grupo = Inr (Fin t))) dados_log"
  shows "\<exists>ts. analisar_laco dados_log acc = Inr (acc @ ts)
     \<and> list_all2 (\<lambda>linha tf. \<exists>grupo t. re_search_pts_time linha = Some grupo
            \<and> py_float grupo = Inr (Fin t) \<and> tempo_do_frame (Fin t) = Inr tf)
          (filter (\<lambda>linha. re_search_pts_time linha \<noteq> None) dados_log) ts"
  using assms
proof (induction dados_log arbitrary: acc)
  case Nil
  then show ?case by simp
next
  case (Cons linha resto)
  from Cons.prems have hr: "list_all (\<lambda>linha. case re_search_pts_time linha of
                None \<Rightarrow> True | Some grupo \<Rightarrow> (\<exists>t. py_float grupo = Inr (Fin t))) resto"
    by simp
  show ?case
  proof (cases "re_search_pts_time linha")
    case None
    with Cons.IH [OF hr, of acc] show ?thesis by (simp add: analisar_laco_pula)
  next
    case (Some grupo)
    with Cons.prems obtain t where t: "py_float grupo = Inr (Fin t)" by auto
    note pf = py_float_finito [OF t]
    from tempo_do_frame_campos [OF pf] obtain tf where tf: "tempo_do_frame (Fin t) = Inr tf"
      by blast
    from Cons.IH [OF hr, of "acc @ [tf]"] obtain ts where
      ts: "analisar_laco resto (acc @ [tf]) = Inr ((acc @ [tf]) @ ts)"
      and l2: "list_all2 (\<lambda>linha tf. \<exists>grupo t. re_search_pts_time linha = Some grupo
            \<and> py_float grupo = Inr (Fin t) \<and> tempo_do_frame (Fin t) = Inr tf)
          (filter (\<lambda>linha. re_search_pts_time linha \<noteq> None) resto) ts"
      by blast
    have 1: "analisar_laco (linha # resto) acc = Inr (acc @ (tf # ts))"
      using Some t tf ts by (simp add: analisar_laco_passo)
    have 2: "list_all2 (\<lambda>linha tf. \<exists>grupo t. re_search_pts_time linha = Some grupo
            \<and> py_float grupo = Inr (Fin t) \<and> tempo_do_frame (Fin t) = Inr tf)
          (filter (\<lambda>linha. re_search_pts_time linha \<noteq> None) (linha # resto)) (tf # ts)"
      using Some t tf l2 by simp
    from 1 2 show ?thesis by blast
  qed
qed

lemma py_float_erro:
  assumes "py_float grupo = Inl e"
  shows "\<exists>msg. e = Excecao ValueError msg"
  using assms by (auto simp: py_float_def Let_def split: if_splits)

lemma tempo_do_frame_nao_finito:
  "\<exists>msg. tempo_do_frame NaoFinito = Inl (Excecao ValueError msg)"
  by (simp add: tempo_do_frame_def)

lemma analisar_laco_captura_invalida:
  assumes "\<not> list_all (\<lambda>linha. case re_search_pts_time linha of
                None \<Rightarrow> True | Some grupo \<Rightarrow> (\<exists>t. py_float grupo = Inr (Fin t))) dados_log"
  shows "\<exists>msg. analisar_laco dados_log acc = Inl (Excecao ValueError msg)"
  using assms
proof (induction dados_log arbitrary: acc)
  case Nil
  then show ?case by simp
next
  case (Cons linha resto)
  show ?case
  proof (cases "re_search_pts_time linha")
    case None
    with Cons.prems have "\<not> list_all (\<lambda>linha. case re_search_pts_time linha of
                None \<Rightarrow> True | Some grupo \<Rightarrow> (\<exists>t. py_float grupo = Inr (Fin t))) resto"
      by simp
    from Cons.IH [OF this, of acc] None show ?thesis by (simp add: analisar_laco_pula)
  next
    case (Some grupo)
    show ?thesis
    proof (cases "py_float grupo")
      case (Inl e)
      from py_float_erro [OF Inl] Some Inl show ?thesis by (auto simp: analisar_laco_passo)
    next
      case (Inr timestamp)
      show ?thesis
      proof (cases timestamp)
        case NaoFinito
        from tempo_do_frame_nao_finito obtain msg where
          "tempo_do_frame NaoFinito = Inl (Excecao ValueError msg)" by blast
        with Some Inr NaoFinito show ?thesis by (simp add: analisar_laco_passo)
      next
        case (Fin t)
        with Inr have t: "py_float grupo = Inr (Fin t)" by simp
        note pf = py_float_finito [OF t]
        from tempo_do_frame_campos [OF pf] obtain tf where tf: "tempo_do_frame (Fin t) = Inr tf"
          by blast
        from Cons.prems Some t have "\<not> list_all (\<lambda>linha. case re_search_pts_time linha of
                None \<Rightarrow> True | Some grupo \<Rightarrow> (\<exists>t. py_float grupo = Inr (Fin t))) resto"
          by simp
        from Cons.IH [OF this, of "acc @ [tf]"] Some t tf show ?thesis
          by (simp add: analisar_laco_passo)
      qed
    qed
  qed
qed

text \<open>
  Claim C8, amended. When the captured text of every matching line is a decimal literal
  (digits with at most one dot and at least one digit) whose value rounds to a finite
  float, \<open>analisar_dados_log\<close> returns without raising, with exactly one tuple per
  matching line, in input order. Otherwise, that is when the captured text of some
  matching line is no such literal or denotes a number too large for a finite float, it
  raises \<open>ValueError\<close>. In every case the lines that do not match contribute nothing
  and cannot make it raise: the result is that of the matching lines alone.
\<close>

theorem analisar_dados_log_uma_por_linha:
  "(list_all (\<lambda>linha. case re_search_pts_time linha of
                None \<Rightarrow> True | Some grupo \<Rightarrow> (\<exists>t. py_float grupo = Inr (Fin t))) dados_log
    \<longrightarrow> (\<exists>tempos_frames. analisar_dados_log dados_log = Inr tempos_frames
          \<and> list_all2 (\<lambda>linha tf. \<exists>grupo t. re_search_pts_time linha = Some grupo
                 \<and> py_float grupo = Inr (Fin t) \<and> tempo_do_frame (Fin t) = Inr tf)
               (filter (\<lambda>linha. re_search_pts_time linha \<noteq> None) dados_log) tempos_frames))
   \<and> (\<not> list_all (\<lambda>linha. case re_search_pts_time linha of
                None \<Rightarrow> True | Some grupo \<Rightarrow> (\<exists>t. py_float grupo = Inr (Fin t))) dados_log
    \<longrightarrow> (\<exists>msg. analisar_dados_log dados_log = Inl (Excecao ValueError msg)))
   \<and> analisar_dados_log dados_log
       = analisar_dados_log (filter (\<lambda>linha. re_search_pts_time linha \<noteq> None) dados_log)"
  using analisar_laco_uma_por_linha [of dados_log "[]"] analisar_laco_ignora_ruido [of dados_log "[]"]
    analisar_laco_captura_invalida [of dados_log "[]"]
  by (simp add: analisar_dados_log_def)

subsection \<open>Evaluating the reconstructor on concrete lines\<close>

lemma representavel_diadico:
  assumes "0 \<le> m" "m < 2 ^ 53" "k \<le> 1074"
  shows "representavel (of_int m / 2 ^ k)"
proof (cases "m = 0")
  case True
  then show ?thesis by simp
next
  case False
  with assms have m: "0 < m" by simp
  have x: "(of_int m :: rat) / 2 ^ k = of_int m * 2 powi (- int k)"
    by (simp add: power_int_minus field_simps)
  have "(of_int m :: rat) / 2 ^ k \<le> of_int m / 1" using m by (intro divide_left_mono) simp_all
  also have "\<dots> < of_int (2 ^ 53)" using assms(2) by (simp only: of_int_less_iff div_by_1)
  also have "\<dots> = 2 powi 53" by simp
  also have "\<dots> < limite_binary64" by (simp add: limite_p2 del: power_int_numeral)
  finally have "(of_int m :: rat) / 2 ^ k < limite_binary64" .
  from binary64_exato [OF m assms(2) _ x this] assms(3) show ?thesis
    by (simp add: representavel_def)
qed

lemma binary64_calc:
  assumes "2 powi e \<le> x" "x < 2 powi (e + 1)" "q = max (e - 52) (- 1074)"
    and "n = arredonda_par (x / 2 powi q)" "of_int n * 2 powi q < (2::rat) powi 1024"
  shows "binary64 x = Fin (of_int n * 2 powi q)"
proof -
  have pos: "0 < x" using assms(1) p2_pos [of e] by linarith
  have "expoente x = e" using assms(1,2) by (rule expoente_unique)
  then have "ultimo_bit x = q" by (simp add: ultimo_bit_def assms(3))
  then show ?thesis using assms(4,5) by (simp add: binary64_pos [OF pos] limite_binary64_def del: power_int_numeral)
qed

lemma tempo_do_frame_calc:
  assumes r: "representavel t" and t: "0 \<le> t" and lt: "t < 2 ^ 53"
    and z: "binary64 ((t - of_int \<lfloor>t\<rfloor>) * 1000) = Fin z"
  shows "tempo_do_frame (Fin t) = Inr (\<lfloor>t / 60\<rfloor>, \<lfloor>fmod t 60\<rfloor>, \<lfloor>z\<rfloor>)"
proof -
  from tempo_do_frame_forma [OF r t] obtain d z' where
    all: "float_div_mod t 60 = (Fin d, Fin (fmod t 60)) \<and> 0 \<le> d
     \<and> binary64 ((t - of_int \<lfloor>t\<rfloor>) * 1000) = Fin z' \<and> 0 \<le> z'
     \<and> tempo_do_frame (Fin t) = Inr (\<lfloor>d\<rfloor>, \<lfloor>fmod t 60\<rfloor>, \<lfloor>z'\<rfloor>)"
    by (elim exE)
  with float_div_mod_60_exato [OF t lt] z show ?thesis by simp
qed

lemma floor_rat_numeral [simp]: "\<lfloor>(numeral a / numeral b :: rat)\<rfloor> = numeral a div numeral b"
  using floor_divide_of_int_eq [of "numeral a" "numeral b", where ?'a = rat] by simp

lemma floor_rat_one_numeral [simp]: "\<lfloor>(1 / numeral b :: rat)\<rfloor> = 1 div numeral b"
  using floor_divide_of_int_eq [of 1 "numeral b", where ?'a = rat] by simp

lemmas busca_defs = digito_ou_ponto_def digito_def

lemma ex_float_025: "py_float (lit ''0.25'') = Inr (Fin (1 / 4))"
proof -
  have "binary64 (1 / 4) = Fin (1 / 4)"
    using representavel_diadico [of 1 2] by (simp add: representavel_def)
  then show ?thesis by (simp add: py_float_def digito_def valor_decimal_def)
qed

lemma ex_float_15: "py_float (lit ''1.5'') = Inr (Fin (3 / 2))"
proof -
  have "binary64 (3 / 2) = Fin (3 / 2)"
    using representavel_diadico [of 3 1] by (simp add: representavel_def)
  then show ?thesis by (simp add: py_float_def digito_def valor_decimal_def)
qed

lemma ex_tempo_025: "tempo_do_frame (Fin (1 / 4)) = Inr (0, 0, 250)"
proof -
  have r: "representavel (1 / 4)" using representavel_diadico [of 1 2] by simp
  have "representavel (of_int 250)" by (rule representavel_int) simp_all
  then have z: "binary64 ((1 / 4 - of_int \<lfloor>1 / 4 :: rat\<rfloor>) * 1000) = Fin 250"
    by (simp add: representavel_def)
  from tempo_do_frame_calc [OF r _ _ z] show ?thesis by (simp add: fmod_def)
qed

lemma ex_tempo_15: "tempo_do_frame (Fin (3 / 2)) = Inr (0, 1, 500)"
proof -
  have r: "representavel (3 / 2)" using representavel_diadico [of 3 1] by simp
  have "representavel (of_int 500)" by (rule representavel_int) simp_all
  then have z: "binary64 ((3 / 2 - of_int \<lfloor>3 / 2 :: rat\<rfloor>) * 1000) = Fin 500"
    by (simp add: representavel_def)
  from tempo_do_frame_calc [OF r _ _ z] show ?thesis by (simp add: fmod_def)
qed

lemma ex_busca_025: "re_search_pts_time (lit ''n:   1 pts:   3200 pts_time:0.25 pos: 1'') = Some (lit ''0.25'')"
  by (simp add: busca_defs)

lemma ex_busca_ruido: "re_search_pts_time (lit ''frame=   10 fps=0.0 q=-0.0'') = None"
  by (simp add: busca_defs)

lemma ex_busca_15: "re_search_pts_time (lit ''pts_time:1.5'') = Some (lit ''1.5'')"
  by (simp add: busca_defs)

lemma ex_analisar:
  "analisar_dados_log [lit ''n:   1 pts:   3200 pts_time:0.25 pos: 1'', lit ''frame=   10 fps=0.0 q=-0.0'',
      lit ''pts_time:1.5''] = Inr [(0, 0, 250), (0, 1, 500)]"
  unfolding analisar_dados_log_def
  by (simp only: analisar_laco_passo [OF ex_busca_025] analisar_laco_pula [OF ex_busca_ruido]
      analisar_laco_passo [OF ex_busca_15] ex_float_025 ex_float_15 ex_tempo_025 ex_tempo_15
      analisar_laco.simps(1) sum.case append_Nil append_Cons)

lemma ex_busca_123: "re_search_pts_time (lit ''pts_time:1.2.3'') = Some (lit ''1.2.3'')"
  by (simp add: busca_defs)

lemma ex_busca_025b: "re_search_pts_time (lit ''pts_time:0.25'') = Some (lit ''0.25'')"
  by (simp add: busca_defs)

lemma ex_float_123:
  "py_float (lit ''1.2.3'')
     = Inl (Excecao ValueError (lit ''could not convert string to float: '' @ [39] @ lit ''1.2.3'' @ [39]))"
  by (simp add: py_float_def digito_def)

text \<open>
  A capture of 310 digits is a literal that \<open>float\<close> accepts, with an infinity for
  value: the floor division gives a NaN and \<open>int\<close> raises.
\<close>

lemma binary64_grande:
  assumes "limite_binary64 \<le> x"
  shows "binary64 x = NaoFinito"
proof -
  have l0: "0 < limite_binary64" by (simp add: limite_binary64_def del: power_int_numeral)
  with assms have pos: "0 < x" by linarith
  let ?e = "expoente x"
  note eb = expoente_bounds [OF pos]
  from assms eb(2) have "limite_binary64 < 2 powi (?e + 1)" by linarith
  then have "(2::rat) powi 1024 < 2 powi (?e + 1)" by (simp only: limite_binary64_def)
  then have "1024 < ?e + 1" by (simp only: p2_less_iff)
  then have e: "1024 \<le> ?e" by simp
  then have q: "ultimo_bit x = ?e - 52" by (simp add: ultimo_bit_def)
  have "(2::rat) powi 52 = 2 powi ?e / 2 powi (?e - 52)"
    using p2_diff [of ?e "?e - 52"] by simp
  also have "\<dots> \<le> x / 2 powi (?e - 52)" using eb(1) by (intro divide_right_mono) simp_all
  finally have "(2::rat) powi 52 \<le> x / 2 powi (?e - 52)" .
  then have "(of_int (2 ^ 52) :: rat) \<le> x / 2 powi (?e - 52)" by simp
  then have "2 ^ 52 \<le> \<lfloor>x / 2 powi (?e - 52)\<rfloor>" by (simp only: le_floor_iff)
  with arredonda_par_floor(1) [of "x / 2 powi (?e - 52)"]
  have "2 ^ 52 \<le> arredonda_par (x / 2 powi (?e - 52))" by linarith
  then have "(of_int (2 ^ 52) :: rat) \<le> of_int (arredonda_par (x / 2 powi (?e - 52)))"
    by (simp only: of_int_le_iff)
  then have "(2::rat) powi 52 \<le> of_int (arredonda_par (x / 2 powi (?e - 52)))" by simp
  then have "(2::rat) powi 52 * 2 powi (?e - 52)
      \<le> of_int (arredonda_par (x / 2 powi (?e - 52))) * 2 powi (?e - 52)"
    by (intro mult_right_mono) simp_all
  moreover have "(2::rat) powi 52 * 2 powi (?e - 52) = 2 powi ?e"
    using p2_add [of 52 "?e - 52"] by simp
  moreover have "limite_binary64 \<le> 2 powi ?e"
    unfolding limite_binary64_def using e by (simp only: p2_le_iff)
  ultimately have "limite_binary64 \<le> of_int (arredonda_par (x / 2 powi (?e - 52))) * 2 powi (?e - 52)"
    by linarith
  then show ?thesis unfolding binary64_pos [OF pos] q by simp
qed

lemma valor_decimal_um_e_zeros: "valor_decimal (49 # replicate n 48) = 10 ^ n"
proof -
  have "foldl (\<lambda>a c. 10 * a + (c - 48)) a (replicate n 48) = a * 10 ^ n" for a :: nat
    by (induction n arbitrary: a) simp_all
  then show ?thesis by (simp add: valor_decimal_def)
qed

lemma ex_float_grande: "py_float (49 # replicate 309 48) = Inr NaoFinito"
proof -
  have t: "takeWhile digito (49 # replicate 309 48) = 49 # replicate 309 48"
    by (simp add: digito_def)
  have d: "dropWhile digito (49 # replicate 309 48) = []"
    by (simp add: digito_def)
  have "(2::rat) powi 1024 \<le> 10 ^ 309" by simp
  then have "limite_binary64 \<le> of_nat (10 ^ 309)" by (simp add: limite_binary64_def del: power_int_numeral)
  from binary64_grande [OF this] show ?thesis
    unfolding py_float_def Let_def t d valor_decimal_um_e_zeros by simp
qed

lemma ex_busca_grande:
  "re_search_pts_time (lit ''pts_time:'' @ 49 # replicate 309 48) = Some (49 # replicate 309 48)"
  by (simp add: busca_defs)

lemma ex_analisar_grande:
  "analisar_dados_log [lit ''pts_time:'' @ 49 # replicate 309 48]
     = Inl (Excecao ValueError (lit ''cannot convert float NaN to integer''))"
  unfolding analisar_dados_log_def
  by (simp only: analisar_laco_passo [OF ex_busca_grande] ex_float_grande sum.case)
     (simp add: tempo_do_frame_def)

text \<open>
  The pattern \<open>[0-9.]+\<close> also captures text that is no number. The line
  \<open>pts_time:1.2.3\<close> matches, \<open>float('1.2.3')\<close> raises \<open>ValueError\<close>, and the
  \<open>except\<close> clause raises it again: no tuple is returned for the matching lines, so the
  statement of claim C8 fails there.
\<close>

theorem analisar_dados_log_captura_invalida:
  "re_search_pts_time (lit ''pts_time:1.2.3'') = Some (lit ''1.2.3'')
   \<and> analisar_dados_log [lit ''pts_time:0.25'', lit ''pts_time:1.2.3'']
       = Inl (Excecao ValueError (lit ''could not convert string to float: '' @ [39] @ lit ''1.2.3'' @ [39]))"
proof -
  have "analisar_dados_log [lit ''pts_time:0.25'', lit ''pts_time:1.2.3'']
       = Inl (Excecao ValueError (lit ''could not convert string to float: '' @ [39] @ lit ''1.2.3'' @ [39]))"
    unfolding analisar_dados_log_def
    by (simp only: analisar_laco_passo [OF ex_busca_025b] analisar_laco_passo [OF ex_busca_123]
        ex_float_025 ex_float_123 ex_tempo_025 sum.case append_Nil)
  with ex_busca_123 show ?thesis by (rule conjI)
qed

text \<open>
  For large timestamps the floating-point floor division loses the integer part: at
  \<open>t = 2^62\<close> the quotient \<open>t / 60\<close> is rounded to a multiple of 16 and the
  reassembled value is 60 seconds away from \<open>t\<close>. The statement of claim C2, for every
  \<open>t \<ge> 0\<close>, fails there.
\<close>

lemma ex_busca_2_62:
  "re_search_pts_time (lit ''pts_time:4611686018427387904'') = Some (lit ''4611686018427387904'')"
  by (simp add: busca_defs)

lemma ex_binary64_2_62: "binary64 4611686018427387904 = Fin 4611686018427387904"
  using binary64_exato [of "2 ^ 52" 10 4611686018427387904]
  by (simp add: limite_binary64_def)

lemma ex_float_2_62: "py_float (lit ''4611686018427387904'') = Inr (Fin 4611686018427387904)"
  by (simp add: py_float_def digito_def valor_decimal_def ex_binary64_2_62)

lemma ex_binary64_sub: "binary64 (4611686018427387904 - 4) = Fin 4611686018427387904"
  using binary64_calc [of 61 "4611686018427387904 - 4" 9 "2 ^ 53"]
  by (simp add: arredonda_par_def)

lemma ex_binary64_div: "binary64 (4611686018427387904 / 60) = Fin 76861433640456464"
  using binary64_calc [of 56 "4611686018427387904 / 60" 4 4803839602528529]
  by (simp add: arredonda_par_def)

lemma ex_div_mod_2_62: "float_div_mod 4611686018427387904 60 = (Fin 76861433640456464, Fin 4)"
proof -
  have f: "fmod 4611686018427387904 60 = 4" by (simp add: fmod_def truncar_def)
  have s: "binary64 (4611686018427387904 - 4) = Fin 4611686018427387904" by (rule ex_binary64_sub)
  show ?thesis
    unfolding float_div_mod_def Let_def f float_sub.simps s float_div.simps ex_binary64_div
    by simp
qed

lemma ex_tempo_2_62: "tempo_do_frame (Fin 4611686018427387904) = Inr (76861433640456464, 4, 0)"
  unfolding tempo_do_frame_def float_floordiv.simps float_mod.simps
  using ex_div_mod_2_62 ex_binary64_2_62 by (simp add: float_de_int_def)

text \<open>The counterexample to C2 as stated, at the log line \<open>pts_time:4611686018427387904\<close>.\<close>

theorem reconstrucao_falha_em_2_62:
  "re_search_pts_time (lit ''pts_time:4611686018427387904'') = Some (lit ''4611686018427387904'')
   \<and> py_float (lit ''4611686018427387904'') = Inr (Fin 4611686018427387904)
   \<and> analisar_dados_log [lit ''pts_time:4611686018427387904''] = Inr [(76861433640456464, 4, 0)]
   \<and> \<bar>of_int 76861433640456464 * 60 + of_int 4 + of_int 0 / 1000 - (4611686018427387904::rat)\<bar> = 60"
proof -
  have "analisar_dados_log [lit ''pts_time:4611686018427387904''] = Inr [(76861433640456464, 4, 0)]"
    unfolding analisar_dados_log_def
    by (simp only: analisar_laco_passo [OF ex_busca_2_62] ex_float_2_62 ex_tempo_2_62
        analisar_laco.simps(1) sum.case append_Nil)
  moreover have "\<bar>of_int 76861433640456464 * 60 + of_int 4 + of_int 0 / 1000 - (4611686018427387904::rat)\<bar> = 60"
    by simp
  ultimately show ?thesis using ex_busca_2_62 ex_float_2_62 by blast
qed

text \<open>The amended statement of C2 at the line \<open>pts_time:1.5\<close>.\<close>

theorem reconstrucao_dentro_de_1ms_witness:
  "re_search_pts_time (lit ''pts_time:1.5'') = Some (lit ''1.5'')
   \<and> py_float (lit ''1.5'') = Inr (Fin (3 / 2))
   \<and> (3 / 2 :: rat) < 2 ^ 53
   \<and> analisar_dados_log [lit ''pts_time:1.5''] = Inr [(0, 1, 500)]
   \<and> \<bar>of_int 0 * 60 + of_int 1 + of_int 500 / 1000 - (3 / 2 :: rat)\<bar> \<le> 1 / 1000"
proof -
  have lt: "(3 / 2 :: rat) < 2 ^ 53" by simp
  have a: "analisar_dados_log [lit ''pts_time:1.5''] = Inr [(0, 1, 500)]"
    unfolding analisar_dados_log_def
    by (simp only: analisar_laco_passo [OF ex_busca_15] ex_float_15 ex_tempo_15
        analisar_laco.simps(1) sum.case append_Nil)
  from reconstrucao_dentro_de_1ms [OF ex_busca_15 ex_float_15 lt] a
  have "\<bar>of_int 0 * 60 + of_int 1 + of_int 500 / 1000 - (3 / 2 :: rat)\<bar> \<le> 1 / 1000"
    by auto
  with ex_busca_15 ex_float_15 lt a show ?thesis by blast
qed

text \<open>The theorem of C10 at \<open>t = 1.5\<close> and at a three-line log.\<close>

theorem tempos_dentro_dos_campos_witness:
  "representavel (3 / 2) \<and> (0::rat) \<le> 3 / 2
   \<and> tempo_do_frame (Fin (3 / 2)) = Inr (0, 1, 500)
   \<and> analisar_dados_log [lit ''n:   1 pts:   3200 pts_time:0.25 pos: 1'', lit ''frame=   10 fps=0.0 q=-0.0'',
      lit ''pts_time:1.5''] = Inr [(0, 0, 250), (0, 1, 500)]
   \<and> list_all (\<lambda>(minutos, segundos, milissegundos).
           (0::int) \<le> minutos \<and> (0::int) \<le> segundos \<and> segundos \<le> 59 \<and> (0::int) \<le> milissegundos \<and> milissegundos \<le> 999)
          [(0, 0, 250), (0, 1, 500)]"
proof -
  have r: "representavel (3 / 2)" using representavel_diadico [of 3 1] by simp
  note t = tempos_dentro_dos_campos [of "3 / 2"
      "[lit ''n:   1 pts:   3200 pts_time:0.25 pos: 1'', lit ''frame=   10 fps=0.0 q=-0.0'', lit ''pts_time:1.5'']"
      "[(0, 0, 250), (0, 1, 500)]"]
  from t ex_analisar have "list_all (\<lambda>(minutos, segundos, milissegundos).
           (0::int) \<le> minutos \<and> (0::int) \<le> segundos \<and> segundos \<le> 59 \<and> (0::int) \<le> milissegundos \<and> milissegundos \<le> 999)
          [(0, 0, 250), (0, 1, 500)]" by blast
  with r ex_tempo_15 ex_analisar show ?thesis by simp
qed

text \<open>
  The amended statement of C8 at a three-line log with one line of noise, and at a log
  whose second line captures \<open>1.2.3\<close>.
\<close>

theorem analisar_dados_log_uma_por_linha_witness:
  "list_all (\<lambda>linha. case re_search_pts_time linha of
                None \<Rightarrow> True | Some grupo \<Rightarrow> (\<exists>t. py_float grupo = Inr (Fin t)))
      [lit ''n:   1 pts:   3200 pts_time:0.25 pos: 1'', lit ''frame=   10 fps=0.0 q=-0.0'', lit ''pts_time:1.5'']
   \<and> analisar_dados_log [lit ''n:   1 pts:   3200 pts_time:0.25 pos: 1'', lit ''frame=   10 fps=0.0 q=-0.0'',
      lit ''pts_time:1.5''] = Inr [(0, 0, 250), (0, 1, 500)]
   \<and> filter (\<lambda>linha. re_search_pts_time linha \<noteq> None)
        [lit ''n:   1 pts:   3200 pts_time:0.25 pos: 1'', lit ''frame=   10 fps=0.0 q=-0.0'', lit ''pts_time:1.5'']
      = [lit ''n:   1 pts:   3200 pts_time:0.25 pos: 1'', lit ''pts_time:1.5'']
   \<and> list_all2 (\<lambda>linha tf. \<exists>grupo t. re_search_pts_time linha = Some grupo
                 \<and> py_float grupo = Inr (Fin t) \<and> tempo_do_frame (Fin t) = Inr tf)
        (filter (\<lambda>linha. re_search_pts_time linha \<noteq> None)
           [lit ''n:   1 pts:   3200 pts_time:0.25 pos: 1'', lit ''frame=   10 fps=0.0 q=-0.0'', lit ''pts_time:1.5''])
        [(0, 0, 250), (0, 1, 500)]
   \<and> \<not> list_all (\<lambda>linha. case re_search_pts_time linha of
                None \<Rightarrow> True | Some grupo \<Rightarrow> (\<exists>t. py_float grupo = Inr (Fin t)))
      [lit ''pts_time:0.25'', lit ''pts_time:1.2.3'']
   \<and> (\<exists>msg. analisar_dados_log [lit ''pts_time:0.25'', lit ''pts_time:1.2.3'']
         = Inl (Excecao ValueError msg))"
proof -
  let ?d = "[lit ''n:   1 pts:   3200 pts_time:0.25 pos: 1'', lit ''frame=   10 fps=0.0 q=-0.0'', lit ''pts_time:1.5'']"
  have h: "list_all (\<lambda>linha. case re_search_pts_time linha of
                None \<Rightarrow> True | Some grupo \<Rightarrow> (\<exists>t. py_float grupo = Inr (Fin t))) ?d"
    by (simp only: list.pred_inject ex_busca_025 ex_busca_ruido ex_busca_15 option.case
        ex_float_025 ex_float_15 simp_thms) blast
  have f: "filter (\<lambda>linha. re_search_pts_time linha \<noteq> None) ?d
      = [lit ''n:   1 pts:   3200 pts_time:0.25 pos: 1'', lit ''pts_time:1.5'']"
    by (simp only: filter.simps ex_busca_025 ex_busca_ruido ex_busca_15 option.distinct
        simp_thms if_True if_False)
  from analisar_dados_log_uma_por_linha [of ?d] h obtain tempos where
    a: "analisar_dados_log ?d = Inr tempos"
    and l: "list_all2 (\<lambda>linha tf. \<exists>grupo t. re_search_pts_time linha = Some grupo
                 \<and> py_float grupo = Inr (Fin t) \<and> tempo_do_frame (Fin t) = Inr tf)
        (filter (\<lambda>linha. re_search_pts_time linha \<noteq> None) ?d) tempos"
    by blast
  from a ex_analisar have "Inr tempos = (Inr [(0, 0, 250), (0, 1, 500)] :: excecao + tempo_frame list)"
    by (rule trans [OF sym])
  then have "tempos = [(0, 0, 250), (0, 1, 500)]" by (simp only: sum.inject)
  with l have "list_all2 (\<lambda>linha tf. \<exists>grupo t. re_search_pts_time linha = Some grupo
                 \<and> py_float grupo = Inr (Fin t) \<and> tempo_do_frame (Fin t) = Inr tf)
        (filter (\<lambda>linha. re_search_pts_time linha \<noteq> None) ?d) [(0, 0, 250), (0, 1, 500)]"
    by (simp only:)
  with h ex_analisar f have primeira: "list_all (\<lambda>linha. case re_search_pts_time linha of
                None \<Rightarrow> True | Some grupo \<Rightarrow> (\<exists>t. py_float grupo = Inr (Fin t))) ?d
   \<and> analisar_dados_log ?d = Inr [(0, 0, 250), (0, 1, 500)]
   \<and> filter (\<lambda>linha. re_search_pts_time linha \<noteq> None) ?d
      = [lit ''n:   1 pts:   3200 pts_time:0.25 pos: 1'', lit ''pts_time:1.5'']
   \<and> list_all2 (\<lambda>linha tf. \<exists>grupo t. re_search_pts_time linha = Some grupo
                 \<and> py_float grupo = Inr (Fin t) \<and> tempo_do_frame (Fin t) = Inr tf)
        (filter (\<lambda>linha. re_search_pts_time linha \<noteq> None) ?d) [(0, 0, 250), (0, 1, 500)]"
    by blast
  have n: "\<not> list_all (\<lambda>linha. case re_search_pts_time linha of
                None \<Rightarrow> True | Some grupo \<Rightarrow> (\<exists>t. py_float grupo = Inr (Fin t)))
      [lit ''pts_time:0.25'', lit ''pts_time:1.2.3'']"
    unfolding list.pred_inject ex_busca_025b ex_busca_123 option.case ex_float_123 by simp
  with analisar_dados_log_uma_por_linha [of "[lit ''pts_time:0.25'', lit ''pts_time:1.2.3'']"]
  have "\<exists>msg. analisar_dados_log [lit ''pts_time:0.25'', lit ''pts_time:1.2.3'']
         = Inl (Excecao ValueError msg)"
    by blast
  with primeira n show ?thesis by blast
qed

section \<open>Properties of the legibility classifier\<close>

text \<open>
  Evaluation of the cleanup on two inputs: one that leaves the words \<open>abc\<close>, \<open>de\<close> and
  \<open>fgh\<close>, and one that leaves a word of four letters.
\<close>

lemmas texto_defs = limpar_texto_def remover_nao_alfabeticos_def colapsar_espacos_def py_strip_def
  py_split_def py_isspace_def letra_alvo_def

lemma ex_limpar: "limpar_texto (lit ''  ab12c  de!! fgh  '') = lit ''abc de fgh''"
  by (simp add: texto_defs)

lemma ex_split: "py_split (lit ''abc de fgh'') = [lit ''abc'', lit ''de'', lit ''fgh'']"
  by (simp add: texto_defs)

lemma ex_sem_longas:
  "filter (\<lambda>palavra. 4 \<le> length palavra) (py_split (limpar_texto (lit ''  ab12c  de!! fgh  ''))) = []"
  unfolding ex_limpar ex_split by simp

lemma ex_limpar_longa: "limpar_texto (lit ''  ab12c  de!! fghi  '') = lit ''abc de fghi''"
  by (simp add: texto_defs)

lemma ex_split_longa: "py_split (lit ''abc de fghi'') = [lit ''abc'', lit ''de'', lit ''fghi'']"
  by (simp add: texto_defs)

lemma texto_legivel_aceita: "texto_legivel (\<lambda>s. Inr (lit ''pt'')) (lit ''  ab12c  de!! fghi  '')"
  unfolding texto_legivel_def ex_limpar_longa Let_def ex_split_longa by simp

text \<open>
  Claim C7. If the text, after the removal of every character that is neither a letter of
  the target alphabet nor whitespace, the collapse of whitespace and \<open>strip\<close>, has no
  word of four or more characters, then \<open>texto_legivel\<close> returns \<open>False\<close>, whatever the
  language detector answers for it (a language or an exception).
\<close>

theorem texto_legivel_sem_palavra_longa:
  assumes "filter (\<lambda>palavra. 4 \<le> length palavra) (py_split (limpar_texto texto)) = []"
  shows "\<not> texto_legivel detect texto"
  using assms by (simp add: texto_legivel_def Let_def split: sum.splits)

text \<open>
  The theorem at the text \<open>"  ab12c  de!! fgh  "\<close> with a detector that answers \<open>pt\<close>: the
  cleanup leaves three words of at most three letters and the text is rejected. With
  \<open>fghi\<close> for \<open>fgh\<close> the same detector accepts (\<open>texto_legivel_aceita\<close>), so the
  rejection comes from the word length.
\<close>

theorem texto_legivel_sem_palavra_longa_witness:
  "filter (\<lambda>palavra. 4 \<le> length palavra) (py_split (limpar_texto (lit ''  ab12c  de!! fgh  ''))) = []
   \<and> \<not> texto_legivel (\<lambda>s. Inr (lit ''pt'')) (lit ''  ab12c  de!! fgh  '')"
  using texto_legivel_sem_palavra_longa [OF ex_sem_longas, of "\<lambda>s. Inr (lit ''pt'')"] ex_sem_longas
  by (rule conjI [rotated])
section \<open>Properties of the Transcription Worker\<close>

subsection \<open>The loop over the segments\<close>

text \<open>
  The files of one run have different names, and a write to a file that is open appends
  to it. So the loop appends one subtitle block and one transcript line per segment to
  each of its files, puts one progress fraction per segment on the queue and leaves
  every other file as it was.
\<close>

lemma caminhos_distintos:
  "caminho_srt b \<noteq> caminho_fala_cron b"
  "caminho_srt_en b \<noteq> caminho_fala_cron_en b"
  "caminho_srt_en b \<noteq> caminho_srt b"
  "caminho_srt_en b \<noteq> caminho_fala_cron b"
  "caminho_fala_cron_en b \<noteq> caminho_srt b"
  "caminho_fala_cron_en b \<noteq> caminho_fala_cron b"
  by (simp_all add: caminho_srt_def caminho_fala_cron_def caminho_srt_en_def caminho_fala_cron_en_def)

lemma escrever_srt_existente:
  assumes "fs caminho = Some c"
  shows "escrever_srt caminho n (seg_start seg) (seg_end seg) txt fs
     = fs(caminho \<mapsto> c @ bloco_legenda n seg txt)"
  using assms by (simp add: escrever_srt_def escrever_def bloco_legenda_def)

lemma escrever_fala_existente:
  assumes "fs caminho = Some c"
  shows "escrever_fala caminho (seg_start seg) txt fs = fs(caminho \<mapsto> c @ linha_fala seg txt)"
  using assms by (simp add: escrever_fala_def escrever_def linha_fala_def)

lemma conteudo_srt_Nil [simp]: "conteudo_srt n [] = []"
  by (simp add: conteudo_srt_def)

lemma conteudo_srt_Cons:
  "conteudo_srt n ((seg, txt) # pares) = bloco_legenda n seg txt @ conteudo_srt (Suc n) pares"
  by (simp add: conteudo_srt_def)

lemma conteudo_fala_Nil [simp]: "conteudo_fala [] = []"
  by (simp add: conteudo_fala_def)

lemma conteudo_fala_Cons:
  "conteudo_fala ((seg, txt) # pares) = linha_fala seg txt @ conteudo_fala pares"
  by (simp add: conteudo_fala_def)

lemma progressos_0 [simp]: "progressos n 0 total_segments = []"
  by (simp add: progressos_def)

lemma progressos_Suc:
  "progressos n (Suc k) total_segments
     = Progresso (int_truediv (int n) (int total_segments)) # progressos (Suc n) k total_segments"
proof -
  have "[n..<n + Suc k] = n # [Suc n..<Suc n + k]" by (simp add: upt_conv_Cons)
  then show ?thesis unfolding progressos_def by simp
qed

lemma laco_segmentos_outro_idioma:
  assumes "fs (caminho_srt b) = Some c1" and "fs (caminho_fala_cron b) = Some c2"
  shows "laco_segmentos False trad b total_segments segs (fs, fila, n)
     = ((fs(caminho_srt b \<mapsto> c1 @ conteudo_srt n (map (\<lambda>seg. (seg, py_strip (seg_text seg))) segs),
            caminho_fala_cron b \<mapsto> c2 @ conteudo_fala (map (\<lambda>seg. (seg, py_strip (seg_text seg))) segs)),
         fila @ progressos n (length segs) total_segments,
         n + length segs), None)"
  using assms
proof (induction segs arbitrary: fs fila n c1 c2)
  case Nil
  have m: "fs(caminho_srt b \<mapsto> c1, caminho_fala_cron b \<mapsto> c2) = fs"
    using Nil by (intro ext) simp
  show ?case
    unfolding laco_segmentos.simps list.map conteudo_srt_Nil conteudo_fala_Nil append_Nil2 m
    by simp
next
  case (Cons seg resto)
  let ?txt = "py_strip (seg_text seg)"
  let ?fs1 = "fs(caminho_srt b \<mapsto> c1 @ bloco_legenda n seg ?txt)"
  let ?fs2 = "?fs1(caminho_fala_cron b \<mapsto> c2 @ linha_fala seg ?txt)"
  have e1: "escrever_srt (caminho_srt b) n (seg_start seg) (seg_end seg) ?txt fs = ?fs1"
    using Cons.prems(1) by (rule escrever_srt_existente)
  have "?fs1 (caminho_fala_cron b) = Some c2"
    using Cons.prems(2) caminhos_distintos(1) [of b] by simp
  then have e2: "escrever_fala (caminho_fala_cron b) (seg_start seg) ?txt ?fs1 = ?fs2"
    by (rule escrever_fala_existente)
  have a: "?fs2 (caminho_srt b) = Some (c1 @ bloco_legenda n seg ?txt)"
    using caminhos_distintos(1) [of b] by simp
  have b: "?fs2 (caminho_fala_cron b) = Some (c2 @ linha_fala seg ?txt)" by simp
  have passo: "laco_segmentos False trad b total_segments (seg # resto) (fs, fila, n)
      = laco_segmentos False trad b total_segments resto
          (?fs2, fila @ [Progresso (int_truediv (int n) (int total_segments))], n + 1)"
    by (simp add: e1 e2 Let_def)
  let ?pares = "map (\<lambda>seg. (seg, py_strip (seg_text seg))) resto"
  note ih = Cons.IH [OF a b, of "fila @ [Progresso (int_truediv (int n) (int total_segments))]" "n + 1"]
  have 1: "?fs2(caminho_srt b \<mapsto> (c1 @ bloco_legenda n seg ?txt) @ conteudo_srt (n + 1) ?pares,
               caminho_fala_cron b \<mapsto> (c2 @ linha_fala seg ?txt) @ conteudo_fala ?pares)
      = fs(caminho_srt b \<mapsto> c1 @ conteudo_srt n (map (\<lambda>seg. (seg, py_strip (seg_text seg))) (seg # resto)),
           caminho_fala_cron b \<mapsto> c2 @ conteudo_fala (map (\<lambda>seg. (seg, py_strip (seg_text seg))) (seg # resto)))"
    by (intro ext) (simp add: conteudo_srt_Cons conteudo_fala_Cons)
  have 2: "(fila @ [Progresso (int_truediv (int n) (int total_segments))]) @ progressos (n + 1) (length resto) total_segments
      = fila @ progressos n (length (seg # resto)) total_segments"
    by (simp add: progressos_Suc)
  have 3: "n + 1 + length resto = n + length (seg # resto)" by simp
  show ?case unfolding passo ih 1 2 3 ..
qed

lemma laco_segmentos_ingles:
  assumes "fs (caminho_srt_en b) = Some c1" and "fs (caminho_fala_cron_en b) = Some c2"
    and "fs (caminho_srt b) = Some c3" and "fs (caminho_fala_cron b) = Some c4"
    and "map (\<lambda>seg. trad (py_strip (seg_text seg))) segs = map Inr traduzidos"
  shows "laco_segmentos True trad b total_segments segs (fs, fila, n)
     = ((fs(caminho_srt_en b \<mapsto> c1 @ conteudo_srt n (map (\<lambda>seg. (seg, py_strip (seg_text seg))) segs),
            caminho_fala_cron_en b \<mapsto> c2 @ conteudo_fala (map (\<lambda>seg. (seg, py_strip (seg_text seg))) segs),
            caminho_srt b \<mapsto> c3 @ conteudo_srt n (zip segs traduzidos),
            caminho_fala_cron b \<mapsto> c4 @ conteudo_fala (zip segs traduzidos)),
         fila @ progressos n (length segs) total_segments,
         n + length segs), None)"
  using assms
proof (induction segs arbitrary: fs fila n c1 c2 c3 c4 traduzidos)
  case Nil
  have m: "fs(caminho_srt_en b \<mapsto> c1, caminho_fala_cron_en b \<mapsto> c2,
              caminho_srt b \<mapsto> c3, caminho_fala_cron b \<mapsto> c4) = fs"
    using Nil by (intro ext) simp
  show ?case
    unfolding laco_segmentos.simps list.map zip_Nil conteudo_srt_Nil conteudo_fala_Nil append_Nil2 m
    by simp
next
  case (Cons seg resto)
  from Cons.prems(5) obtain tr trs where tr: "traduzidos = tr # trs"
    and t1: "trad (py_strip (seg_text seg)) = Inr tr"
    and ts: "map (\<lambda>seg. trad (py_strip (seg_text seg))) resto = map Inr trs"
    by (cases traduzidos) auto
  note d = caminhos_distintos [of b]
  let ?txt = "py_strip (seg_text seg)"
  let ?fs1 = "fs(caminho_srt_en b \<mapsto> c1 @ bloco_legenda n seg ?txt)"
  let ?fs2 = "?fs1(caminho_fala_cron_en b \<mapsto> c2 @ linha_fala seg ?txt)"
  let ?fs3 = "?fs2(caminho_srt b \<mapsto> c3 @ bloco_legenda n seg tr)"
  let ?fs4 = "?fs3(caminho_fala_cron b \<mapsto> c4 @ linha_fala seg tr)"
  have e1: "escrever_srt (caminho_srt_en b) n (seg_start seg) (seg_end seg) ?txt fs = ?fs1"
    using Cons.prems(1) by (rule escrever_srt_existente)
  have "?fs1 (caminho_fala_cron_en b) = Some c2" using Cons.prems(2) d by simp
  then have e2: "escrever_fala (caminho_fala_cron_en b) (seg_start seg) ?txt ?fs1 = ?fs2"
    by (rule escrever_fala_existente)
  have "?fs2 (caminho_srt b) = Some c3" using Cons.prems(3) d by simp
  then have e3: "escrever_srt (caminho_srt b) n (seg_start seg) (seg_end seg) tr ?fs2 = ?fs3"
    by (rule escrever_srt_existente)
  have "?fs3 (caminho_fala_cron b) = Some c4" using Cons.prems(4) d by simp
  then have e4: "escrever_fala (caminho_fala_cron b) (seg_start seg) tr ?fs3 = ?fs4"
    by (rule escrever_fala_existente)
  have a1: "?fs4 (caminho_srt_en b) = Some (c1 @ bloco_legenda n seg ?txt)" using d by simp
  have a2: "?fs4 (caminho_fala_cron_en b) = Some (c2 @ linha_fala seg ?txt)" using d by simp
  have a3: "?fs4 (caminho_srt b) = Some (c3 @ bloco_legenda n seg tr)" using d by simp
  have a4: "?fs4 (caminho_fala_cron b) = Some (c4 @ linha_fala seg tr)" by simp
  have passo: "laco_segmentos True trad b total_segments (seg # resto) (fs, fila, n)
      = laco_segmentos True trad b total_segments resto
          (?fs4, fila @ [Progresso (int_truediv (int n) (int total_segments))], n + 1)"
    by (simp add: e1 e2 e3 e4 t1 Let_def)
  let ?pares = "map (\<lambda>seg. (seg, py_strip (seg_text seg))) resto"
  note ih = Cons.IH [OF a1 a2 a3 a4 ts, of "fila @ [Progresso (int_truediv (int n) (int total_segments))]" "n + 1"]
  have 1: "?fs4(caminho_srt_en b \<mapsto> (c1 @ bloco_legenda n seg ?txt) @ conteudo_srt (n + 1) ?pares,
               caminho_fala_cron_en b \<mapsto> (c2 @ linha_fala seg ?txt) @ conteudo_fala ?pares,
               caminho_srt b \<mapsto> (c3 @ bloco_legenda n seg tr) @ conteudo_srt (n + 1) (zip resto trs),
               caminho_fala_cron b \<mapsto> (c4 @ linha_fala seg tr) @ conteudo_fala (zip resto trs))
      = fs(caminho_srt_en b \<mapsto> c1 @ conteudo_srt n (map (\<lambda>seg. (seg, py_strip (seg_text seg))) (seg # resto)),
           caminho_fala_cron_en b \<mapsto> c2 @ conteudo_fala (map (\<lambda>seg. (seg, py_strip (seg_text seg))) (seg # resto)),
           caminho_srt b \<mapsto> c3 @ conteudo_srt n (zip (seg # resto) traduzidos),
           caminho_fala_cron b \<mapsto> c4 @ conteudo_fala (zip (seg # resto) traduzidos))"
    unfolding tr by (intro ext) (simp add: conteudo_srt_Cons conteudo_fala_Cons)
  have 2: "(fila @ [Progresso (int_truediv (int n) (int total_segments))]) @ progressos (n + 1) (length resto) total_segments
      = fila @ progressos n (length (seg # resto)) total_segments"
    by (simp add: progressos_Suc)
  have 3: "n + 1 + length resto = n + length (seg # resto)" by simp
  show ?case unfolding passo ih 1 2 3 ..
qed

lemma transcrever_outro_idioma:
  assumes "carregar_whisper amb = None"
    and "transcribe amb = Inr (detected_language, segs, None)"
    and "detected_language \<noteq> lit ''en''"
  shows "transcrever_audio_faster_whisper amb caminho_audio fs
     = ((fs(caminho_srt (rsplit_ponto caminho_audio)
              \<mapsto> conteudo_srt 1 (map (\<lambda>seg. (seg, py_strip (seg_text seg))) segs),
            caminho_fala_cron (rsplit_ponto caminho_audio)
              \<mapsto> conteudo_fala (map (\<lambda>seg. (seg, py_strip (seg_text seg))) segs)),
         progressos 1 (length segs) (length segs)), None)"
proof -
  let ?b = "rsplit_ponto caminho_audio"
  let ?fs1 = "abrir_w (caminho_fala_cron ?b) (abrir_w (caminho_srt ?b) fs)"
  have a: "?fs1 (caminho_srt ?b) = Some []"
    using caminhos_distintos(1) [of ?b] by (simp add: abrir_w_def)
  have b: "?fs1 (caminho_fala_cron ?b) = Some []" by (simp add: abrir_w_def)
  note l = laco_segmentos_outro_idioma [OF a b, of "traduzir amb" "length segs" segs "[]" 1]
  have m: "?fs1(caminho_srt ?b \<mapsto> x, caminho_fala_cron ?b \<mapsto> y)
      = fs(caminho_srt ?b \<mapsto> x, caminho_fala_cron ?b \<mapsto> y)" for x y
    by (intro ext) (simp add: abrir_w_def)
  show ?thesis
    unfolding transcrever_audio_faster_whisper_def Let_def using assms l m
    by simp
qed

lemma transcrever_ingles:
  assumes "carregar_whisper amb = None"
    and "transcribe amb = Inr (lit ''en'', segs, None)"
    and "carregar_tradutor amb = None"
    and "map (\<lambda>seg. traduzir amb (py_strip (seg_text seg))) segs = map Inr traduzidos"
  shows "transcrever_audio_faster_whisper amb caminho_audio fs
     = ((fs(caminho_srt_en (rsplit_ponto caminho_audio)
              \<mapsto> conteudo_srt 1 (map (\<lambda>seg. (seg, py_strip (seg_text seg))) segs),
            caminho_fala_cron_en (rsplit_ponto caminho_audio)
              \<mapsto> conteudo_fala (map (\<lambda>seg. (seg, py_strip (seg_text seg))) segs),
            caminho_srt (rsplit_ponto caminho_audio) \<mapsto> conteudo_srt 1 (zip segs traduzidos),
            caminho_fala_cron (rsplit_ponto caminho_audio) \<mapsto> conteudo_fala (zip segs traduzidos)),
         progressos 1 (length segs) (length segs)), None)"
proof -
  let ?b = "rsplit_ponto caminho_audio"
  let ?fs1 = "abrir_w (caminho_fala_cron ?b) (abrir_w (caminho_srt ?b)
      (abrir_w (caminho_fala_cron_en ?b) (abrir_w (caminho_srt_en ?b) fs)))"
  note d = caminhos_distintos [of ?b]
  have a1: "?fs1 (caminho_srt_en ?b) = Some []" using d by (simp add: abrir_w_def)
  have a2: "?fs1 (caminho_fala_cron_en ?b) = Some []" using d by (simp add: abrir_w_def)
  have a3: "?fs1 (caminho_srt ?b) = Some []" using d by (simp add: abrir_w_def)
  have a4: "?fs1 (caminho_fala_cron ?b) = Some []" by (simp add: abrir_w_def)
  note l = laco_segmentos_ingles [OF a1 a2 a3 a4 assms(4), of "length segs" "[]" 1]
  have m: "?fs1(caminho_srt_en ?b \<mapsto> x, caminho_fala_cron_en ?b \<mapsto> y, caminho_srt ?b \<mapsto> z,
               caminho_fala_cron ?b \<mapsto> u)
      = fs(caminho_srt_en ?b \<mapsto> x, caminho_fala_cron_en ?b \<mapsto> y, caminho_srt ?b \<mapsto> z,
           caminho_fala_cron ?b \<mapsto> u)" for x y z u
    by (intro ext) (simp add: abrir_w_def)
  show ?thesis
    unfolding transcrever_audio_faster_whisper_def Let_def using assms(1-3) l m
    by simp
qed

subsection \<open>Evaluating \<open>formatar_timestamp\<close>\<close>

text \<open>
  Below \<open>2^53\<close> seconds the floor divisions and remainders of \<open>formatar_timestamp\<close>
  are exact, which gives the four fields of a timestamp by rational arithmetic.
\<close>

lemma fmod_menor:
  assumes "0 \<le> t" "0 < w"
  shows "fmod t w \<le> t"
proof -
  from assms have "0 \<le> t / w" by simp
  then have "0 \<le> w * of_int \<lfloor>t / w\<rfloor>" using assms(2) by simp
  then show ?thesis unfolding fmod_pos(1) [OF assms] by simp
qed

lemma partes_timestamp_calc:
  assumes r: "representavel t" and t: "0 \<le> t" and lt: "t < 2 ^ 53"
    and z: "binary64 ((t - of_int \<lfloor>t\<rfloor>) * 1000) = Fin z"
  shows "partes_timestamp (Fin t)
     = Inr (\<lfloor>t / 3600\<rfloor>, \<lfloor>fmod t 3600 / 60\<rfloor>, \<lfloor>fmod t 60\<rfloor>, \<lfloor>z\<rfloor>)"
proof -
  have h: "float_div_mod t 3600 = (Fin (of_int \<lfloor>t / 3600\<rfloor>), Fin (fmod t 3600))"
    using float_div_mod_exato [OF t lt, of 3600] by simp
  have f0: "0 \<le> fmod t 3600" using fmod_pos(2) [OF t, of 3600] by simp
  have "fmod t 3600 \<le> t" using fmod_menor [OF t, of 3600] by simp
  with lt have f1: "fmod t 3600 < 2 ^ 53" by simp
  have m: "float_div_mod (fmod t 3600) 60
      = (Fin (of_int \<lfloor>fmod t 3600 / 60\<rfloor>), Fin (fmod (fmod t 3600) 60))"
    using float_div_mod_exato [OF f0 f1, of 60] by simp
  have s: "float_div_mod t 60 = (Fin (of_int \<lfloor>t / 60\<rfloor>), Fin (fmod t 60))"
    using float_div_mod_60_exato [OF t lt] .
  note rp = representavel_partes [OF r t]
  have fi: "float_de_int \<lfloor>t\<rfloor> = Inr (Fin (of_int \<lfloor>t\<rfloor>))"
    using rp(1) by (simp add: float_de_int_def representavel_def)
  have fs: "binary64 (t - of_int \<lfloor>t\<rfloor>) = Fin (t - of_int \<lfloor>t\<rfloor>)"
    using rp(2) by (simp only: representavel_def)
  have "0 \<le> (t - of_int \<lfloor>t\<rfloor>) * 1000" by simp
  from binary64_nao_negativo [OF z this] have z0: "0 \<le> z" .
  have a: "0 \<le> t / 3600" "0 \<le> fmod t 3600 / 60" using t f0 by simp_all
  have b: "0 \<le> fmod t 60" using fmod_pos(2) [OF t, of 60] by simp
  show ?thesis
    unfolding partes_timestamp_def using h m s fi fs z z0 a b t by simp
qed

lemma ex_str_nat_1: "str_nat 1 = lit ''1''" by code_simp
lemma ex_str_nat_2: "str_nat 2 = lit ''2''" by code_simp
lemma ex_fmt2_0: "fmt_0d 2 0 = lit ''00''" by code_simp
lemma ex_fmt2_2: "fmt_0d 2 2 = lit ''02''" by code_simp
lemma ex_fmt2_5: "fmt_0d 2 5 = lit ''05''" by code_simp
lemma ex_fmt3_0: "fmt_0d 3 0 = lit ''000''" by code_simp
lemma ex_fmt3_500: "fmt_0d 3 500 = lit ''500''" by code_simp

lemmas ex_fmt = ex_fmt2_0 ex_fmt2_2 ex_fmt2_5 ex_fmt3_0 ex_fmt3_500

lemma ex_formatar_0: "formatar_timestamp (Fin 0) = lit ''00:00:00,000''"
proof -
  have z: "binary64 ((0 - of_int \<lfloor>0 :: rat\<rfloor>) * 1000) = Fin 0" by simp
  from partes_timestamp_calc [OF _ _ _ z] have "partes_timestamp (Fin 0) = Inr (0, 0, 0, 0)"
    by (simp add: fmod_def)
  then show ?thesis
    by (simp add: formatar_timestamp_def ex_fmt)
qed

lemma ex_formatar_25: "formatar_timestamp (Fin (5 / 2)) = lit ''00:00:02,500''"
proof -
  have r: "representavel (5 / 2)" using representavel_diadico [of 5 1] by simp
  have "representavel (of_int 500)" by (rule representavel_int) simp_all
  then have z: "binary64 ((5 / 2 - of_int \<lfloor>5 / 2 :: rat\<rfloor>) * 1000) = Fin 500"
    by (simp add: representavel_def)
  from partes_timestamp_calc [OF r _ _ z] have "partes_timestamp (Fin (5 / 2)) = Inr (0, 0, 2, 500)"
    by (simp add: fmod_def)
  then show ?thesis
    by (simp add: formatar_timestamp_def ex_fmt)
qed

lemma ex_formatar_5: "formatar_timestamp (Fin 5) = lit ''00:00:05,000''"
proof -
  have "representavel (of_int 5)" by (rule representavel_int) simp_all
  then have r: "representavel 5" by simp
  have z: "binary64 ((5 - of_int \<lfloor>5 :: rat\<rfloor>) * 1000) = Fin 0" by simp
  from partes_timestamp_calc [OF r _ _ z] have "partes_timestamp (Fin 5) = Inr (0, 0, 5, 0)"
    by (simp add: fmod_def)
  then show ?thesis
    by (simp add: formatar_timestamp_def ex_fmt)
qed

lemma ex_strip_hello: "py_strip (lit ''hello'') = lit ''hello''"
  by (simp add: py_strip_def py_isspace_def)

lemma ex_strip_world: "py_strip (lit ''world'') = lit ''world''"
  by (simp add: py_strip_def py_isspace_def)

lemma ex_truediv_1_2: "int_truediv 1 2 = Fin (1 / 2)"
  using representavel_diadico [of 1 1] by (simp add: int_truediv_def representavel_def)

lemma ex_truediv_2_2: "int_truediv 2 2 = Fin 1"
  using representavel_int [of 1] by (simp add: int_truediv_def representavel_def)

lemma ex_truediv_1_1: "int_truediv 1 1 = Fin 1"
  using representavel_int [of 1] by (simp add: int_truediv_def representavel_def)

lemma ex_bloco_hello:
  "bloco_legenda 1 \<lparr>seg_start = Fin 0, seg_end = Fin (5 / 2), seg_text = lit ''hello''\<rparr> (lit ''hello'')
     = lit ''1'' @ [10] @ lit ''00:00:00,000 --> 00:00:02,500'' @ [10] @ lit ''hello'' @ [10, 10]"
  unfolding bloco_legenda_def segmento.simps ex_formatar_0 ex_formatar_25 ex_str_nat_1 by simp

lemma ex_bloco_world:
  "bloco_legenda 2 \<lparr>seg_start = Fin (5 / 2), seg_end = Fin 5, seg_text = lit ''world''\<rparr> (lit ''world'')
     = lit ''2'' @ [10] @ lit ''00:00:02,500 --> 00:00:05,000'' @ [10] @ lit ''world'' @ [10, 10]"
  unfolding bloco_legenda_def segmento.simps ex_formatar_25 ex_formatar_5 ex_str_nat_2 by simp

lemma ex_linha_hello:
  "linha_fala \<lparr>seg_start = Fin 0, seg_end = Fin (5 / 2), seg_text = lit ''hello''\<rparr> (lit ''hello'')
     = lit ''00:00:00,000: hello'' @ [10]"
  unfolding linha_fala_def segmento.simps ex_formatar_0 by simp

lemma ex_linha_world:
  "linha_fala \<lparr>seg_start = Fin (5 / 2), seg_end = Fin 5, seg_text = lit ''world''\<rparr> (lit ''world'')
     = lit ''00:00:02,500: world'' @ [10]"
  unfolding linha_fala_def segmento.simps ex_formatar_25 by simp

lemma ex_base_video: "rsplit_ponto (lit ''video.mp4'') = lit ''video''"
  by (simp add: rsplit_ponto_def)

lemma ex_bloco_1:
  "bloco_legenda 1 \<lparr>seg_start = Fin 0, seg_end = Fin (5 / 2), seg_text = t\<rparr> txt
     = lit ''1'' @ [10] @ lit ''00:00:00,000 --> 00:00:02,500'' @ [10] @ txt @ [10, 10]"
  unfolding bloco_legenda_def segmento.simps ex_formatar_0 ex_formatar_25 ex_str_nat_1 by simp

lemma ex_linha_1:
  "linha_fala \<lparr>seg_start = Fin 0, seg_end = Fin (5 / 2), seg_text = t\<rparr> txt
     = lit ''00:00:00,000: '' @ txt @ [10]"
  unfolding linha_fala_def segmento.simps ex_formatar_0 by simp

lemma ex_strip_hola: "py_strip (lit ''hola'') = lit ''hola''"
  by (simp add: py_strip_def py_isspace_def)

lemma ex_progressos_1: "progressos 1 (length [seg]) (length [seg]) = [Progresso (Fin 1)]"
  using ex_truediv_1_1 by (simp add: progressos_def)

lemma ex_caminhos_video:
  "caminho_srt (lit ''video'') = lit ''video.srt''"
  "caminho_fala_cron (lit ''video'') = lit ''video-Fala.Cronometrada.txt''"
  "caminho_srt_en (lit ''video'') = lit ''video-en.srt''"
  "caminho_fala_cron_en (lit ''video'') = lit ''video-en-Fala.Cronometrada.txt''"
  by (simp_all add: caminho_srt_def caminho_fala_cron_def caminho_srt_en_def caminho_fala_cron_en_def)

subsection \<open>The subtitle file of two segments\<close>

text \<open>
  Claim C3. When the speech model loads and yields the segments \<open>(0.0, 2.5, "hello")\<close>
  and \<open>(2.5, 5.0, "world")\<close> with the detected language \<open>pt\<close>, the language of the
  target, \<open>transcrever_audio_faster_whisper\<close> returns without raising, whatever the
  path and the files that exist, and leaves in the subtitle file (the path with \<open>.srt\<close>
  for its extension) exactly the two blocks with ids 1 and 2 and the timestamp lines
  \<open>00:00:00,000 --> 00:00:02,500\<close> and \<open>00:00:02,500 --> 00:00:05,000\<close>, each block
  being the id, a newline, the timestamp line, a newline, the text and two newlines
  (code point 10 is the newline). The timed transcript has one line per segment, two
  progress fractions are put on the queue, and no other file is written.
\<close>

theorem legenda_de_dois_segmentos:
  assumes "carregar_whisper amb = None"
    and "transcribe amb
       = Inr (lit ''pt'',
              [\<lparr>seg_start = Fin 0, seg_end = Fin (5 / 2), seg_text = lit ''hello''\<rparr>,
               \<lparr>seg_start = Fin (5 / 2), seg_end = Fin 5, seg_text = lit ''world''\<rparr>],
              None)"
  shows "transcrever_audio_faster_whisper amb caminho_audio fs
     = ((fs(caminho_srt (rsplit_ponto caminho_audio)
              \<mapsto> lit ''1'' @ [10] @ lit ''00:00:00,000 --> 00:00:02,500'' @ [10] @ lit ''hello'' @ [10, 10]
                  @ lit ''2'' @ [10] @ lit ''00:00:02,500 --> 00:00:05,000'' @ [10] @ lit ''world'' @ [10, 10],
            caminho_fala_cron (rsplit_ponto caminho_audio)
              \<mapsto> lit ''00:00:00,000: hello'' @ [10] @ lit ''00:00:02,500: world'' @ [10]),
         [Progresso (Fin (1 / 2)), Progresso (Fin 1)]), None)
   \<and> lit ''1'' @ [10] @ lit ''00:00:00,000 --> 00:00:02,500'' @ [10] @ lit ''hello'' @ [10, 10]
       @ lit ''2'' @ [10] @ lit ''00:00:02,500 --> 00:00:05,000'' @ [10] @ lit ''world'' @ [10, 10]
     = bloco_legenda 1 \<lparr>seg_start = Fin 0, seg_end = Fin (5 / 2), seg_text = lit ''hello''\<rparr> (lit ''hello'')
       @ bloco_legenda 2 \<lparr>seg_start = Fin (5 / 2), seg_end = Fin 5, seg_text = lit ''world''\<rparr> (lit ''world'')"
proof -
  let ?s1 = "\<lparr>seg_start = Fin 0, seg_end = Fin (5 / 2), seg_text = lit ''hello''\<rparr>"
  let ?s2 = "\<lparr>seg_start = Fin (5 / 2), seg_end = Fin 5, seg_text = lit ''world''\<rparr>"
  have pt: "lit ''pt'' \<noteq> lit ''en''" by simp
  note t = transcrever_outro_idioma [OF assms pt, of caminho_audio fs]
  have p: "map (\<lambda>seg. (seg, py_strip (seg_text seg))) [?s1, ?s2] = [(?s1, lit ''hello''), (?s2, lit ''world'')]"
    unfolding list.map segmento.simps ex_strip_hello ex_strip_world ..
  have c: "conteudo_srt 1 [(?s1, lit ''hello''), (?s2, lit ''world'')]
      = lit ''1'' @ [10] @ lit ''00:00:00,000 --> 00:00:02,500'' @ [10] @ lit ''hello'' @ [10, 10]
        @ lit ''2'' @ [10] @ lit ''00:00:02,500 --> 00:00:05,000'' @ [10] @ lit ''world'' @ [10, 10]"
  proof -
    have s: "Suc 1 = (2::nat)" by simp
    have "conteudo_srt 1 [(?s1, lit ''hello''), (?s2, lit ''world'')]
        = bloco_legenda 1 ?s1 (lit ''hello'') @ bloco_legenda 2 ?s2 (lit ''world'')"
      by (simp only: conteudo_srt_Cons conteudo_srt_Nil append_Nil2 s)
    then show ?thesis unfolding ex_bloco_hello ex_bloco_world by (simp only: append_assoc)
  qed
  have f: "conteudo_fala [(?s1, lit ''hello''), (?s2, lit ''world'')]
      = lit ''00:00:00,000: hello'' @ [10] @ lit ''00:00:02,500: world'' @ [10]"
    by (simp only: conteudo_fala_Cons conteudo_fala_Nil ex_linha_hello ex_linha_world append_Nil2 append_assoc)
  have q: "progressos 1 (length [?s1, ?s2]) (length [?s1, ?s2]) = [Progresso (Fin (1 / 2)), Progresso (Fin 1)]"
    using ex_truediv_1_2 ex_truediv_2_2 by (simp add: progressos_def upt_rec)
  have b: "lit ''1'' @ [10] @ lit ''00:00:00,000 --> 00:00:02,500'' @ [10] @ lit ''hello'' @ [10, 10]
       @ lit ''2'' @ [10] @ lit ''00:00:02,500 --> 00:00:05,000'' @ [10] @ lit ''world'' @ [10, 10]
     = bloco_legenda 1 ?s1 (lit ''hello'') @ bloco_legenda 2 ?s2 (lit ''world'')"
    by (simp only: ex_bloco_hello ex_bloco_world append_assoc)
  from t [unfolded p c f q] b show ?thesis by (rule conjI)
qed

text \<open>The theorem at a speech model that yields these segments, for \<open>video.mp4\<close> and no file.\<close>

theorem legenda_de_dois_segmentos_witness:
  "carregar_whisper \<lparr>carregar_whisper = None,
       transcribe = Inr (lit ''pt'',
              [\<lparr>seg_start = Fin 0, seg_end = Fin (5 / 2), seg_text = lit ''hello''\<rparr>,
               \<lparr>seg_start = Fin (5 / 2), seg_end = Fin 5, seg_text = lit ''world''\<rparr>],
              None),
       carregar_tradutor = None, traduzir = Inr\<rparr> = None
   \<and> transcrever_audio_faster_whisper \<lparr>carregar_whisper = None,
       transcribe = Inr (lit ''pt'',
              [\<lparr>seg_start = Fin 0, seg_end = Fin (5 / 2), seg_text = lit ''hello''\<rparr>,
               \<lparr>seg_start = Fin (5 / 2), seg_end = Fin 5, seg_text = lit ''world''\<rparr>],
              None),
       carregar_tradutor = None, traduzir = Inr\<rparr> (lit ''video.mp4'') Map.empty
     = (([lit ''video.srt''
              \<mapsto> lit ''1'' @ [10] @ lit ''00:00:00,000 --> 00:00:02,500'' @ [10] @ lit ''hello'' @ [10, 10]
                  @ lit ''2'' @ [10] @ lit ''00:00:02,500 --> 00:00:05,000'' @ [10] @ lit ''world'' @ [10, 10],
          lit ''video-Fala.Cronometrada.txt''
              \<mapsto> lit ''00:00:00,000: hello'' @ [10] @ lit ''00:00:02,500: world'' @ [10]],
         [Progresso (Fin (1 / 2)), Progresso (Fin 1)]), None)"
proof -
  let ?amb = "\<lparr>carregar_whisper = None,
       transcribe = Inr (lit ''pt'',
              [\<lparr>seg_start = Fin 0, seg_end = Fin (5 / 2), seg_text = lit ''hello''\<rparr>,
               \<lparr>seg_start = Fin (5 / 2), seg_end = Fin 5, seg_text = lit ''world''\<rparr>],
              None),
       carregar_tradutor = None, traduzir = Inr\<rparr>"
  have h1: "carregar_whisper ?amb = None" by simp
  have h2: "transcribe ?amb = Inr (lit ''pt'',
              [\<lparr>seg_start = Fin 0, seg_end = Fin (5 / 2), seg_text = lit ''hello''\<rparr>,
               \<lparr>seg_start = Fin (5 / 2), seg_end = Fin 5, seg_text = lit ''world''\<rparr>],
              None)" by simp
  have s: "caminho_srt (lit ''video'') = lit ''video.srt''" by (simp add: caminho_srt_def)
  have f: "caminho_fala_cron (lit ''video'') = lit ''video-Fala.Cronometrada.txt''"
    by (simp add: caminho_fala_cron_def)
  from legenda_de_dois_segmentos [OF h1 h2, of "lit ''video.mp4''" Map.empty, THEN conjunct1]
  have "transcrever_audio_faster_whisper ?amb (lit ''video.mp4'') Map.empty
     = (([lit ''video.srt''
              \<mapsto> lit ''1'' @ [10] @ lit ''00:00:00,000 --> 00:00:02,500'' @ [10] @ lit ''hello'' @ [10, 10]
                  @ lit ''2'' @ [10] @ lit ''00:00:02,500 --> 00:00:05,000'' @ [10] @ lit ''world'' @ [10, 10],
          lit ''video-Fala.Cronometrada.txt''
              \<mapsto> lit ''00:00:00,000: hello'' @ [10] @ lit ''00:00:02,500: world'' @ [10]],
         [Progresso (Fin (1 / 2)), Progresso (Fin 1)]), None)"
    unfolding ex_base_video s f .
  with h1 show ?thesis by (rule conjI)
qed

subsection \<open>When is a segment translated?\<close>

text \<open>
  The source translates under the test \<open>detected_language == "en"\<close>, not whenever the
  detected language differs from the target. A Spanish recording (the language \<open>es\<close>
  differs from the target \<open>pt\<close>), with a translator that would mark its output with
  \<open>T:\<close>: the subtitle and the transcript hold the Spanish text as it was spoken, and
  there is no file with \<open>-es\<close> in its name. So the statement of claim C1 fails there.
\<close>

theorem espanhol_nao_e_traduzido:
  "lit ''es'' \<noteq> lit ''pt''
   \<and> traduzir \<lparr>carregar_whisper = None,
        transcribe = Inr (lit ''es'',
          [\<lparr>seg_start = Fin 0, seg_end = Fin (5 / 2), seg_text = lit ''hola''\<rparr>], None),
        carregar_tradutor = None, traduzir = (\<lambda>s. Inr (lit ''T:'' @ s))\<rparr> (lit ''hola'')
      = Inr (lit ''T:hola'')
   \<and> transcrever_audio_faster_whisper \<lparr>carregar_whisper = None,
        transcribe = Inr (lit ''es'',
          [\<lparr>seg_start = Fin 0, seg_end = Fin (5 / 2), seg_text = lit ''hola''\<rparr>], None),
        carregar_tradutor = None, traduzir = (\<lambda>s. Inr (lit ''T:'' @ s))\<rparr> (lit ''video.mp4'') Map.empty
      = (([lit ''video.srt''
             \<mapsto> lit ''1'' @ [10] @ lit ''00:00:00,000 --> 00:00:02,500'' @ [10] @ lit ''hola'' @ [10, 10],
           lit ''video-Fala.Cronometrada.txt'' \<mapsto> lit ''00:00:00,000: hola'' @ [10]],
          [Progresso (Fin 1)]), None)
   \<and> [lit ''video.srt''
             \<mapsto> lit ''1'' @ [10] @ lit ''00:00:00,000 --> 00:00:02,500'' @ [10] @ lit ''hola'' @ [10, 10],
        lit ''video-Fala.Cronometrada.txt'' \<mapsto> lit ''00:00:00,000: hola'' @ [10]]
         (lit ''video-es.srt'') = None
   \<and> [lit ''video.srt''
             \<mapsto> lit ''1'' @ [10] @ lit ''00:00:00,000 --> 00:00:02,500'' @ [10] @ lit ''hola'' @ [10, 10],
        lit ''video-Fala.Cronometrada.txt'' \<mapsto> lit ''00:00:00,000: hola'' @ [10]]
         (lit ''video-es-Fala.Cronometrada.txt'') = None"
proof -
  let ?seg = "\<lparr>seg_start = Fin 0, seg_end = Fin (5 / 2), seg_text = lit ''hola''\<rparr>"
  let ?amb = "\<lparr>carregar_whisper = None, transcribe = Inr (lit ''es'', [?seg], None),
        carregar_tradutor = None, traduzir = (\<lambda>s. Inr (lit ''T:'' @ s))\<rparr>"
  have h1: "carregar_whisper ?amb = None" by simp
  have h2: "transcribe ?amb = Inr (lit ''es'', [?seg], None)" by simp
  have h3: "lit ''es'' \<noteq> lit ''en''" by simp
  have p: "map (\<lambda>seg. (seg, py_strip (seg_text seg))) [?seg] = [(?seg, lit ''hola'')]"
    unfolding list.map segmento.simps ex_strip_hola ..
  have c: "conteudo_srt 1 [(?seg, lit ''hola'')]
      = lit ''1'' @ [10] @ lit ''00:00:00,000 --> 00:00:02,500'' @ [10] @ lit ''hola'' @ [10, 10]"
    by (simp only: conteudo_srt_Cons conteudo_srt_Nil append_Nil2 ex_bloco_1)
  have f: "conteudo_fala [(?seg, lit ''hola'')] = lit ''00:00:00,000: hola'' @ [10]"
    unfolding conteudo_fala_Cons conteudo_fala_Nil ex_linha_1 by simp
  note t = transcrever_outro_idioma [OF h1 h2 h3, of "lit ''video.mp4''" Map.empty,
      unfolded p c f ex_progressos_1 ex_base_video ex_caminhos_video]
  have a: "lit ''es'' \<noteq> lit ''pt''" by simp
  have b: "traduzir ?amb (lit ''hola'') = Inr (lit ''T:hola'')" by simp
  have n1: "[lit ''video.srt''
             \<mapsto> lit ''1'' @ [10] @ lit ''00:00:00,000 --> 00:00:02,500'' @ [10] @ lit ''hola'' @ [10, 10],
        lit ''video-Fala.Cronometrada.txt'' \<mapsto> lit ''00:00:00,000: hola'' @ [10]]
         (lit ''video-es.srt'') = None" by simp
  have n2: "[lit ''video.srt''
             \<mapsto> lit ''1'' @ [10] @ lit ''00:00:00,000 --> 00:00:02,500'' @ [10] @ lit ''hola'' @ [10, 10],
        lit ''video-Fala.Cronometrada.txt'' \<mapsto> lit ''00:00:00,000: hola'' @ [10]]
         (lit ''video-es-Fala.Cronometrada.txt'') = None" by simp
  from a b t n1 n2 show ?thesis by (intro conjI)
qed

text \<open>
  Claim C1, amended. For a run in which the speech model loads and yields its segments:
  when the detected language is \<open>en\<close> (and the translation model loads and translates
  every segment), the text of each segment is written to the files with \<open>-en\<close> in
  their names, \<open>-en.srt\<close> and \<open>-en-Fala.Cronometrada.txt\<close>, and its translation to
  the files \<open>.srt\<close> and \<open>-Fala.Cronometrada.txt\<close>; for every other detected language,
  the target language or not, the text of each segment is written as it is to the files
  \<open>.srt\<close> and \<open>-Fala.Cronometrada.txt\<close>, the translator is not used and no other
  file is written.
\<close>

theorem traducao_somente_do_ingles:
  assumes "carregar_whisper amb = None"
    and "transcribe amb = Inr (detected_language, segs, None)"
    and "detected_language = lit ''en'' \<longrightarrow>
           carregar_tradutor amb = None
           \<and> map (\<lambda>seg. traduzir amb (py_strip (seg_text seg))) segs = map Inr traduzidos"
  shows "transcrever_audio_faster_whisper amb caminho_audio fs
     = (if detected_language = lit ''en'' then
          ((fs(caminho_srt_en (rsplit_ponto caminho_audio)
                 \<mapsto> conteudo_srt 1 (map (\<lambda>seg. (seg, py_strip (seg_text seg))) segs),
               caminho_fala_cron_en (rsplit_ponto caminho_audio)
                 \<mapsto> conteudo_fala (map (\<lambda>seg. (seg, py_strip (seg_text seg))) segs),
               caminho_srt (rsplit_ponto caminho_audio) \<mapsto> conteudo_srt 1 (zip segs traduzidos),
               caminho_fala_cron (rsplit_ponto caminho_audio) \<mapsto> conteudo_fala (zip segs traduzidos)),
            progressos 1 (length segs) (length segs)), None)
        else
          ((fs(caminho_srt (rsplit_ponto caminho_audio)
                 \<mapsto> conteudo_srt 1 (map (\<lambda>seg. (seg, py_strip (seg_text seg))) segs),
               caminho_fala_cron (rsplit_ponto caminho_audio)
                 \<mapsto> conteudo_fala (map (\<lambda>seg. (seg, py_strip (seg_text seg))) segs)),
            progressos 1 (length segs) (length segs)), None))"
proof (cases "detected_language = lit ''en''")
  case True
  with assms(2) have t: "transcribe amb = Inr (lit ''en'', segs, None)" by simp
  from assms(3) True have c: "carregar_tradutor amb = None"
    and m: "map (\<lambda>seg. traduzir amb (py_strip (seg_text seg))) segs = map Inr traduzidos"
    by simp_all
  show ?thesis
    unfolding transcrever_ingles [OF assms(1) t c m, of caminho_audio fs] if_P [OF True] ..
next
  case False
  show ?thesis
    unfolding transcrever_outro_idioma [OF assms(1,2) False, of caminho_audio fs] if_not_P [OF False] ..
qed

text \<open>
  The amended statement of C1 at an English recording of one segment, with a translator
  that marks its output with \<open>T:\<close>.
\<close>

theorem traducao_somente_do_ingles_witness:
  "carregar_whisper \<lparr>carregar_whisper = None,
        transcribe = Inr (lit ''en'',
          [\<lparr>seg_start = Fin 0, seg_end = Fin (5 / 2), seg_text = lit ''hello''\<rparr>], None),
        carregar_tradutor = None, traduzir = (\<lambda>s. Inr (lit ''T:'' @ s))\<rparr> = None
   \<and> carregar_tradutor \<lparr>carregar_whisper = None,
        transcribe = Inr (lit ''en'',
          [\<lparr>seg_start = Fin 0, seg_end = Fin (5 / 2), seg_text = lit ''hello''\<rparr>], None),
        carregar_tradutor = None, traduzir = (\<lambda>s. Inr (lit ''T:'' @ s))\<rparr> = None
   \<and> map (\<lambda>seg. traduzir \<lparr>carregar_whisper = None,
        transcribe = Inr (lit ''en'',
          [\<lparr>seg_start = Fin 0, seg_end = Fin (5 / 2), seg_text = lit ''hello''\<rparr>], None),
        carregar_tradutor = None, traduzir = (\<lambda>s. Inr (lit ''T:'' @ s))\<rparr> (py_strip (seg_text seg)))
        [\<lparr>seg_start = Fin 0, seg_end = Fin (5 / 2), seg_text = lit ''hello''\<rparr>]
      = map Inr [lit ''T:hello'']
   \<and> transcrever_audio_faster_whisper \<lparr>carregar_whisper = None,
        transcribe = Inr (lit ''en'',
          [\<lparr>seg_start = Fin 0, seg_end = Fin (5 / 2), seg_text = lit ''hello''\<rparr>], None),
        carregar_tradutor = None, traduzir = (\<lambda>s. Inr (lit ''T:'' @ s))\<rparr> (lit ''video.mp4'') Map.empty
      = (([lit ''video-en.srt''
             \<mapsto> lit ''1'' @ [10] @ lit ''00:00:00,000 --> 00:00:02,500'' @ [10] @ lit ''hello'' @ [10, 10],
           lit ''video-en-Fala.Cronometrada.txt'' \<mapsto> lit ''00:00:00,000: hello'' @ [10],
           lit ''video.srt''
             \<mapsto> lit ''1'' @ [10] @ lit ''00:00:00,000 --> 00:00:02,500'' @ [10] @ lit ''T:hello'' @ [10, 10],
           lit ''video-Fala.Cronometrada.txt'' \<mapsto> lit ''00:00:00,000: T:hello'' @ [10]],
          [Progresso (Fin 1)]), None)"
proof -
  let ?seg = "\<lparr>seg_start = Fin 0, seg_end = Fin (5 / 2), seg_text = lit ''hello''\<rparr>"
  let ?amb = "\<lparr>carregar_whisper = None, transcribe = Inr (lit ''en'', [?seg], None),
        carregar_tradutor = None, traduzir = (\<lambda>s. Inr (lit ''T:'' @ s))\<rparr>"
  have h1: "carregar_whisper ?amb = None" by simp
  have h2: "transcribe ?amb = Inr (lit ''en'', [?seg], None)" by simp
  have h3: "carregar_tradutor ?amb = None" by simp
  have h4: "map (\<lambda>seg. traduzir ?amb (py_strip (seg_text seg))) [?seg] = map Inr [lit ''T:hello'']"
    unfolding list.map segmento.simps ex_strip_hello by simp
  from h3 h4 have h: "lit ''en'' = lit ''en'' \<longrightarrow> carregar_tradutor ?amb = None
      \<and> map (\<lambda>seg. traduzir ?amb (py_strip (seg_text seg))) [?seg] = map Inr [lit ''T:hello'']"
    by blast
  have p: "map (\<lambda>seg. (seg, py_strip (seg_text seg))) [?seg] = [(?seg, lit ''hello'')]"
    unfolding list.map segmento.simps ex_strip_hello ..
  have z: "zip [?seg] [lit ''T:hello''] = [(?seg, lit ''T:hello'')]" by simp
  have c: "conteudo_srt 1 [(?seg, tx)]
      = lit ''1'' @ [10] @ lit ''00:00:00,000 --> 00:00:02,500'' @ [10] @ tx @ [10, 10]" for tx
    by (simp only: conteudo_srt_Cons conteudo_srt_Nil append_Nil2 ex_bloco_1)
  have f: "conteudo_fala [(?seg, tx)] = lit ''00:00:00,000: '' @ tx @ [10]" for tx
    by (simp only: conteudo_fala_Cons conteudo_fala_Nil append_Nil2 ex_linha_1)
  have e: "(lit ''en'' = lit ''en'') = True" by simp
  note t = traducao_somente_do_ingles [OF h1 h2 h, of "lit ''video.mp4''" Map.empty,
      unfolded e if_True p z c f ex_progressos_1 ex_base_video ex_caminhos_video]
  have "transcrever_audio_faster_whisper ?amb (lit ''video.mp4'') Map.empty
      = (([lit ''video-en.srt''
             \<mapsto> lit ''1'' @ [10] @ lit ''00:00:00,000 --> 00:00:02,500'' @ [10] @ lit ''hello'' @ [10, 10],
           lit ''video-en-Fala.Cronometrada.txt'' \<mapsto> lit ''00:00:00,000: hello'' @ [10],
           lit ''video.srt''
             \<mapsto> lit ''1'' @ [10] @ lit ''00:00:00,000 --> 00:00:02,500'' @ [10] @ lit ''T:hello'' @ [10, 10],
           lit ''video-Fala.Cronometrada.txt'' \<mapsto> lit ''00:00:00,000: T:hello'' @ [10]],
          [Progresso (Fin 1)]), None)"
    using t by simp
  with h1 h3 h4 show ?thesis by (intro conjI)
qed
section \<open>Error handling of the two workers and of the coordinator\<close>

subsection \<open>The two workers\<close>





lemma processar_frames_falha_ao_renomear:
  assumes "extrair_frames processo = Some (Inr dados_log)"
    and "analisar_dados_log dados_log = Inr tempos_frames"
    and "renomear_frames pl tempos_frames pasta_saida nome_base fs = Inl e"
  shows "processar_frames pl processo fs pasta_saida nome_base
     = Some ((diretorio_apos_renomear pl tempos_frames pasta_saida nome_base fs,
              [Texto (lit ''Erro ao processar frames: '' @ str_excecao e)]), None)"
  using assms by (simp add: processar_frames_def processar_frames_corpo_def)

lemma diretorio_apos_laco_Inr:
  "renomear_laco pl p b xs (fs, av) = Inr (fs', av') \<Longrightarrow> diretorio_apos_laco pl p b xs fs = fs'"
proof (induction xs arbitrary: fs av)
  case Nil
  then show ?case by simp
next
  case (Cons x xs)
  obtain i t where x: "x = (i, t)" by (cases x)
  show ?case
  proof (cases "os_path_exists fs (nome_original pl p i)")
    case False
    with Cons.prems x have "renomear_laco pl p b xs (fs, av @ [aviso_nao_encontrado (nome_original pl p i)]) = Inr (fs', av')"
      by (simp add: renomear_laco.simps(2))
    from Cons.IH [OF this] False x show ?thesis by simp
  next
    case True
    with Cons.prems x obtain fs1 where r: "os_rename pl (nome_original pl p i) (nome_novo pl p b t) fs = Inr fs1"
      and l: "renomear_laco pl p b xs (fs1, av) = Inr (fs', av')"
      by (auto simp: renomear_laco.simps(2) split: sum.splits)
    from Cons.IH [OF l] True r x show ?thesis by simp
  qed
qed

lemma diretorio_apos_renomear_Inr:
  "renomear_frames pl tempos_frames pasta_saida nome_base fs = Inr (fs', avisos)
     \<Longrightarrow> diretorio_apos_renomear pl tempos_frames pasta_saida nome_base fs = fs'"
  unfolding renomear_frames_def diretorio_apos_renomear_def by (rule diretorio_apos_laco_Inr)




subsection \<open>The coordinator\<close>





lemma apos_transcricao_filas:
  "fila_progresso_frames (apos_transcricao args ent w) = fila_progresso_frames w"
  "fila_progresso_arquivo (apos_transcricao args ent w) = fila_progresso_arquivo w"
  by (simp_all add: apos_transcricao_def split: prod.splits)







lemma apos_frames_nao_toca_fila_transcricao:
  "apos_frames pl args ent w = Some w' \<Longrightarrow> fila_progresso_transcricao w' = fila_progresso_transcricao w"
  by (auto simp: apos_frames_def split: if_splits option.splits prod.splits)


subsection \<open>The files on disk do not depend on the queues\<close>





subsection \<open>Concrete runs\<close>













text \<open>
  An exception of \<open>os.rename\<close> in the middle of the batch (on Windows, two frames with the
  same timestamp) leaves the first frame renamed and the second under its numbered name.
\<close>

lemma ex_analisar_iguais:
  "analisar_dados_log [lit ''pts_time:0.25'', lit ''pts_time:0.25''] = Inr [(0, 0, 250), (0, 0, 250)]"
  unfolding analisar_dados_log_def
  by (simp only: analisar_laco_passo [OF ex_busca_025b] ex_float_025 ex_tempo_025
      analisar_laco.simps(1) sum.case append_Nil append_Cons)

lemma exemplo_falha_ao_renomear:
  "processar_frames Windows (Terminou 0 [lit ''pts_time:0.25'', lit ''pts_time:0.25''])
      [lit ''out/frame_000001.png'' \<mapsto> (1::nat), lit ''out/frame_000002.png'' \<mapsto> 2]
      (lit ''out/'') (lit ''v'')
   = Some (([lit ''out/frame_v_00-00-250.png'' \<mapsto> 1, lit ''out/frame_000002.png'' \<mapsto> 2],
            [Texto (lit ''Erro ao processar frames: '' @ lit ''out/frame_v_00-00-250.png'')]), None)"
proof -
  let ?fs = "[lit ''out/frame_000001.png'' \<mapsto> (1::nat), lit ''out/frame_000002.png'' \<mapsto> 2]"
  have e: "extrair_frames (Terminou 0 [lit ''pts_time:0.25'', lit ''pts_time:0.25''])
      = Some (Inr [lit ''pts_time:0.25'', lit ''pts_time:0.25''])"
    by (simp add: extrair_frames_def)
  have m: "?fs(lit ''out/frame_000001.png'' := None, lit ''out/frame_v_00-00-250.png'' \<mapsto> 1)
      = [lit ''out/frame_v_00-00-250.png'' \<mapsto> 1, lit ''out/frame_000002.png'' \<mapsto> 2]"
    by (rule ext) simp
  have r: "renomear_frames Windows [(0, 0, 250), (0, 0, 250)] (lit ''out/'') (lit ''v'') ?fs
      = Inl (Excecao FileExistsError (lit ''out/frame_v_00-00-250.png''))"
    unfolding renomear_frames_def enumerate_simps renomear_laco.simps os_path_exists_def
      ex_worig0 ex_worig1 ex_wnovo250 os_rename_def
    by simp
  have d: "diretorio_apos_renomear Windows [(0, 0, 250), (0, 0, 250)] (lit ''out/'') (lit ''v'') ?fs
      = [lit ''out/frame_v_00-00-250.png'' \<mapsto> 1, lit ''out/frame_000002.png'' \<mapsto> 2]"
    using m unfolding diretorio_apos_renomear_def enumerate_simps diretorio_apos_laco.simps
      os_path_exists_def ex_worig0 ex_worig1 ex_wnovo250 os_rename_def
    by simp
  from processar_frames_falha_ao_renomear [OF e ex_analisar_iguais r] show ?thesis
    unfolding d by simp
qed

subsection \<open>Failures stay inside the worker\<close>


end
